theory Spec2Isabelle
  imports Complex_Main "HOL-Library.Sublist"
begin

section \<open>GNSS station network: data model\<close>

text \<open>
  The development follows two translation units:
  \<^verbatim>\<open>gnssReceiverGeneratorStationNetwork.cpp\<close> (station setup in \<^verbatim>\<open>init\<close>, the per-station
  pipeline in \<^verbatim>\<open>preprocessing\<close>) and \<^verbatim>\<open>gnssParametrizationSignalBiases.cpp\<close> (\<^verbatim>\<open>init\<close> and
  \<^verbatim>\<open>writeResults\<close>). A \<^verbatim>\<open>Double\<close> is read as an exact real number (no rounding, no NaN),
  a \<^verbatim>\<open>UInt\<close> as a natural number, an exception as the text of its \<^verbatim>\<open>what()\<close>.
\<close>

type_synonym exn = string
type_synonym Time = real
type_synonym Vector3d = "real \<times> real \<times> real"
type_synonym Transform3d = "real list"

text \<open>
  \<^verbatim>\<open>GnssType\<close>, reduced to what the two files read of it: the observation kind that
  \<^verbatim>\<open>== GnssType::PHASE\<close> compares, and the value of \<^verbatim>\<open>frequency()\<close>.
\<close>

datatype ObsKind = RANGE | PHASE | OTHER

record GnssType =
  kind :: ObsKind
  frequency :: real

record GnssSignalBias =
  types :: "GnssType list"
  biases :: "real list"

record GnssAntennaInfo =
  timeStart :: Time
  timeEnd :: Time
  position :: Vector3d
  local2antennaFrame :: Transform3d
  antennaDef :: bool
  accuracyDef :: bool

record GnssStationInfo =
  markerName :: string
  markerNumber :: string
  antenna :: "GnssAntennaInfo list"
  approxPosition :: Vector3d

text \<open>
  The base class of transmitters and receivers. The fields \<open>antennaDef\<close> and
  \<open>accuracyDef\<close> above say whether the shared pointer is set.
\<close>

record GnssTransceiver =
  name :: string
  useableEpochs :: "bool list"
  signalBias :: GnssSignalBias

record GnssTransmitter = GnssTransceiver +
  idTrans :: nat

text \<open>
  A receiver. The component \<open>obs\<close> stands for everything the methods of
  \<^verbatim>\<open>GnssReceiver\<close> keep and the two files never read: observations, tracks, clock and
  position series, and the observation equations built from them.
\<close>

record 'o GnssReceiver = GnssTransceiver +
  idRecv :: nat
  isMyRank :: bool
  observationSampling :: real
  info :: GnssStationInfo
  offset :: "Vector3d list"
  local2antenna :: "Transform3d list"
  obs :: 'o

text \<open>
  Modelled from the spec: the methods \<^verbatim>\<open>useable(idEpoch)\<close>, \<^verbatim>\<open>useable()\<close>,
  \<^verbatim>\<open>disable(idEpoch)\<close> and \<^verbatim>\<open>disable()\<close> of the transceiver class are declared outside the
  two files. The spec gives every station a boolean usability mask over the epochs;
  disabling an epoch clears its entry, disabling a station clears all entries ("all
  epochs, not just flagged ones"), and a station is usable while an entry is set.
\<close>

definition useableEpoch :: "'a GnssTransceiver_scheme \<Rightarrow> nat \<Rightarrow> bool" where
  "useableEpoch r idEpoch = (idEpoch < length (useableEpochs r) \<and> useableEpochs r ! idEpoch)"

definition useable :: "'a GnssTransceiver_scheme \<Rightarrow> bool" where
  "useable r = (True \<in> set (useableEpochs r))"

definition disableEpoch :: "nat \<Rightarrow> 'a GnssTransceiver_scheme \<Rightarrow> 'a GnssTransceiver_scheme" where
  "disableEpoch idEpoch r = r\<lparr>useableEpochs := (useableEpochs r)[idEpoch := False]\<rparr>"

definition disable :: "'a GnssTransceiver_scheme \<Rightarrow> 'a GnssTransceiver_scheme" where
  "disable r = r\<lparr>useableEpochs := map (\<lambda>_. False) (useableEpochs r)\<rparr>"


section \<open>The per-station pipeline of preprocessing\<close>

record Config =
  minObsCountPerTrack :: nat
  huber :: real
  huberPower :: real
  codeMaxPosDiff :: real
  denoisingLambda :: real
  tecWindowSize :: nat
  tecSigmaFactor :: real
  elevationTrackMinimum :: real
  minEstimableEpochsRatio :: real
  fileNameTrackBefore :: string
  fileNameTrackAfter :: string
  fileNameStationInfo :: string
  fileNameStationPosition :: string
  fileNameObs :: string
  maxStationCount :: nat

text \<open>
  The calls that the body of the \<^verbatim>\<open>try\<close> block makes on the receiver, with the arguments
  the source passes. The transmitter list, the two callbacks of \<^verbatim>\<open>gnss\<close>, the
  observation-kind mask and the constant type list \<^verbatim>\<open>{GnssType::L5_G}\<close> are the same in
  every call and are left to the implementation. \<open>WriteTracks\<close> carries the file-name
  template and the value that \<^verbatim>\<open>setValue\<close> gave the variable \<^verbatim>\<open>station\<close>.
\<close>

datatype StageCall =
    CreateTracks nat
  | EstimateInitialClockErrorFromCodeObservations real real real bool
  | ObservationEquationList
  | DisableEpochsWithGrossCodeObservationOutliers real real
  | WriteTracks string string
  | CycleSlipsDetection nat real nat real
  | RemoveLowElevationTracks real
  | TrackOutlierDetection real real
  | CycleSlipsRepairAtSameFrequency

definition stationCalls :: "Config \<Rightarrow> string \<Rightarrow> StageCall list" where
  "stationCalls cfg station =
    [ CreateTracks (minObsCountPerTrack cfg),
      EstimateInitialClockErrorFromCodeObservations (huber cfg) (huberPower cfg) (codeMaxPosDiff cfg) False,
      ObservationEquationList,
      DisableEpochsWithGrossCodeObservationOutliers (codeMaxPosDiff cfg) (1 / 2),
      WriteTracks (fileNameTrackBefore cfg) station,
      CycleSlipsDetection (minObsCountPerTrack cfg) (denoisingLambda cfg) (tecWindowSize cfg) (tecSigmaFactor cfg),
      RemoveLowElevationTracks (elevationTrackMinimum cfg),
      TrackOutlierDetection (huber cfg) (huberPower cfg),
      CycleSlipsRepairAtSameFrequency,
      WriteTracks (fileNameTrackAfter cfg) station ]"

text \<open>
  The methods themselves live in \<^verbatim>\<open>gnssReceiver.cpp\<close>, so their effect is a parameter
  \<open>exec\<close>: a call changes the receiver in place and either returns or throws, and a
  call that throws leaves whatever it had changed by then.
\<close>

type_synonym 'o Exec = "StageCall \<Rightarrow> 'o GnssReceiver \<Rightarrow> exn option \<times> 'o GnssReceiver"

fun runCalls :: "'o Exec \<Rightarrow> StageCall list \<Rightarrow> 'o GnssReceiver
    \<Rightarrow> exn option \<times> 'o GnssReceiver \<times> StageCall list" where
  "runCalls exec [] r = (None, r, [])"
| "runCalls exec (c # cs) r =
    (case exec c r of
       (Some e, r') \<Rightarrow> (Some e, r', [c])
     | (None, r') \<Rightarrow> (case runCalls exec cs r' of (x, r'', cs') \<Rightarrow> (x, r'', c # cs')))"

text \<open>The loop that counts the epochs with observations.\<close>

definition countEpochs :: "'a GnssTransceiver_scheme \<Rightarrow> nat \<Rightarrow> nat" where
  "countEpochs r n = length (filter (useableEpoch r) [0..<n])"

text \<open>
  The comparison of the usability test. \<open>medianSeconds\<close> is the value of
  \<^verbatim>\<open>medianSampling(times).seconds()\<close>, a function of \<^verbatim>\<open>base/time\<close>.
\<close>

definition belowEstimableRatio :: "nat \<Rightarrow> real \<Rightarrow> real \<Rightarrow> nat \<Rightarrow> real \<Rightarrow> bool" where
  "belowEstimableRatio count sampling ratio nTotal medianSeconds =
    (real count * sampling < ratio * real nTotal * medianSeconds)"

text \<open>
  What one pass of the lambda of \<^verbatim>\<open>Single::forEach\<close> leaves for a receiver of this rank:
  the receiver, the increment of \<^verbatim>\<open>disabledStations\<close>, the warnings logged, the calls made,
  and whether the usability test was reached.
\<close>

record 'o StationResult =
  recvOut :: "'o GnssReceiver"
  disabledInc :: nat
  warnings :: "string list"
  callsMade :: "StageCall list"
  evaluated :: bool

definition preprocessStation :: "'o Exec \<Rightarrow> Config \<Rightarrow> nat \<Rightarrow> real \<Rightarrow> 'o GnssReceiver
    \<Rightarrow> 'o StationResult" where
  "preprocessStation exec cfg nTimes medianSeconds r =
    (case runCalls exec (stationCalls cfg (name r)) r of
       (Some e, r', cs') \<Rightarrow>
         \<lparr> recvOut = disable r', disabledInc = 1,
           warnings = [name r' @ '' disabled: '' @ e], callsMade = cs', evaluated = False \<rparr>
     | (None, r', cs') \<Rightarrow>
         (if belowEstimableRatio (countEpochs r' nTimes) (observationSampling r')
               (minEstimableEpochsRatio cfg) nTimes medianSeconds
          then \<lparr> recvOut = disable r', disabledInc = 1,
                 warnings = [], callsMade = cs', evaluated = True \<rparr>
          else \<lparr> recvOut = r', disabledInc = 0,
                 warnings = [], callsMade = cs', evaluated = True \<rparr>))"

text \<open>
  The state that the lambda captures by reference, and the loop of
  \<^verbatim>\<open>Single::forEach\<close> over the indices of \<^verbatim>\<open>receivers\<close>. \<^verbatim>\<open>Parallel::peek\<close> only polls the
  communicator and has no part in this sequential view of one process.
\<close>

record 'o PreprocessingState =
  receivers :: "'o GnssReceiver list"
  disabledStations :: nat
  logged :: "string list"

definition preprocessingStep :: "'o Exec \<Rightarrow> Config \<Rightarrow> nat \<Rightarrow> real
    \<Rightarrow> 'o PreprocessingState \<Rightarrow> nat \<Rightarrow> 'o PreprocessingState" where
  "preprocessingStep exec cfg nTimes medianSeconds st i =
    (if isMyRank (receivers st ! i)
     then (let res = preprocessStation exec cfg nTimes medianSeconds (receivers st ! i)
           in \<lparr> receivers = (receivers st)[i := recvOut res],
                disabledStations = disabledStations st + disabledInc res,
                logged = logged st @ warnings res \<rparr>)
     else st)"

definition preprocessingLoop :: "'o Exec \<Rightarrow> Config \<Rightarrow> nat \<Rightarrow> real
    \<Rightarrow> 'o GnssReceiver list \<Rightarrow> 'o PreprocessingState" where
  "preprocessingLoop exec cfg nTimes medianSeconds rs =
    foldl (preprocessingStep exec cfg nTimes medianSeconds)
      \<lparr> receivers = rs, disabledStations = 0, logged = [] \<rparr> [0..<length rs]"

text \<open>
  The components of the spec's overview, the component that each call implements, and
  the components that ran for a receiver, in the order in which they ran. The test at the
  end of the \<^verbatim>\<open>try\<close> block is the spec's UsabilityEvaluator; building the observation
  equations and dumping the tracks are no component of the overview.
\<close>

datatype Component =
    TrackSegmenter | ClockInitializer | GrossOutlierRejector | CycleSlipDetector
  | TrackFilter | TrackOutlierDetector | CycleSlipRepairer | UsabilityEvaluator

fun componentOf :: "StageCall \<Rightarrow> Component option" where
  "componentOf (CreateTracks _) = Some TrackSegmenter"
| "componentOf (EstimateInitialClockErrorFromCodeObservations _ _ _ _) = Some ClockInitializer"
| "componentOf ObservationEquationList = None"
| "componentOf (DisableEpochsWithGrossCodeObservationOutliers _ _) = Some GrossOutlierRejector"
| "componentOf (WriteTracks _ _) = None"
| "componentOf (CycleSlipsDetection _ _ _ _) = Some CycleSlipDetector"
| "componentOf (RemoveLowElevationTracks _) = Some TrackFilter"
| "componentOf (TrackOutlierDetection _ _) = Some TrackOutlierDetector"
| "componentOf CycleSlipsRepairAtSameFrequency = Some CycleSlipRepairer"

definition componentsRun :: "'o StationResult \<Rightarrow> Component list" where
  "componentsRun res =
    List.map_filter componentOf (callsMade res) @ (if evaluated res then [UsabilityEvaluator] else [])"

text \<open>The control flow in the words of the spec's overview, for comparison.\<close>

definition specControlFlow :: "Component list" where
  "specControlFlow =
    [ClockInitializer, GrossOutlierRejector, TrackSegmenter, CycleSlipDetector,
     TrackFilter, TrackOutlierDetector, CycleSlipRepairer, UsabilityEvaluator]"

text \<open>The control flow of the source.\<close>

definition sourceControlFlow :: "Component list" where
  "sourceControlFlow =
    [TrackSegmenter, ClockInitializer, GrossOutlierRejector, CycleSlipDetector,
     TrackFilter, TrackOutlierDetector, CycleSlipRepairer, UsabilityEvaluator]"


text \<open>
  Modelled from the spec: the body of \<^verbatim>\<open>disableEpochsWithGrossCodeObservationOutliers\<close> is in
  \<^verbatim>\<open>gnssReceiver.cpp\<close>. Section 4.3 of the spec: "disable any epoch whose code residual
  exceeds codeMaxPositionDiff scaled by a tolerance factor". \<open>codeResidual\<close> is the code
  residual of an epoch in the observation equations.
\<close>

definition disableEpochsWithGrossCodeObservationOutliers ::
    "(nat \<Rightarrow> real) \<Rightarrow> real \<Rightarrow> real \<Rightarrow> 'a GnssTransceiver_scheme \<Rightarrow> 'a GnssTransceiver_scheme" where
  "disableEpochsWithGrossCodeObservationOutliers codeResidual threshold factor r =
    foldl (\<lambda>r' idEpoch. if threshold * factor < codeResidual idEpoch then disableEpoch idEpoch r' else r')
      r [0..<length (useableEpochs r)]"

text \<open>An implementation in which that method does this and every other call returns.\<close>

definition execGrossOutliers :: "(nat \<Rightarrow> real) \<Rightarrow> 'o Exec" where
  "execGrossOutliers codeResidual c r =
    (case c of
       DisableEpochsWithGrossCodeObservationOutliers threshold factor \<Rightarrow>
         (None, disableEpochsWithGrossCodeObservationOutliers codeResidual threshold factor r)
     | _ \<Rightarrow> (None, r))"


section \<open>Signal biases: reading and writing the bias files\<close>

text \<open>
  The members of \<^verbatim>\<open>GnssParametrizationSignalBiases\<close> that hold file-name templates, and the
  part of \<^verbatim>\<open>GnssNormalEquationInfo\<close> that \<^verbatim>\<open>writeResults\<close> reads: the value of
  \<^verbatim>\<open>isEnabled(normalEquationInfo, name)\<close>, the flag \<^verbatim>\<open>isEachReceiverSeparately\<close>, the value
  of \<^verbatim>\<open>Parallel::isMaster(normalEquationInfo.comm)\<close> and the vector \<^verbatim>\<open>estimateReceiver\<close>.
\<close>

record SignalBiasFiles =
  fileNameOutTransmitter :: string
  fileNameOutReceiver :: string
  fileNameInTransmitter :: string
  fileNameInReceiver :: string

record GnssNormalEquationInfo =
  isEnabled :: bool
  isEachReceiverSeparately :: bool
  isMaster :: bool
  estimateReceiver :: "bool list"

text \<open>
  What the file reaches outside itself: the expansion of a file-name template under a
  variable list (\<^verbatim>\<open>FileName::operator()\<close>), \<^verbatim>\<open>appendBaseName\<close>, the reader and the writer of
  bias files, the two transceiver selectors, and the constant \<^verbatim>\<open>LIGHT_VELOCITY\<close>. The reader
  fills the bias it is given and may throw; the writer may throw.
\<close>

record 'o SignalBiasEnv =
  expand :: "string \<Rightarrow> (string \<times> string) list \<Rightarrow> string"
  appendBaseName :: "string \<Rightarrow> string \<Rightarrow> string"
  readFileGnssSignalBias :: "string \<Rightarrow> GnssSignalBias \<Rightarrow> exn option \<times> GnssSignalBias"
  writeFileGnssSignalBias :: "string \<Rightarrow> GnssSignalBias \<Rightarrow> exn option"
  selectTransmitters :: "GnssTransmitter list \<Rightarrow> bool list"
  selectReceivers :: "'o GnssReceiver list \<Rightarrow> bool list"
  LIGHT_VELOCITY :: real

text \<open>
  The state: the transmitters and receivers of \<^verbatim>\<open>gnss\<close>, the warnings given to
  \<^verbatim>\<open>logWarningOnce\<close>, the paths handed to the reader, and the files written.
\<close>

record 'o GnssState =
  transmitters :: "GnssTransmitter list"
  gnssReceivers :: "'o GnssReceiver list"
  warnedOnce :: "string list"
  filesRead :: "string list"
  filesWritten :: "(string \<times> GnssSignalBias) list"

text \<open>\<^verbatim>\<open>std::vector::at\<close>: the element, or \<^verbatim>\<open>std::out_of_range\<close>.\<close>

definition vectorAt :: "'a list \<Rightarrow> nat \<Rightarrow> exn + 'a" where
  "vectorAt xs i = (if i < length xs then Inr (xs ! i) else Inl ''vector::at'')"

subsection \<open>init\<close>

text \<open>The body of the loop over the transmitters, for a selected and usable transmitter.\<close>

definition initTransmitter :: "'o SignalBiasEnv \<Rightarrow> SignalBiasFiles \<Rightarrow> GnssTransmitter
    \<Rightarrow> GnssTransmitter \<times> string list \<times> string list" where
  "initTransmitter env files t =
    (let fileNameVariableList = [(''prn'', name t)];
         path = expand env (fileNameInTransmitter files) fileNameVariableList
     in case readFileGnssSignalBias env path (signalBias t) of
          (None, bias) \<Rightarrow> (t\<lparr>signalBias := bias\<rparr>, [], [path])
        | (Some e, bias) \<Rightarrow>
            (disable (t\<lparr>signalBias := bias\<rparr>),
             [''Unable to read signal bias file <''
                @ expand env (fileNameInTransmitter files) fileNameVariableList
                @ ''>, disabling transmitter.''],
             [path]))"

fun initTransmitters :: "'o SignalBiasEnv \<Rightarrow> SignalBiasFiles \<Rightarrow> bool list \<Rightarrow> nat list
    \<Rightarrow> 'o GnssState \<Rightarrow> exn option \<times> 'o GnssState" where
  "initTransmitters env files selectedTransmitters [] st = (None, st)"
| "initTransmitters env files selectedTransmitters (i # ids) st =
    (case vectorAt selectedTransmitters i of
       Inl e \<Rightarrow> (Some e, st)
     | Inr selected \<Rightarrow>
         (if selected \<and> useable (transmitters st ! i)
          then (case initTransmitter env files (transmitters st ! i) of
                  (t', warned, reads) \<Rightarrow>
                    initTransmitters env files selectedTransmitters ids
                      (st\<lparr> transmitters := (transmitters st)[i := t'],
                           warnedOnce := warnedOnce st @ warned,
                           filesRead := filesRead st @ reads \<rparr>))
          else initTransmitters env files selectedTransmitters ids st))"

text \<open>
  The body of the loop over the receivers, for a selected and usable receiver. The path
  read is built from \<^verbatim>\<open>fileNameInTransmitter\<close>, the path in the warning from
  \<^verbatim>\<open>fileNameInReceiver\<close>, as in the source.
\<close>

definition initReceiver :: "'o SignalBiasEnv \<Rightarrow> SignalBiasFiles \<Rightarrow> 'o GnssReceiver
    \<Rightarrow> 'o GnssReceiver \<times> string list \<times> string list" where
  "initReceiver env files r =
    (let fileNameVariableList = [(''station'', name r)];
         path = expand env (fileNameInTransmitter files) fileNameVariableList
     in case readFileGnssSignalBias env path (signalBias r) of
          (None, bias) \<Rightarrow> (r\<lparr>signalBias := bias\<rparr>, [], [path])
        | (Some e, bias) \<Rightarrow>
            (disable (r\<lparr>signalBias := bias\<rparr>),
             [''Unable to read signal bias file <''
                @ expand env (fileNameInReceiver files) fileNameVariableList
                @ ''>, disabling receiver.''],
             [path]))"

fun initReceivers :: "'o SignalBiasEnv \<Rightarrow> SignalBiasFiles \<Rightarrow> bool list \<Rightarrow> nat list
    \<Rightarrow> 'o GnssState \<Rightarrow> exn option \<times> 'o GnssState" where
  "initReceivers env files selectedReceivers [] st = (None, st)"
| "initReceivers env files selectedReceivers (i # ids) st =
    (case vectorAt selectedReceivers i of
       Inl e \<Rightarrow> (Some e, st)
     | Inr selected \<Rightarrow>
         (if selected \<and> useable (gnssReceivers st ! i)
          then (case initReceiver env files (gnssReceivers st ! i) of
                  (r', warned, reads) \<Rightarrow>
                    initReceivers env files selectedReceivers ids
                      (st\<lparr> gnssReceivers := (gnssReceivers st)[i := r'],
                           warnedOnce := warnedOnce st @ warned,
                           filesRead := filesRead st @ reads \<rparr>))
          else initReceivers env files selectedReceivers ids st))"

definition signalBiasesInit :: "'o SignalBiasEnv \<Rightarrow> SignalBiasFiles \<Rightarrow> 'o GnssState
    \<Rightarrow> exn option \<times> 'o GnssState" where
  "signalBiasesInit env files st =
    (case (if fileNameInTransmitter files \<noteq> []
           then initTransmitters env files (selectTransmitters env (transmitters st))
                  [0..<length (transmitters st)] st
           else (None, st)) of
       (Some e, st') \<Rightarrow> (Some e, st')
     | (None, st') \<Rightarrow>
         (if fileNameInReceiver files \<noteq> []
          then initReceivers env files (selectReceivers env (gnssReceivers st'))
                 [0..<length (gnssReceivers st')] st'
          else (None, st')))"

subsection \<open>writeResults\<close>

text \<open>
  \<^verbatim>\<open>std::remainder\<close> for finite arguments: \<open>x - n * y\<close> with \<open>n\<close> the integer nearest to
  \<open>x / y\<close>, the even one of the two when \<open>x / y\<close> lies half way.
\<close>

definition nearestEven :: "real \<Rightarrow> int" where
  "nearestEven q =
    (if q - of_int \<lfloor>q\<rfloor> < 1 / 2 then \<lfloor>q\<rfloor>
     else if 1 / 2 < q - of_int \<lfloor>q\<rfloor> then \<lfloor>q\<rfloor> + 1
     else if even \<lfloor>q\<rfloor> then \<lfloor>q\<rfloor> else \<lfloor>q\<rfloor> + 1)"

definition remainder :: "real \<Rightarrow> real \<Rightarrow> real" where
  "remainder x y = x - of_int (nearestEven (x / y)) * y"

text \<open>
  The loop over the types of the local copy \<open>signalBias\<close>. \<^verbatim>\<open>types.at(idType)\<close> is in range
  by the loop bound; \<^verbatim>\<open>biases.at(idType)\<close> throws when there are fewer biases than types.
\<close>

fun wrapPhaseBiases :: "real \<Rightarrow> nat list \<Rightarrow> GnssSignalBias \<Rightarrow> exn + GnssSignalBias" where
  "wrapPhaseBiases c [] signalBias' = Inr signalBias'"
| "wrapPhaseBiases c (idType # ids) signalBias' =
    (if kind (types signalBias' ! idType) = PHASE
     then (case vectorAt (biases signalBias') idType of
             Inl e \<Rightarrow> Inl e
           | Inr b \<Rightarrow>
               wrapPhaseBiases c ids
                 (signalBias'\<lparr>biases := (biases signalBias')
                    [idType := remainder b (c / frequency (types signalBias' ! idType))]\<rparr>))
     else wrapPhaseBiases c ids signalBias')"

text \<open>
  What one pass over a transceiver that meets the condition does with its bias and its
  name: copy, wrap, expand the file name, write. The result is the file written.
\<close>

definition writeBias :: "'o SignalBiasEnv \<Rightarrow> string \<Rightarrow> string \<Rightarrow> string \<Rightarrow> string
    \<Rightarrow> GnssSignalBias \<Rightarrow> exn + (string \<times> GnssSignalBias)" where
  "writeBias env template variable value sfx stored =
    (case wrapPhaseBiases (LIGHT_VELOCITY env) [0..<length (types stored)] stored of
       Inl e \<Rightarrow> Inl e
     | Inr signalBias' \<Rightarrow>
         (let path = appendBaseName env (expand env template [(variable, value)]) sfx
          in case writeFileGnssSignalBias env path signalBias' of
               Some e \<Rightarrow> Inl e
             | None \<Rightarrow> Inr (path, signalBias')))"

fun writeTransmitters :: "'o SignalBiasEnv \<Rightarrow> SignalBiasFiles \<Rightarrow> string \<Rightarrow> bool list
    \<Rightarrow> GnssTransmitter list \<Rightarrow> 'o GnssState \<Rightarrow> exn option \<times> 'o GnssState" where
  "writeTransmitters env files sfx selectedTransmitters [] st = (None, st)"
| "writeTransmitters env files sfx selectedTransmitters (trn # ts) st =
    (if useable trn
     then (case vectorAt selectedTransmitters (idTrans trn) of
             Inl e \<Rightarrow> (Some e, st)
           | Inr selected \<Rightarrow>
               (if selected
                then (case writeBias env (fileNameOutTransmitter files) ''prn'' (name trn) sfx
                             (signalBias trn) of
                        Inl e \<Rightarrow> (Some e, st)
                      | Inr file \<Rightarrow>
                          writeTransmitters env files sfx selectedTransmitters ts
                            (st\<lparr>filesWritten := filesWritten st @ [file]\<rparr>))
                else writeTransmitters env files sfx selectedTransmitters ts st))
     else writeTransmitters env files sfx selectedTransmitters ts st)"

text \<open>The condition of the loop over the receivers, with its two \<^verbatim>\<open>at\<close> in order.\<close>

definition receiverWritten :: "bool list \<Rightarrow> bool list \<Rightarrow> 'o GnssReceiver \<Rightarrow> exn + bool" where
  "receiverWritten selectedReceivers estimate recv =
    (if isMyRank recv
     then (case vectorAt selectedReceivers (idRecv recv) of
             Inl e \<Rightarrow> Inl e
           | Inr selected \<Rightarrow>
               (if selected then vectorAt estimate (idRecv recv) else Inr False))
     else Inr False)"

fun writeReceivers :: "'o SignalBiasEnv \<Rightarrow> SignalBiasFiles \<Rightarrow> string \<Rightarrow> bool list \<Rightarrow> bool list
    \<Rightarrow> 'o GnssReceiver list \<Rightarrow> 'o GnssState \<Rightarrow> exn option \<times> 'o GnssState" where
  "writeReceivers env files sfx selectedReceivers estimate [] st = (None, st)"
| "writeReceivers env files sfx selectedReceivers estimate (recv # rs) st =
    (case receiverWritten selectedReceivers estimate recv of
       Inl e \<Rightarrow> (Some e, st)
     | Inr True \<Rightarrow>
         (case writeBias env (fileNameOutReceiver files) ''station'' (name recv) sfx
                 (signalBias recv) of
            Inl e \<Rightarrow> (Some e, st)
          | Inr file \<Rightarrow>
              writeReceivers env files sfx selectedReceivers estimate rs
                (st\<lparr>filesWritten := filesWritten st @ [file]\<rparr>))
     | Inr False \<Rightarrow> writeReceivers env files sfx selectedReceivers estimate rs st)"

definition writeResults :: "'o SignalBiasEnv \<Rightarrow> SignalBiasFiles \<Rightarrow> GnssNormalEquationInfo
    \<Rightarrow> string \<Rightarrow> 'o GnssState \<Rightarrow> exn option \<times> 'o GnssState" where
  "writeResults env files normalEquationInfo sfx st =
    (if \<not> isEnabled normalEquationInfo then (None, st)
     else case (if fileNameOutTransmitter files \<noteq> []
                   \<and> \<not> isEachReceiverSeparately normalEquationInfo \<and> isMaster normalEquationInfo
                then writeTransmitters env files sfx (selectTransmitters env (transmitters st))
                       (transmitters st) st
                else (None, st)) of
            (Some e, st') \<Rightarrow> (Some e, st')
          | (None, st') \<Rightarrow>
              (if fileNameOutReceiver files \<noteq> []
               then writeReceivers env files sfx (selectReceivers env (gnssReceivers st'))
                      (estimateReceiver normalEquationInfo) (gnssReceivers st') st'
               else (None, st')))"


text \<open>
  The relation between a stored bias and the copy that is written, for comparison: same
  types, and every bias of a phase type replaced by its remainder modulo the wavelength
  \<open>c / frequency\<close>, every other bias as stored.
\<close>

definition wrappedCopy :: "real \<Rightarrow> GnssSignalBias \<Rightarrow> GnssSignalBias \<Rightarrow> bool" where
  "wrappedCopy c stored written =
    (types written = types stored \<and> length (biases written) = length (biases stored) \<and>
     (\<forall>i<length (biases stored). biases written ! i =
        (if i < length (types stored) \<and> kind (types stored ! i) = PHASE
         then remainder (biases stored ! i) (c / frequency (types stored ! i))
         else biases stored ! i)))"


text \<open>
  A file and the transceiver it is written for, for comparison. The transceiver is given by
  the template of its file name, the variable of the template, its name and its stored
  bias: the path of the file is the template expanded with the name, the suffix appended
  to its base name, and the bias in the file is the wrapped copy of the stored one.
\<close>

definition writtenFor :: "'o SignalBiasEnv \<Rightarrow> string
    \<Rightarrow> string \<times> string \<times> string \<times> GnssSignalBias \<Rightarrow> string \<times> GnssSignalBias \<Rightarrow> bool" where
  "writtenFor env sfx =
    (\<lambda>(template, variable, nm, stored) (path, written).
       path = appendBaseName env (expand env template [(variable, nm)]) sfx
       \<and> wrappedCopy (LIGHT_VELOCITY env) stored written)"


section \<open>Setting up the station network: init\<close>

text \<open>
  What \<^verbatim>\<open>init\<close> reaches outside the file: the expansion of a file-name template,
  \<^verbatim>\<open>System::exists\<close>, the reading of the station information (\<^verbatim>\<open>readFileGnssStationInfo\<close>
  and the three \<^verbatim>\<open>fill\<close> calls on the result), the approximate position found in the
  position file (none when the read throws or no epoch fits), \<^verbatim>\<open>antenna.str()\<close>, the
  members of a constructed receiver that the constructor call does not name,
  \<^verbatim>\<open>findAntenna\<close> (none for \<^verbatim>\<open>NULLINDEX\<close>), \<^verbatim>\<open>referencePoint\<close>, \<^verbatim>\<open>readObservations\<close> (which
  changes the receiver and may throw) and \<^verbatim>\<open>medianSampling(times).seconds()\<close>.
\<close>

record 'o NetworkEnv =
  expandName :: "string \<Rightarrow> (string \<times> string) list \<Rightarrow> string"
  fileExists :: "string \<Rightarrow> bool"
  readStationInfo :: "string \<Rightarrow> exn + GnssStationInfo"
  readApproxPosition :: "string \<Rightarrow> Time list \<Rightarrow> Vector3d option"
  antennaStr :: "GnssAntennaInfo \<Rightarrow> string"
  blankReceiver :: "'o GnssReceiver"
  findAntenna :: "GnssStationInfo \<Rightarrow> Time \<Rightarrow> nat option"
  referencePoint :: "GnssStationInfo \<Rightarrow> Time \<Rightarrow> Vector3d"
  readObservations :: "string \<Rightarrow> 'o GnssReceiver \<Rightarrow> exn option \<times> 'o GnssReceiver"
  medianSampling :: "Time list \<Rightarrow> real"

subsection \<open>The table of station names and the receivers with alternatives\<close>

text \<open>
  The constructor call \<^verbatim>\<open>GnssReceiver(FALSE, TRUE, name, info, noPatternFoundAction,
  Vector(times.size(), TRUE), TRUE, 1.)\<close>: the first argument is the myRank flag (line 180
  sets the member afterwards), the sixth the usability of the epochs.
\<close>

definition newReceiver :: "'o NetworkEnv \<Rightarrow> nat \<Rightarrow> string \<Rightarrow> GnssStationInfo \<Rightarrow> 'o GnssReceiver" where
  "newReceiver env nTimes nm stationInfo =
    (blankReceiver env)\<lparr> name := nm, info := stationInfo, useableEpochs := replicate nTimes True,
                         isMyRank := False \<rparr>"

text \<open>The warnings of the test of completeness of the antennas.\<close>

definition antennaWarnings :: "'o NetworkEnv \<Rightarrow> Time list \<Rightarrow> GnssStationInfo \<Rightarrow> string list" where
  "antennaWarnings env tms stationInfo =
    concat (map (\<lambda>a.
      if hd tms < timeEnd a \<and> timeStart a \<le> last tms \<and> (\<not> antennaDef a \<or> \<not> accuracyDef a)
      then [markerName stationInfo @ ''.'' @ markerNumber stationInfo @ '': No ''
              @ (if \<not> antennaDef a then ''antenna'' else ''accuracy'')
              @ '' definition found for '' @ antennaStr env a]
      else []) (antenna stationInfo))"

text \<open>
  The body of the loop over the alternatives of a station name: the receiver pushed, if
  any, and the warnings given to \<^verbatim>\<open>logWarningOnce\<close>.
\<close>

definition setupAlternative :: "'o NetworkEnv \<Rightarrow> Config \<Rightarrow> Time list \<Rightarrow> string
    \<Rightarrow> 'o GnssReceiver option \<times> string list" where
  "setupAlternative env cfg tms nm =
    (let fileNameVariableList = [(''station'', nm)]
     in if fileNameObs cfg \<noteq> [] \<and> \<not> fileExists env (expandName env (fileNameObs cfg) fileNameVariableList)
        then (None, [])
        else case readStationInfo env (expandName env (fileNameStationInfo cfg) fileNameVariableList) of
               Inl e \<Rightarrow> (None, [nm @ '' disabled: '' @ e])
             | Inr stationInfo \<Rightarrow>
                 (let stationInfo' =
                    (if fileNameStationPosition cfg \<noteq> []
                     then (case readApproxPosition env
                                  (expandName env (fileNameStationPosition cfg) fileNameVariableList) tms of
                             Some p \<Rightarrow> stationInfo\<lparr>approxPosition := p\<rparr>
                           | None \<Rightarrow> stationInfo)
                     else stationInfo)
                  in (Some (newReceiver env (length tms) nm stationInfo'), antennaWarnings env tms stationInfo')))"

definition alternativesOf :: "'o NetworkEnv \<Rightarrow> Config \<Rightarrow> Time list \<Rightarrow> string list
    \<Rightarrow> 'o GnssReceiver list" where
  "alternativesOf env cfg tms names =
    List.map_filter (\<lambda>nm. fst (setupAlternative env cfg tms nm)) names"

text \<open>The table after the empty stations are removed, and the warnings of the first loop.\<close>

definition receiversWithAlternatives :: "'o NetworkEnv \<Rightarrow> Config \<Rightarrow> Time list \<Rightarrow> string list list
    \<Rightarrow> 'o GnssReceiver list list" where
  "receiversWithAlternatives env cfg tms stationName =
    filter (\<lambda>x. x \<noteq> []) (map (alternativesOf env cfg tms) stationName)"

definition setupWarnings :: "'o NetworkEnv \<Rightarrow> Config \<Rightarrow> Time list \<Rightarrow> string list list \<Rightarrow> string list" where
  "setupWarnings env cfg tms stationName =
    concat (map (\<lambda>names. concat (map (\<lambda>nm. snd (setupAlternative env cfg tms nm)) names)) stationName)"

subsection \<open>Reading the observations of a station\<close>

definition minus3d :: "Vector3d \<Rightarrow> Vector3d \<Rightarrow> Vector3d" where
  "minus3d a b = (case a of (ax, ay, az) \<Rightarrow> case b of (bx, by, bz) \<Rightarrow> (ax - bx, ay - by, az - bz))"

text \<open>\<^verbatim>\<open>std::vector::resize\<close> with the value for new elements.\<close>

definition resize :: "nat \<Rightarrow> 'a \<Rightarrow> 'a list \<Rightarrow> 'a list" where
  "resize n x xs = take n xs @ replicate (n - length xs) x"

text \<open>
  The loop over the epochs: the antenna valid at the epoch gives the offset and the
  frame of the epoch, and an epoch without an antenna, or with an antenna that lacks a
  definition, is disabled. \<^verbatim>\<open>antenna.at(idAnt)\<close> throws for an index out of range, and the
  exception leaves the receiver as it is by then.
\<close>

fun setupEpochs :: "'o NetworkEnv \<Rightarrow> Time list \<Rightarrow> nat list \<Rightarrow> 'o GnssReceiver
    \<Rightarrow> (exn \<times> 'o GnssReceiver) + 'o GnssReceiver" where
  "setupEpochs env tms [] recv = Inr recv"
| "setupEpochs env tms (idEpoch # ids) recv =
    (case findAntenna env (info recv) (tms ! idEpoch) of
       None \<Rightarrow> setupEpochs env tms ids (disableEpoch idEpoch recv)
     | Some idAnt \<Rightarrow>
         (case vectorAt (antenna (info recv)) idAnt of
            Inl e \<Rightarrow> Inl (e, recv)
          | Inr a \<Rightarrow>
              (if antennaDef a \<and> accuracyDef a
               then setupEpochs env tms ids
                      (recv\<lparr> offset := (offset recv)
                                [idEpoch := minus3d (position a) (referencePoint env (info recv) (tms ! idEpoch))],
                             local2antenna := (local2antenna recv)[idEpoch := local2antennaFrame a] \<rparr>)
               else setupEpochs env tms ids (disableEpoch idEpoch recv))))"

text \<open>
  The receiver when the loop over the epochs starts: marked as of this rank, with its
  series sized to the epochs. The series \<^verbatim>\<open>clk\<close>, \<^verbatim>\<open>pos\<close>, \<^verbatim>\<open>vel\<close> and \<^verbatim>\<open>global2local\<close> that
  are sized with them belong to \<open>obs\<close>.
\<close>

definition sizedReceiver :: "Time list \<Rightarrow> 'o GnssReceiver \<Rightarrow> 'o GnssReceiver" where
  "sizedReceiver tms recv =
    recv\<lparr> isMyRank := True,
          offset := resize (length tms) (0, 0, 0) (offset recv),
          local2antenna := resize (length tms) [1, 0, 0, 0, 1, 0, 0, 0, 1] (local2antenna recv) \<rparr>"

text \<open>
  The body of the loop that tests the alternatives, for alternative \<open>k\<close>: the value given
  to \<^verbatim>\<open>receiverAlternative(i)\<close> when the loop is left by \<^verbatim>\<open>break\<close>, the receiver, and the
  warnings given to \<^verbatim>\<open>logWarning\<close>.
\<close>

definition testAlternative :: "'o NetworkEnv \<Rightarrow> Config \<Rightarrow> Time list \<Rightarrow> nat \<Rightarrow> 'o GnssReceiver
    \<Rightarrow> nat option \<times> 'o GnssReceiver \<times> string list" where
  "testAlternative env cfg tms k recv =
    (let fileNameVariableList = [(''station'', name recv)]
     in case setupEpochs env tms [0..<length tms] (sizedReceiver tms recv) of
          Inl (e, recv2) \<Rightarrow> (None, recv2, [name recv2 @ '' disabled: '' @ e])
        | Inr recv2 \<Rightarrow>
            (if fileNameObs cfg = [] then (Some 1, recv2, [])
             else case readObservations env (expandName env (fileNameObs cfg) fileNameVariableList) recv2 of
                    (Some e, recv3) \<Rightarrow> (None, recv3, [name recv3 @ '' disabled: '' @ e])
                  | (None, recv3) \<Rightarrow>
                      (if belowEstimableRatio (countEpochs recv3 (length tms)) (observationSampling recv3)
                            (minEstimableEpochsRatio cfg) (length tms) (medianSampling env tms)
                       then (None, recv3, [])
                       else (Some (k + 1), recv3, []))))"

text \<open>The loop over the alternatives of one station, from alternative \<open>k\<close> on.\<close>

fun testAlternatives :: "'o NetworkEnv \<Rightarrow> Config \<Rightarrow> Time list \<Rightarrow> nat \<Rightarrow> 'o GnssReceiver list
    \<Rightarrow> nat \<times> 'o GnssReceiver list \<times> string list" where
  "testAlternatives env cfg tms k [] = (0, [], [])"
| "testAlternatives env cfg tms k (recv # rest) =
    (case testAlternative env cfg tms k recv of
       (Some a, recv', warned) \<Rightarrow> (a, recv' # rest, warned)
     | (None, recv', warned) \<Rightarrow>
         (case testAlternatives env cfg tms (k + 1) rest of
            (a, rest', warned') \<Rightarrow> (a, recv' # rest', warned @ warned')))"

text \<open>
  The state of the loop over the stations in one process, and the loop: a process of
  myRank \<open>myRank\<close> among \<open>nProc\<close> processes works on the stations \<open>i\<close> with \<open>i mod nProc = myRank\<close>.
\<close>

record 'o ReadState =
  alternatives :: "'o GnssReceiver list list"
  receiverAlternative :: "nat list"
  readWarnings :: "string list"

definition readStationStep :: "'o NetworkEnv \<Rightarrow> Config \<Rightarrow> Time list \<Rightarrow> nat \<Rightarrow> nat
    \<Rightarrow> 'o ReadState \<Rightarrow> nat \<Rightarrow> 'o ReadState" where
  "readStationStep env cfg tms nProc myRank st i =
    (if i mod nProc = myRank
     then (case testAlternatives env cfg tms 0 (alternatives st ! i) of
             (a, alts', warned) \<Rightarrow>
               \<lparr> alternatives = (alternatives st)[i := alts'],
                 receiverAlternative = (receiverAlternative st)[i := a],
                 readWarnings = readWarnings st @ warned \<rparr>)
     else st)"

definition readStations :: "'o NetworkEnv \<Rightarrow> Config \<Rightarrow> Time list \<Rightarrow> nat \<Rightarrow> nat
    \<Rightarrow> 'o GnssReceiver list list \<Rightarrow> 'o ReadState" where
  "readStations env cfg tms nProc myRank rwa =
    foldl (readStationStep env cfg tms nProc myRank)
      \<lparr> alternatives = rwa, receiverAlternative = replicate (length rwa) 0, readWarnings = [] \<rparr>
      [0..<length rwa]"

subsection \<open>The processes together\<close>

text \<open>
  Modelled from the spec: \<^verbatim>\<open>Parallel::reduceSum\<close> and \<^verbatim>\<open>Parallel::broadCast\<close> belong to the
  parallel library, outside the two files. Section 5 of the spec: global values "are
  computed via an explicit reduce (sum across workers) followed by a broadcast of the
  reduced vector back to all workers". Each list below has one entry per process, in the
  order of the ranks. The reduce leaves the sum with the process \<open>process\<close> and every other
  process with what it had; the broadcast gives every process the value of \<open>process\<close>.
\<close>

definition reduceSum :: "nat list \<Rightarrow> nat \<Rightarrow> nat list" where
  "reduceSum xs process = xs[process := sum_list xs]"

definition sumVectors :: "nat \<Rightarrow> nat list list \<Rightarrow> nat list" where
  "sumVectors n vs = map (\<lambda>i. sum_list (map (\<lambda>v. v ! i) vs)) [0..<n]"

definition reduceSumVector :: "nat \<Rightarrow> nat list list \<Rightarrow> nat \<Rightarrow> nat list list" where
  "reduceSumVector n vs process = vs[process := sumVectors n vs]"

definition broadCast :: "'a list \<Rightarrow> nat \<Rightarrow> 'a list" where
  "broadCast xs process = map (\<lambda>_. xs ! process) xs"

text \<open>
  The vector \<^verbatim>\<open>receiverAlternative\<close> of every process after the barrier, the reduce and the
  broadcast.
\<close>

definition receiverAlternativeAfterBroadCast :: "'o NetworkEnv \<Rightarrow> Config \<Rightarrow> Time list \<Rightarrow> nat
    \<Rightarrow> 'o GnssReceiver list list \<Rightarrow> nat list list" where
  "receiverAlternativeAfterBroadCast env cfg tms nProc rwa =
    broadCast
      (reduceSumVector (length rwa)
         (map (\<lambda>myRank. receiverAlternative (readStations env cfg tms nProc myRank rwa)) [0..<nProc]) 0) 0"

text \<open>
  The loop that stores the valid receivers. \<^verbatim>\<open>at(receiverAlternative(i)-1)\<close> throws for an
  index out of range.
\<close>

fun storeReceivers :: "nat \<Rightarrow> nat list \<Rightarrow> 'r list list \<Rightarrow> nat list \<Rightarrow> 'r list \<Rightarrow> exn + 'r list" where
  "storeReceivers maxCount alt rwa [] acc = Inr acc"
| "storeReceivers maxCount alt rwa (i # ids) acc =
    (if 0 < alt ! i
     then (case vectorAt (rwa ! i) (alt ! i - 1) of
             Inl e \<Rightarrow> Inl e
           | Inr recv \<Rightarrow>
               (if maxCount \<le> length (acc @ [recv]) then Inr (acc @ [recv])
                else storeReceivers maxCount alt rwa ids (acc @ [recv])))
     else storeReceivers maxCount alt rwa ids acc)"

text \<open>
  The member \<^verbatim>\<open>receivers\<close> of the process of myRank \<open>myRank\<close> when \<^verbatim>\<open>init\<close> has stored the
  valid receivers: taken from the alternatives as this process holds them.
\<close>

definition storedReceivers :: "'o NetworkEnv \<Rightarrow> Config \<Rightarrow> Time list \<Rightarrow> string list list \<Rightarrow> nat \<Rightarrow> nat
    \<Rightarrow> exn + 'o GnssReceiver list" where
  "storedReceivers env cfg tms stationName nProc myRank =
    (let rwa = receiversWithAlternatives env cfg tms stationName
     in storeReceivers (maxStationCount cfg)
          (receiverAlternativeAfterBroadCast env cfg tms nProc rwa ! myRank)
          (alternatives (readStations env cfg tms nProc myRank rwa))
          [0..<length rwa] [])"

text \<open>
  The count of disabled stations of every process after the loop of \<^verbatim>\<open>preprocessing\<close> and
  \<^verbatim>\<open>Parallel::reduceSum(disabledStations, 0, comm)\<close>; \<open>rss\<close> holds the member \<^verbatim>\<open>receivers\<close> of
  every process.
\<close>

definition disabledStationsAfterReduce :: "'o Exec \<Rightarrow> Config \<Rightarrow> nat \<Rightarrow> real
    \<Rightarrow> 'o GnssReceiver list list \<Rightarrow> nat list" where
  "disabledStationsAfterReduce exec cfg nTimes medianSeconds rss =
    reduceSum (map (\<lambda>rs. disabledStations (preprocessingLoop exec cfg nTimes medianSeconds rs)) rss) 0"

text \<open>
  The condition of the loop over the epochs, for comparison: the station has an antenna
  valid at the time, and that antenna has both definitions.
\<close>

definition antennaComplete :: "'o NetworkEnv \<Rightarrow> GnssStationInfo \<Rightarrow> Time \<Rightarrow> bool" where
  "antennaComplete env stationInfo t =
    (case findAntenna env stationInfo t of
       None \<Rightarrow> False
     | Some idAnt \<Rightarrow> idAnt < length (antenna stationInfo)
          \<and> antennaDef (antenna stationInfo ! idAnt) \<and> accuracyDef (antenna stationInfo ! idAnt))"


text \<open>
  The selection in the words of the claim, for comparison: an alternative qualifies when
  its observation file exists, the set-up and the reading of its observations return
  without an exception, and the count of usable epochs times the sampling is not below
  the bound; the value is one more than the index of the first alternative in list order
  that qualifies, and zero when none does.
\<close>

definition readsAndPasses :: "'o NetworkEnv \<Rightarrow> Config \<Rightarrow> Time list \<Rightarrow> 'o GnssReceiver \<Rightarrow> bool" where
  "readsAndPasses env cfg tms recv =
    (case setupEpochs env tms [0..<length tms] (sizedReceiver tms recv) of
       Inl _ \<Rightarrow> False
     | Inr recv2 \<Rightarrow>
         (case readObservations env (expandName env (fileNameObs cfg) [(''station'', name recv)]) recv2 of
            (Some e, recv3) \<Rightarrow> False
          | (None, recv3) \<Rightarrow>
              \<not> belowEstimableRatio (countEpochs recv3 (length tms)) (observationSampling recv3)
                    (minEstimableEpochsRatio cfg) (length tms) (medianSampling env tms)))"

definition qualifies :: "'o NetworkEnv \<Rightarrow> Config \<Rightarrow> Time list \<Rightarrow> 'o GnssReceiver \<Rightarrow> bool" where
  "qualifies env cfg tms recv =
    (fileExists env (expandName env (fileNameObs cfg) [(''station'', name recv)])
     \<and> readsAndPasses env cfg tms recv)"

definition claimedAlternative :: "'o NetworkEnv \<Rightarrow> Config \<Rightarrow> Time list \<Rightarrow> 'o GnssReceiver list \<Rightarrow> nat" where
  "claimedAlternative env cfg tms alts =
    (let k = length (takeWhile (\<lambda>recv. \<not> qualifies env cfg tms recv) alts)
     in if k < length alts then k + 1 else 0)"


section \<open>Example data\<close>

text \<open>The defaults of the configuration, a station of four epochs, and two implementations.\<close>

definition defaultConfig :: Config where
  "defaultConfig =
    \<lparr> minObsCountPerTrack = 60, huber = 5 / 2, huberPower = 3 / 2, codeMaxPosDiff = 100,
      denoisingLambda = 5, tecWindowSize = 15, tecSigmaFactor = 7 / 2,
      elevationTrackMinimum = 15, minEstimableEpochsRatio = 3 / 4,
      fileNameTrackBefore = [], fileNameTrackAfter = [],
      fileNameStationInfo = ''stationInfo.{station}.xml'', fileNameStationPosition = [],
      fileNameObs = ''gnssReceiver.{station}.dat'', maxStationCount = 1000 \<rparr>"

definition emptyBias :: GnssSignalBias where
  "emptyBias = \<lparr> types = [], biases = [] \<rparr>"

definition emptyInfo :: GnssStationInfo where
  "emptyInfo = \<lparr> markerName = [], markerNumber = [], antenna = [], approxPosition = (0, 0, 0) \<rparr>"

definition exampleStation :: "string \<Rightarrow> nat \<Rightarrow> bool \<Rightarrow> bool list \<Rightarrow> unit GnssReceiver" where
  "exampleStation nm i mine flags =
    \<lparr> name = nm, useableEpochs = flags, signalBias = emptyBias, idRecv = i, isMyRank = mine,
      observationSampling = 30, info = emptyInfo, offset = [], local2antenna = [], obs = () \<rparr>"

definition execOk :: "unit Exec" where
  "execOk c r = (None, r)"

definition execFailing :: "string \<Rightarrow> unit Exec" where
  "execFailing nm c r =
    (if name r = nm \<and> c = ObservationEquationList then (Some ''no observations'', r) else (None, r))"


definition stationGRAZ :: "unit GnssReceiver" where
  "stationGRAZ = exampleStation ''GRAZ'' 0 True [True, True, True, True]"

definition stationWTZR :: "unit GnssReceiver" where
  "stationWTZR = exampleStation ''WTZR'' 1 True [True, True, True, False]"


definition residuals150 :: "nat \<Rightarrow> real" where
  "residuals150 idEpoch = (if idEpoch = 2 then 150 else 3)"


definition exampleExpand :: "string \<Rightarrow> (string \<times> string) list \<Rightarrow> string" where
  "exampleExpand template vars = template @ concat (map (\<lambda>(k, v). ''['' @ k @ ''='' @ v @ '']'') vars)"

definition exampleEnv :: "unit SignalBiasEnv" where
  "exampleEnv =
    \<lparr> expand = exampleExpand,
      appendBaseName = (\<lambda>path sfx. path @ sfx),
      readFileGnssSignalBias =
        (\<lambda>path bias. if path = ''biasT[station=WTZR]'' then (None, bias) else (Some ''cannot open'', bias)),
      writeFileGnssSignalBias = (\<lambda>path bias. None),
      selectTransmitters = map (\<lambda>_. True),
      selectReceivers = map (\<lambda>_. True),
      LIGHT_VELOCITY = 299792458 \<rparr>"

definition exampleFiles :: SignalBiasFiles where
  "exampleFiles =
    \<lparr> fileNameOutTransmitter = ''outT'', fileNameOutReceiver = ''outR'',
      fileNameInTransmitter = ''biasT'', fileNameInReceiver = ''biasR'' \<rparr>"

definition exampleState :: "unit GnssState" where
  "exampleState =
    \<lparr> transmitters = [], gnssReceivers = [stationGRAZ, stationWTZR],
      warnedOnce = [], filesRead = [], filesWritten = [] \<rparr>"


definition phaseL1 :: GnssType where
  "phaseL1 = \<lparr> kind = PHASE, frequency = 149896229 \<rparr>"

definition rangeC1 :: GnssType where
  "rangeC1 = \<lparr> kind = RANGE, frequency = 149896229 \<rparr>"

definition satelliteG01 :: GnssTransmitter where
  "satelliteG01 =
    \<lparr> name = ''G01'', useableEpochs = [True, True],
      signalBias = \<lparr> types = [phaseL1, rangeC1], biases = [7, 5] \<rparr>, idTrans = 0 \<rparr>"

definition satelliteG02 :: GnssTransmitter where
  "satelliteG02 =
    \<lparr> name = ''G02'', useableEpochs = [True, True],
      signalBias = \<lparr> types = [phaseL1, rangeC1], biases = [5 / 2, 9] \<rparr>, idTrans = 1 \<rparr>"

definition exampleWriteState :: "unit GnssState" where
  "exampleWriteState =
    \<lparr> transmitters = [satelliteG01, satelliteG02], gnssReceivers = [stationGRAZ],
      warnedOnce = [], filesRead = [], filesWritten = [] \<rparr>"

definition exampleInfo :: GnssNormalEquationInfo where
  "exampleInfo =
    \<lparr> isEnabled = True, isEachReceiverSeparately = False, isMaster = True,
      estimateReceiver = [True] \<rparr>"




definition antennaFull :: GnssAntennaInfo where
  "antennaFull =
    \<lparr> timeStart = 0, timeEnd = 2, position = (1, 2, 3), local2antennaFrame = [1, 0, 0, 0, 1, 0, 0, 0, 1],
      antennaDef = True, accuracyDef = True \<rparr>"

definition antennaNoAccuracy :: GnssAntennaInfo where
  "antennaNoAccuracy =
    \<lparr> timeStart = 2, timeEnd = 3, position = (1, 2, 3), local2antennaFrame = [1, 0, 0, 0, 1, 0, 0, 0, 1],
      antennaDef = True, accuracyDef = False \<rparr>"

definition exampleStationInfo :: GnssStationInfo where
  "exampleStationInfo =
    \<lparr> markerName = ''MARK'', markerNumber = ''1'', antenna = [antennaFull, antennaNoAccuracy],
      approxPosition = (0, 0, 0) \<rparr>"

definition exampleNetworkEnv :: "unit NetworkEnv" where
  "exampleNetworkEnv =
    \<lparr> expandName = exampleExpand,
      fileExists = (\<lambda>path. take 3 path = ''obs'' \<and> path \<noteq> ''obs[station=NONE]''),
      readStationInfo = (\<lambda>path. if path = ''info[station=BAD]'' then Inl ''no station info''
                                else Inr exampleStationInfo),
      readApproxPosition = (\<lambda>path tms. None),
      antennaStr = (\<lambda>a. ''antenna''),
      blankReceiver = exampleStation [] 0 False [],
      findAntenna = (\<lambda>stationInfo t. if t < 2 then Some 0 else if t < 3 then Some 1 else None),
      referencePoint = (\<lambda>stationInfo t. (0, 0, 0)),
      readObservations = (\<lambda>path recv.
         if path = ''obs[station=FAIL]'' then (Some ''unreadable'', recv)
         else if path = ''obs[station=FEW]'' then (None, recv\<lparr>useableEpochs := [True, False, False, False]\<rparr>)
         else (None, recv\<lparr>useableEpochs := [True, True, True, True]\<rparr>)),
      medianSampling = (\<lambda>tms. 30) \<rparr>"

definition exampleTimes :: "Time list" where
  "exampleTimes = [0, 1, 2, 3]"

definition simulationConfig :: Config where
  "simulationConfig = defaultConfig\<lparr> fileNameStationInfo := ''info'', fileNameObs := [] \<rparr>"

definition observationConfig :: Config where
  "observationConfig = defaultConfig\<lparr> fileNameStationInfo := ''info'', fileNameObs := ''obs'' \<rparr>"


definition exampleSetUp :: "string \<Rightarrow> unit GnssReceiver" where
  "exampleSetUp nm =
    \<lparr> name = nm, useableEpochs = [True, True, False, False], signalBias = emptyBias, idRecv = 0,
      isMyRank = True, observationSampling = 30, info = exampleStationInfo,
      offset = [(1, 2, 3), (1, 2, 3), (0, 0, 0), (0, 0, 0)],
      local2antenna = [[1, 0, 0, 0, 1, 0, 0, 0, 1], [1, 0, 0, 0, 1, 0, 0, 0, 1],
                       [1, 0, 0, 0, 1, 0, 0, 0, 1], [1, 0, 0, 0, 1, 0, 0, 0, 1]], obs = () \<rparr>"


definition processReceivers :: "unit GnssReceiver list list" where
  "processReceivers =
    [[exampleStation ''HALF'' 0 True [True, False, True, False],
      exampleStation ''DARK'' 1 False [False, False, False, False]],
     [exampleStation ''HALF'' 0 False [True, False, True, False],
      exampleStation ''DARK'' 1 True [False, False, False, False]]]"




section \<open>Properties of the pipeline\<close>

subsection \<open>Helper facts\<close>

lemma useableEpochs_disable: "useableEpochs (disable r) = map (\<lambda>_. False) (useableEpochs r)"
  by (simp add: disable_def)

lemma name_disable: "name (disable r) = name r"
  by (simp add: disable_def)

lemma not_useable_disable: "\<not> useable (disable r)"
  by (auto simp: useable_def disable_def)


text \<open>The loop after \<open>k\<close> passes: the first \<open>k\<close> receivers are settled, the rest untouched.\<close>

lemma loop_prefix:
  "k \<le> length rs \<Longrightarrow>
   foldl (preprocessingStep exec cfg n ms) \<lparr> receivers = rs, disabledStations = 0, logged = [] \<rparr> [0..<k] =
   \<lparr> receivers = map (\<lambda>r. if isMyRank r then recvOut (preprocessStation exec cfg n ms r) else r) (take k rs) @ drop k rs,
     disabledStations = sum_list (map (\<lambda>r. if isMyRank r then disabledInc (preprocessStation exec cfg n ms r) else 0) (take k rs)),
     logged = concat (map (\<lambda>r. if isMyRank r then warnings (preprocessStation exec cfg n ms r) else []) (take k rs)) \<rparr>"
proof (induction k)
  case 0
  then show ?case by simp
next
  case (Suc k)
  then have k: "k < length rs" by simp
  have nth: "(map (\<lambda>r. if isMyRank r then recvOut (preprocessStation exec cfg n ms r) else r) (take k rs) @ drop k rs) ! k = rs ! k"
    using k by (simp add: nth_append)
  have upd: "\<And>f x. (map f (take k rs) @ drop k rs)[k := x] = map f (take k rs) @ x # drop (Suc k) rs"
    using k by (simp add: list_update_append Cons_nth_drop_Suc[symmetric] )
  show ?case
    using Suc.IH k
    by (simp add: preprocessingStep_def nth upd take_Suc_conv_app_nth Let_def Cons_nth_drop_Suc)
qed

lemma preprocessingLoop_eq:
  "preprocessingLoop exec cfg n ms rs =
   \<lparr> receivers = map (\<lambda>r. if isMyRank r then recvOut (preprocessStation exec cfg n ms r) else r) rs,
     disabledStations = sum_list (map (\<lambda>r. if isMyRank r then disabledInc (preprocessStation exec cfg n ms r) else 0) rs),
     logged = concat (map (\<lambda>r. if isMyRank r then warnings (preprocessStation exec cfg n ms r) else []) rs) \<rparr>"
  using loop_prefix [of "length rs" rs exec cfg n ms] by (simp add: preprocessingLoop_def)

text \<open>The calls made are an initial part of the body, and all of it when nothing is thrown.\<close>

lemma runCalls_trace:
  "runCalls exec cs r = (x, r', tr) \<Longrightarrow> prefix tr cs \<and> (x = None \<longrightarrow> tr = cs)"
proof (induction cs arbitrary: r x r' tr)
  case Nil
  then show ?case by simp
next
  case (Cons c cs)
  obtain y r1 where ex: "exec c r = (y, r1)" by (cases "exec c r")
  show ?case
  proof (cases y)
    case None
    obtain x2 r2 tr2 where rc: "runCalls exec cs r1 = (x2, r2, tr2)" by (cases "runCalls exec cs r1")
    from Cons.IH [OF rc] Cons.prems ex None rc show ?thesis by auto
  next
    case (Some e)
    with Cons.prems ex show ?thesis by auto
  qed
qed

lemma map_filter_prefix: "prefix xs ys \<Longrightarrow> prefix (List.map_filter f xs) (List.map_filter f ys)"
  by (auto simp: prefix_def List.map_filter_def)

lemma components_stationCalls:
  "List.map_filter componentOf (stationCalls cfg s) =
    [TrackSegmenter, ClockInitializer, GrossOutlierRejector, CycleSlipDetector,
     TrackFilter, TrackOutlierDetector, CycleSlipRepairer]"
  by (simp add: stationCalls_def List.map_filter_def)


subsection \<open>Order of the stages\<close>

text \<open>
  C1 (amended). For every implementation of the receiver's methods, the components run
  for a station in the order TrackSegmenter, ClockInitializer, GrossOutlierRejector,
  CycleSlipDetector, TrackFilter, TrackOutlierDetector, CycleSlipRepairer,
  UsabilityEvaluator: what ran is an initial part of this sequence, and the whole of it
  when no call throws. Track segmentation is the first stage, before the clock
  initialisation and the gross-outlier rejection.
\<close>

theorem pipeline_order:
  "prefix (componentsRun (preprocessStation exec cfg n ms r)) sourceControlFlow \<and>
   (fst (runCalls exec (stationCalls cfg (name r)) r) = None \<longrightarrow>
      componentsRun (preprocessStation exec cfg n ms r) = sourceControlFlow)"
proof -
  obtain x r' tr where rc: "runCalls exec (stationCalls cfg (name r)) r = (x, r', tr)"
    by (cases "runCalls exec (stationCalls cfg (name r)) r")
  from runCalls_trace [OF rc]
  have pre: "prefix tr (stationCalls cfg (name r))" and full: "x = None \<longrightarrow> tr = stationCalls cfg (name r)"
    by simp_all
  have src: "sourceControlFlow = List.map_filter componentOf (stationCalls cfg (name r)) @ [UsabilityEvaluator]"
    by (simp add: components_stationCalls sourceControlFlow_def)
  show ?thesis
  proof (cases x)
    case None
    with full have "tr = stationCalls cfg (name r)" by simp
    with rc None show ?thesis
      by (simp add: preprocessStation_def componentsRun_def src)
  next
    case (Some e)
    have "prefix (List.map_filter componentOf tr) (List.map_filter componentOf (stationCalls cfg (name r)))"
      using pre by (rule map_filter_prefix)
    then have "prefix (List.map_filter componentOf tr) sourceControlFlow"
      unfolding src by (rule prefix_prefix)
    with rc Some show ?thesis
      by (simp add: preprocessStation_def componentsRun_def)
  qed
qed

theorem pipeline_order_witness:
  "fst (runCalls execOk (stationCalls defaultConfig ''GRAZ'') (exampleStation ''GRAZ'' 0 True [True, True, True, True])) = None \<and>
   componentsRun (preprocessStation execOk defaultConfig 4 30 (exampleStation ''GRAZ'' 0 True [True, True, True, True]))
     = [TrackSegmenter, ClockInitializer, GrossOutlierRejector, CycleSlipDetector,
        TrackFilter, TrackOutlierDetector, CycleSlipRepairer, UsabilityEvaluator]"
proof -
  have nm: "name (exampleStation ''GRAZ'' 0 True [True, True, True, True]) = ''GRAZ''"
    by (simp add: exampleStation_def)
  have ok: "fst (runCalls execOk (stationCalls defaultConfig ''GRAZ'') (exampleStation ''GRAZ'' 0 True [True, True, True, True])) = None"
    by (simp add: stationCalls_def execOk_def)
  show ?thesis
    using ok nm pipeline_order [of execOk defaultConfig 4 30 "exampleStation ''GRAZ'' 0 True [True, True, True, True]"]
    by (simp add: sourceControlFlow_def)
qed

text \<open>
  C1 as stated fails: with methods that all return, the first component to run is the
  TrackSegmenter and the GrossOutlierRejector is the third, so the sequence is not the
  one of the spec's overview.
\<close>

theorem spec_order_counterexample:
  "componentsRun (preprocessStation execOk defaultConfig 4 30 (exampleStation ''GRAZ'' 0 True [True, True, True, True])) ! 0
     = TrackSegmenter \<and>
   componentsRun (preprocessStation execOk defaultConfig 4 30 (exampleStation ''GRAZ'' 0 True [True, True, True, True])) ! 2
     = GrossOutlierRejector \<and>
   componentsRun (preprocessStation execOk defaultConfig 4 30 (exampleStation ''GRAZ'' 0 True [True, True, True, True]))
     \<noteq> specControlFlow"
proof -
  have "callsMade (preprocessStation execOk defaultConfig 4 30 (exampleStation ''GRAZ'' 0 True [True, True, True, True]))
      = stationCalls defaultConfig ''GRAZ''"
    by (simp add: preprocessStation_def stationCalls_def execOk_def exampleStation_def)
  then have "take 3 (componentsRun (preprocessStation execOk defaultConfig 4 30 (exampleStation ''GRAZ'' 0 True [True, True, True, True])))
      = [TrackSegmenter, ClockInitializer, GrossOutlierRejector]"
    by (simp add: componentsRun_def components_stationCalls)
  then show ?thesis
    by (auto simp: specControlFlow_def nth_Cons' dest!: arg_cong [where f = "\<lambda>xs. (xs ! 0, xs ! 2)"])
qed

lemma countEpochs_take:
  "countEpochs r n = length (filter (\<lambda>b. b) (take n (useableEpochs r)))"
proof (induction n)
  case 0
  then show ?case by (simp add: countEpochs_def)
next
  case (Suc n)
  show ?case
  proof (cases "n < length (useableEpochs r)")
    case True
    with Suc show ?thesis
      by (simp add: countEpochs_def useableEpoch_def take_Suc_conv_app_nth)
  next
    case False
    with Suc show ?thesis
      by (simp add: countEpochs_def useableEpoch_def)
  qed
qed


subsection \<open>Exceptions of a station\<close>

text \<open>
  C4. When a call of the pipeline throws for a station of this rank, the handler of that
  pass takes over: the pass replaces the receiver by its disabled form, adds one to the
  count of disabled stations and appends one warning with the reason; the loop then goes
  on with the stations that follow, and every other station ends as its own pass leaves
  it. The loop returns a state in every case, so nothing thrown by a call leaves the
  pass.
\<close>

theorem station_exception_contained:
  assumes i: "i < length rs" and mine: "isMyRank (rs ! i)"
    and thrown: "runCalls exec (stationCalls cfg (name (rs ! i))) (rs ! i) = (Some e, r', tr)"
  shows
   "(let step = preprocessingStep exec cfg n ms;
         before = foldl step \<lparr> receivers = rs, disabledStations = 0, logged = [] \<rparr> [0..<i];
         final = preprocessingLoop exec cfg n ms rs
     in receivers before ! i = rs ! i
      \<and> step before i = \<lparr> receivers = (receivers before)[i := disable r'],
                          disabledStations = disabledStations before + 1,
                          logged = logged before @ [name r' @ '' disabled: '' @ e] \<rparr>
      \<and> final = foldl step (step before i) [Suc i..<length rs]
      \<and> receivers final ! i = disable r'
      \<and> \<not> useable (receivers final ! i)
      \<and> length (receivers final) = length rs
      \<and> (\<forall>j<length rs. j \<noteq> i \<longrightarrow> receivers final ! j =
            (if isMyRank (rs ! j) then recvOut (preprocessStation exec cfg n ms (rs ! j)) else rs ! j)))"
proof -
  define step where "step = preprocessingStep exec cfg n ms"
  define before where "before = foldl step \<lparr> receivers = rs, disabledStations = 0, logged = [] \<rparr> [0..<i]"
  define final where "final = preprocessingLoop exec cfg n ms rs"
  have res: "preprocessStation exec cfg n ms (rs ! i) =
      \<lparr> recvOut = disable r', disabledInc = 1, warnings = [name r' @ '' disabled: '' @ e],
        callsMade = tr, evaluated = False \<rparr>"
    using thrown by (simp add: preprocessStation_def)
  have bef: "receivers before = map (\<lambda>r. if isMyRank r then recvOut (preprocessStation exec cfg n ms r) else r) (take i rs) @ drop i rs"
    unfolding before_def step_def using i by (simp add: loop_prefix)
  have a: "receivers before ! i = rs ! i"
    using i by (simp add: bef nth_append)
  have b: "step before i = \<lparr> receivers = (receivers before)[i := disable r'],
                          disabledStations = disabledStations before + 1,
                          logged = logged before @ [name r' @ '' disabled: '' @ e] \<rparr>"
    unfolding step_def using a mine res by (simp add: preprocessingStep_def)
  have split: "[0..<length rs] = [0..<i] @ i # [Suc i..<length rs]"
    using i upt_add_eq_append [of 0 i "length rs - i"] by (simp add: upt_conv_Cons)
  have c: "final = foldl step (step before i) [Suc i..<length rs]"
    unfolding final_def preprocessingLoop_def before_def step_def
    by (subst split) simp
  have fin: "receivers final = map (\<lambda>r. if isMyRank r then recvOut (preprocessStation exec cfg n ms r) else r) rs"
    unfolding final_def by (simp add: preprocessingLoop_eq)
  have d: "receivers final ! i = disable r'"
    using i mine res by (simp add: fin)
  have e: "\<not> useable (receivers final ! i)"
    by (simp add: d not_useable_disable)
  have f: "length (receivers final) = length rs"
    by (simp add: fin)
  have g: "\<forall>j<length rs. j \<noteq> i \<longrightarrow> receivers final ! j =
            (if isMyRank (rs ! j) then recvOut (preprocessStation exec cfg n ms (rs ! j)) else rs ! j)"
    by (simp add: fin)
  from a b c d e f g show ?thesis
    unfolding Let_def step_def [symmetric] before_def [symmetric] final_def [symmetric]
    by blast
qed

theorem station_exception_contained_witness:
  "0 < length [stationGRAZ, stationWTZR] \<and> isMyRank ([stationGRAZ, stationWTZR] ! 0) \<and>
   runCalls (execFailing ''GRAZ'') (stationCalls defaultConfig (name ([stationGRAZ, stationWTZR] ! 0)))
       ([stationGRAZ, stationWTZR] ! 0)
     = (Some ''no observations'', stationGRAZ,
        [CreateTracks 60, EstimateInitialClockErrorFromCodeObservations (5 / 2) (3 / 2) 100 False,
         ObservationEquationList]) \<and>
   preprocessingLoop (execFailing ''GRAZ'') defaultConfig 4 30 [stationGRAZ, stationWTZR]
     = \<lparr> receivers = [disable stationGRAZ, stationWTZR], disabledStations = 1,
         logged = [''GRAZ disabled: no observations''] \<rparr> \<and>
   \<not> useable (receivers (preprocessingLoop (execFailing ''GRAZ'') defaultConfig 4 30 [stationGRAZ, stationWTZR]) ! 0)"
proof -
  have len: "0 < length [stationGRAZ, stationWTZR]" and mine: "isMyRank ([stationGRAZ, stationWTZR] ! 0)"
    by (simp_all add: stationGRAZ_def exampleStation_def)
  have thrown: "runCalls (execFailing ''GRAZ'') (stationCalls defaultConfig (name ([stationGRAZ, stationWTZR] ! 0)))
       ([stationGRAZ, stationWTZR] ! 0)
     = (Some ''no observations'', stationGRAZ,
        [CreateTracks 60, EstimateInitialClockErrorFromCodeObservations (5 / 2) (3 / 2) 100 False,
         ObservationEquationList])"
    by (simp add: stationGRAZ_def exampleStation_def stationCalls_def execFailing_def defaultConfig_def)
  have other: "preprocessStation (execFailing ''GRAZ'') defaultConfig 4 30 stationWTZR
     = \<lparr> recvOut = stationWTZR, disabledInc = 0, warnings = [],
         callsMade = stationCalls defaultConfig ''WTZR'', evaluated = True \<rparr>"
    by (simp add: preprocessStation_def stationWTZR_def exampleStation_def stationCalls_def
        execFailing_def defaultConfig_def belowEstimableRatio_def countEpochs_take)
  have first: "preprocessStation (execFailing ''GRAZ'') defaultConfig 4 30 stationGRAZ
     = \<lparr> recvOut = disable stationGRAZ, disabledInc = 1,
         warnings = [''GRAZ disabled: no observations''],
         callsMade = [CreateTracks 60, EstimateInitialClockErrorFromCodeObservations (5 / 2) (3 / 2) 100 False,
         ObservationEquationList], evaluated = False \<rparr>"
    using thrown by (simp add: preprocessStation_def) (simp add: stationGRAZ_def exampleStation_def)
  have mine': "isMyRank stationGRAZ" "isMyRank stationWTZR"
    by (simp_all add: stationGRAZ_def stationWTZR_def exampleStation_def)
  have fin: "preprocessingLoop (execFailing ''GRAZ'') defaultConfig 4 30 [stationGRAZ, stationWTZR] =
      \<lparr> receivers = [disable stationGRAZ, stationWTZR], disabledStations = 1,
        logged = [''GRAZ disabled: no observations''] \<rparr>"
    by (simp add: preprocessingLoop_eq mine' first other)
  show ?thesis
    using len mine thrown station_exception_contained [OF len mine thrown, of 4 30]
    by (simp add: fin not_useable_disable)
qed

lemma useableEpochs_disableEpoch:
  "useableEpochs (disableEpoch i r) = (useableEpochs r)[i := False]"
  by (simp add: disableEpoch_def)

lemma gross_fold_length:
  "length (useableEpochs (foldl (\<lambda>r' idEpoch. if P idEpoch then disableEpoch idEpoch r' else r') r [0..<k]))
     = length (useableEpochs r)"
  by (induction k) (simp_all add: useableEpochs_disableEpoch)

lemma gross_fold_nth:
  "i < length (useableEpochs r) \<Longrightarrow>
   useableEpochs (foldl (\<lambda>r' idEpoch. if P idEpoch then disableEpoch idEpoch r' else r') r [0..<k]) ! i
     = (useableEpochs r ! i \<and> \<not> (i < k \<and> P i))"
proof (induction k)
  case 0
  then show ?case by simp
next
  case (Suc k)
  define r1 where "r1 = foldl (\<lambda>r' idEpoch. if P idEpoch then disableEpoch idEpoch r' else r') r [0..<k]"
  have len: "length (useableEpochs r1) = length (useableEpochs r)"
    unfolding r1_def by (rule gross_fold_length)
  have ih: "useableEpochs r1 ! i = (useableEpochs r ! i \<and> \<not> (i < k \<and> P i))"
    unfolding r1_def using Suc by simp
  have step: "foldl (\<lambda>r' idEpoch. if P idEpoch then disableEpoch idEpoch r' else r') r [0..<Suc k]
      = (if P k then disableEpoch k r1 else r1)"
    by (simp add: r1_def)
  show ?case
  proof (cases "P k")
    case True
    have "useableEpochs (disableEpoch k r1) ! i = (if i = k then False else useableEpochs r1 ! i)"
      using Suc.prems len by (simp add: useableEpochs_disableEpoch nth_list_update)
    with True ih show ?thesis
      unfolding step by (auto simp: less_Suc_eq)
  next
    case False
    with ih show ?thesis
      unfolding step by (auto simp: less_Suc_eq)
  qed
qed

lemma gross_useableEpoch:
  "useableEpoch (disableEpochsWithGrossCodeObservationOutliers res thr fac r) i
     = (useableEpoch r i \<and> \<not> thr * fac < res i)"
  by (auto simp: useableEpoch_def disableEpochsWithGrossCodeObservationOutliers_def
        gross_fold_length gross_fold_nth)

lemma useable_iff: "useable r = (\<exists>i. useableEpoch r i)"
  by (auto simp: useable_def useableEpoch_def in_set_conv_nth)

lemma runCalls_execGrossOutliers:
  "runCalls (execGrossOutliers res) (stationCalls cfg s) r =
     (None, disableEpochsWithGrossCodeObservationOutliers res (codeMaxPosDiff cfg) (1 / 2) r, stationCalls cfg s)"
  by (simp add: stationCalls_def execGrossOutliers_def)


subsection \<open>Gross code outliers\<close>

text \<open>
  C5. The pipeline calls the gross-outlier rejection once, with the threshold
  \<open>codeMaxPosDiff\<close> and the factor 0.5. With the method as the spec describes it, an epoch
  stays usable exactly when it was usable and its code residual does not exceed the
  threshold times the factor; no other epoch changes, so the station stays usable as long
  as one such epoch is left.
\<close>

theorem gross_outlier_rejection:
  "runCalls (execGrossOutliers res) (stationCalls cfg s) r =
     (None, disableEpochsWithGrossCodeObservationOutliers res (codeMaxPosDiff cfg) (1 / 2) r, stationCalls cfg s)
   \<and> (\<forall>i. useableEpoch (disableEpochsWithGrossCodeObservationOutliers res (codeMaxPosDiff cfg) (1 / 2) r) i
          = (useableEpoch r i \<and> \<not> codeMaxPosDiff cfg * (1 / 2) < res i))
   \<and> useable (disableEpochsWithGrossCodeObservationOutliers res (codeMaxPosDiff cfg) (1 / 2) r)
        = (\<exists>j. useableEpoch r j \<and> \<not> codeMaxPosDiff cfg * (1 / 2) < res j)"
  by (simp only: runCalls_execGrossOutliers gross_useableEpoch useable_iff) simp

theorem gross_outlier_rejection_witness:
  "useableEpochs (disableEpochsWithGrossCodeObservationOutliers residuals150 (codeMaxPosDiff defaultConfig) (1 / 2) stationGRAZ)
     = [True, True, False, True]
   \<and> useable (disableEpochsWithGrossCodeObservationOutliers residuals150 (codeMaxPosDiff defaultConfig) (1 / 2) stationGRAZ)
   \<and> recvOut (preprocessStation (execGrossOutliers residuals150) defaultConfig 4 30 stationGRAZ)
     = disableEpochsWithGrossCodeObservationOutliers residuals150 100 (1 / 2) stationGRAZ"
proof -
  have c: "codeMaxPosDiff defaultConfig = 100" by (simp add: defaultConfig_def)
  have m: "useableEpochs (disableEpochsWithGrossCodeObservationOutliers residuals150 100 (1 / 2) stationGRAZ)
     = [True, True, False, True]"
    by (simp add: disableEpochsWithGrossCodeObservationOutliers_def stationGRAZ_def exampleStation_def
         residuals150_def disableEpoch_def upt_rec [of 0] upt_rec [of 1] upt_rec [of 2] upt_rec [of 3] upt_rec [of 4])
  have s: "observationSampling (disableEpochsWithGrossCodeObservationOutliers residuals150 100 (1 / 2) stationGRAZ) = 30"
    by (simp add: disableEpochsWithGrossCodeObservationOutliers_def stationGRAZ_def exampleStation_def
         residuals150_def disableEpoch_def upt_rec [of 0] upt_rec [of 1] upt_rec [of 2] upt_rec [of 3] upt_rec [of 4])
  have u: "useableEpoch stationGRAZ 0 \<and> \<not> codeMaxPosDiff defaultConfig * (1 / 2) < residuals150 0"
    by (simp add: useableEpoch_def stationGRAZ_def exampleStation_def defaultConfig_def residuals150_def)
  have g: "\<not> belowEstimableRatio (countEpochs (disableEpochsWithGrossCodeObservationOutliers residuals150 100 (1 / 2) stationGRAZ) 4)
       (observationSampling (disableEpochsWithGrossCodeObservationOutliers residuals150 100 (1 / 2) stationGRAZ))
       (minEstimableEpochsRatio defaultConfig) 4 30"
    by (simp add: m s countEpochs_take belowEstimableRatio_def defaultConfig_def)
  have use: "useable (disableEpochsWithGrossCodeObservationOutliers residuals150 (codeMaxPosDiff defaultConfig) (1 / 2) stationGRAZ)"
    using u gross_outlier_rejection [of residuals150 defaultConfig "name stationGRAZ" stationGRAZ]
    by blast
  have run: "runCalls (execGrossOutliers residuals150) (stationCalls defaultConfig (name stationGRAZ)) stationGRAZ =
     (None, disableEpochsWithGrossCodeObservationOutliers residuals150 100 (1 / 2) stationGRAZ,
      stationCalls defaultConfig (name stationGRAZ))"
    using gross_outlier_rejection [of residuals150 defaultConfig "name stationGRAZ" stationGRAZ]
    by (simp add: c)
  show ?thesis
    using use m g run by (simp add: c preprocessStation_def)
qed

section \<open>Properties of the signal-bias files\<close>

text \<open>The loop over the receivers in \<^verbatim>\<open>init\<close>, from index \<open>k\<close> on.\<close>

lemma initReceivers_from:
  fixes env :: "'o SignalBiasEnv" and files :: SignalBiasFiles
  defines "F \<equiv> \<lambda>(s, r). if s \<and> useable r then fst (initReceiver env files r) else r"
      and "W \<equiv> \<lambda>(s, r). if s \<and> useable r then fst (snd (initReceiver env files r)) else []"
      and "R \<equiv> \<lambda>(s, r). if s \<and> useable r then snd (snd (initReceiver env files r)) else []"
  assumes "length rs \<le> length sel"
    and "length (gnssReceivers st) = length rs"
    and "\<forall>j. k \<le> j \<and> j < length rs \<longrightarrow> gnssReceivers st ! j = rs ! j"
  shows "initReceivers env files sel [k..<length rs] st =
     (None, st\<lparr> gnssReceivers := take k (gnssReceivers st) @ map F (drop k (zip sel rs)),
               warnedOnce := warnedOnce st @ concat (map W (drop k (zip sel rs))),
               filesRead := filesRead st @ concat (map R (drop k (zip sel rs))) \<rparr>)"
  using assms(4-)
proof (induction "length rs - k" arbitrary: k st)
  case 0
  then have "length rs \<le> k" by simp
  then show ?case using 0 by simp
next
  case (Suc m)
  then have k: "k < length rs" by simp
  with Suc.prems have ksel: "k < length sel" by simp
  have upt: "[k..<length rs] = k # [Suc k..<length rs]"
    using k by (simp add: upt_conv_Cons)
  have kz: "k < length (zip sel rs)" using k ksel by simp
  have dz: "drop k (zip sel rs) = (sel ! k, rs ! k) # drop (Suc k) (zip sel rs)"
    using kz by (simp add: Cons_nth_drop_Suc [symmetric])
  have cur: "gnssReceivers st ! k = rs ! k" using Suc.prems k by simp
  have klen: "k < length (gnssReceivers st)" using Suc.prems k by simp
  show ?case
  proof (cases "sel ! k \<and> useable (rs ! k)")
    case True
    obtain r' w f where ir: "initReceiver env files (rs ! k) = (r', w, f)"
      by (cases "initReceiver env files (rs ! k)")
    define st1 where "st1 = st\<lparr> gnssReceivers := (gnssReceivers st)[k := r'],
                           warnedOnce := warnedOnce st @ w, filesRead := filesRead st @ f \<rparr>"
    have m: "m = length rs - Suc k" using Suc.hyps by simp
    have p1: "length (gnssReceivers st1) = length rs" using Suc.prems by (simp add: st1_def)
    have p2: "\<forall>j. Suc k \<le> j \<and> j < length rs \<longrightarrow> gnssReceivers st1 ! j = rs ! j"
      using Suc.prems by (simp add: st1_def)
    have tk: "take (Suc k) (gnssReceivers st1) = take k (gnssReceivers st) @ [r']"
      using klen by (simp add: st1_def take_Suc_conv_app_nth)
    have "initReceivers env files sel [k..<length rs] st = initReceivers env files sel [Suc k..<length rs] st1"
      using True ksel cur ir by (simp add: upt vectorAt_def st1_def)
    also have "\<dots> = (None, st1\<lparr> gnssReceivers := take (Suc k) (gnssReceivers st1) @ map F (drop (Suc k) (zip sel rs)),
               warnedOnce := warnedOnce st1 @ concat (map W (drop (Suc k) (zip sel rs))),
               filesRead := filesRead st1 @ concat (map R (drop (Suc k) (zip sel rs))) \<rparr>)"
      using Suc.hyps(1) [OF m Suc.prems(1) p1 p2] .
    also have "\<dots> = (None, st\<lparr> gnssReceivers := take k (gnssReceivers st) @ map F (drop k (zip sel rs)),
               warnedOnce := warnedOnce st @ concat (map W (drop k (zip sel rs))),
               filesRead := filesRead st @ concat (map R (drop k (zip sel rs))) \<rparr>)"
      using True ir by (simp add: tk dz) (simp add: st1_def F_def W_def R_def)
    finally show ?thesis .
  next
    case False
    have m: "m = length rs - Suc k" using Suc.hyps by simp
    have p2: "\<forall>j. Suc k \<le> j \<and> j < length rs \<longrightarrow> gnssReceivers st ! j = rs ! j"
      using Suc.prems by simp
    have tk: "take (Suc k) (gnssReceivers st) = take k (gnssReceivers st) @ [rs ! k]"
      using klen cur by (simp add: take_Suc_conv_app_nth)
    have "initReceivers env files sel [k..<length rs] st = initReceivers env files sel [Suc k..<length rs] st"
      using False ksel cur by (auto simp add: upt vectorAt_def)
    also have "\<dots> = (None, st\<lparr> gnssReceivers := take (Suc k) (gnssReceivers st) @ map F (drop (Suc k) (zip sel rs)),
               warnedOnce := warnedOnce st @ concat (map W (drop (Suc k) (zip sel rs))),
               filesRead := filesRead st @ concat (map R (drop (Suc k) (zip sel rs))) \<rparr>)"
      using Suc.hyps(1) [OF m Suc.prems(1) Suc.prems(2) p2] .
    also have "\<dots> = (None, st\<lparr> gnssReceivers := take k (gnssReceivers st) @ map F (drop k (zip sel rs)),
               warnedOnce := warnedOnce st @ concat (map W (drop k (zip sel rs))),
               filesRead := filesRead st @ concat (map R (drop k (zip sel rs))) \<rparr>)"
      using False by (simp add: tk dz) (auto simp add: F_def W_def R_def)
    finally show ?thesis .
  qed
qed


lemma useable_update_signalBias: "useable (r\<lparr>signalBias := b\<rparr>) = useable r"
  by (simp add: useable_def)

lemma initReceiver_reads:
  "snd (snd (initReceiver env files r)) = [expand env (fileNameInTransmitter files) [(''station'', name r)]]"
  by (simp add: initReceiver_def Let_def split: prod.splits option.splits)

lemma initReceiver_warns:
  "fst (snd (initReceiver env files r)) =
    (if fst (readFileGnssSignalBias env (expand env (fileNameInTransmitter files) [(''station'', name r)]) (signalBias r)) \<noteq> None
     then [''Unable to read signal bias file <'' @ expand env (fileNameInReceiver files) [(''station'', name r)]
            @ ''>, disabling receiver.'']
     else [])"
  by (simp add: initReceiver_def Let_def split: prod.splits option.splits)

lemma initReceiver_disables:
  "fst (readFileGnssSignalBias env (expand env (fileNameInTransmitter files) [(''station'', name r)]) (signalBias r)) \<noteq> None
   \<Longrightarrow> \<not> useable (fst (initReceiver env files r))"
  by (auto simp add: initReceiver_def Let_def not_useable_disable split: prod.splits option.splits)


subsection \<open>The file read for a receiver\<close>

text \<open>
  C2. When \<^verbatim>\<open>fileNameInReceiver\<close> is not empty and the transmitter part has returned, \<^verbatim>\<open>init\<close>
  hands the reader, for every selected usable receiver and in order, the path expanded
  from \<^verbatim>\<open>fileNameInTransmitter\<close> with the variable \<^verbatim>\<open>station\<close> set to the receiver's name.
  For every receiver whose read fails, the warning carries the path expanded from
  \<^verbatim>\<open>fileNameInReceiver\<close>, and the receiver ends disabled.
\<close>

theorem receiver_bias_read_path:
  assumes recvFiles: "fileNameInReceiver files \<noteq> []"
    and trans: "(if fileNameInTransmitter files \<noteq> []
                 then initTransmitters env files (selectTransmitters env (transmitters st0))
                        [0..<length (transmitters st0)] st0
                 else (None, st0)) = (None, st)"
    and sel: "length (gnssReceivers st) \<le> length (selectReceivers env (gnssReceivers st))"
  shows
   "(let rs = gnssReceivers st;
         selected = selectReceivers env rs;
         pathRead = (\<lambda>r. expand env (fileNameInTransmitter files) [(''station'', name r)]);
         pathWarned = (\<lambda>r. expand env (fileNameInReceiver files) [(''station'', name r)]);
         failed = (\<lambda>r. fst (readFileGnssSignalBias env (pathRead r) (signalBias r)) \<noteq> None);
         result = signalBiasesInit env files st0
     in fst result = None
      \<and> filesRead (snd result) = filesRead st
           @ concat (map (\<lambda>(s, r). if s \<and> useable r then [pathRead r] else []) (zip selected rs))
      \<and> warnedOnce (snd result) = warnedOnce st
           @ concat (map (\<lambda>(s, r). if s \<and> useable r \<and> failed r
                          then [''Unable to read signal bias file <'' @ pathWarned r @ ''>, disabling receiver.'']
                          else []) (zip selected rs))
      \<and> length (gnssReceivers (snd result)) = length rs
      \<and> (\<forall>i<length rs. selected ! i \<and> useable (rs ! i) \<and> failed (rs ! i)
            \<longrightarrow> \<not> useable (gnssReceivers (snd result) ! i)))"
proof -
  define rs where "rs = gnssReceivers st"
  define selected where "selected = selectReceivers env rs"
  define F where "F = (\<lambda>(s, r). if s \<and> useable r then fst (initReceiver env files r) else r)"
  have len: "length rs \<le> length selected" using sel by (simp add: rs_def selected_def)
  have run: "signalBiasesInit env files st0 = initReceivers env files selected [0..<length rs] st"
    using recvFiles trans by (simp add: signalBiasesInit_def rs_def selected_def)
  have loop: "initReceivers env files selected [0..<length rs] st =
     (None, st\<lparr> gnssReceivers := take 0 (gnssReceivers st) @ map F (drop 0 (zip selected rs)),
               warnedOnce := warnedOnce st @ concat (map (\<lambda>(s, r). if s \<and> useable r then fst (snd (initReceiver env files r)) else []) (drop 0 (zip selected rs))),
               filesRead := filesRead st @ concat (map (\<lambda>(s, r). if s \<and> useable r then snd (snd (initReceiver env files r)) else []) (drop 0 (zip selected rs))) \<rparr>)"
    unfolding F_def
    by (rule initReceivers_from [OF len]) (simp_all add: rs_def)
  have a: "fst (signalBiasesInit env files st0) = None"
    by (simp add: run loop)
  have b: "filesRead (snd (signalBiasesInit env files st0)) = filesRead st
           @ concat (map (\<lambda>(s, r). if s \<and> useable r then [expand env (fileNameInTransmitter files) [(''station'', name r)]] else []) (zip selected rs))"
    by (simp add: run loop initReceiver_reads cong: if_cong)
  have c: "warnedOnce (snd (signalBiasesInit env files st0)) = warnedOnce st
           @ concat (map (\<lambda>(s, r). if s \<and> useable r \<and> fst (readFileGnssSignalBias env (expand env (fileNameInTransmitter files) [(''station'', name r)]) (signalBias r)) \<noteq> None
                          then [''Unable to read signal bias file <'' @ expand env (fileNameInReceiver files) [(''station'', name r)] @ ''>, disabling receiver.'']
                          else []) (zip selected rs))"
    by (simp add: run loop initReceiver_warns cong: if_cong) (rule arg_cong [where f = concat], rule map_cong, auto)
  have recs: "gnssReceivers (snd (signalBiasesInit env files st0)) = map F (zip selected rs)"
    by (simp add: run loop)
  have d: "length (gnssReceivers (snd (signalBiasesInit env files st0))) = length rs"
    using len by (simp add: recs)
  have e: "\<forall>i<length rs. selected ! i \<and> useable (rs ! i)
             \<and> fst (readFileGnssSignalBias env (expand env (fileNameInTransmitter files) [(''station'', name (rs ! i))]) (signalBias (rs ! i))) \<noteq> None
            \<longrightarrow> \<not> useable (gnssReceivers (snd (signalBiasesInit env files st0)) ! i)"
    using len initReceiver_disables [of env files] by (simp add: recs F_def)
  from a b c d e show ?thesis
    unfolding Let_def rs_def [symmetric] selected_def [symmetric] by blast
qed


theorem receiver_bias_read_path_witness:
  "fileNameInReceiver exampleFiles \<noteq> []
   \<and> (if fileNameInTransmitter exampleFiles \<noteq> []
        then initTransmitters exampleEnv exampleFiles (selectTransmitters exampleEnv (transmitters exampleState))
               [0..<length (transmitters exampleState)] exampleState
        else (None, exampleState)) = (None, exampleState)
   \<and> length (gnssReceivers exampleState) \<le> length (selectReceivers exampleEnv (gnssReceivers exampleState))
   \<and> filesRead (snd (signalBiasesInit exampleEnv exampleFiles exampleState))
        = [''biasT[station=GRAZ]'', ''biasT[station=WTZR]'']
   \<and> warnedOnce (snd (signalBiasesInit exampleEnv exampleFiles exampleState))
        = [''Unable to read signal bias file <biasR[station=GRAZ]>, disabling receiver.'']
   \<and> \<not> useable (gnssReceivers (snd (signalBiasesInit exampleEnv exampleFiles exampleState)) ! 0)"
proof -
  have h1: "fileNameInReceiver exampleFiles \<noteq> []"
    by (simp add: exampleFiles_def)
  have h2: "(if fileNameInTransmitter exampleFiles \<noteq> []
        then initTransmitters exampleEnv exampleFiles (selectTransmitters exampleEnv (transmitters exampleState))
               [0..<length (transmitters exampleState)] exampleState
        else (None, exampleState)) = (None, exampleState)"
    by (simp add: exampleState_def)
  have h3: "length (gnssReceivers exampleState) \<le> length (selectReceivers exampleEnv (gnssReceivers exampleState))"
    by (simp add: exampleEnv_def)
  have rs: "gnssReceivers exampleState = [stationGRAZ, stationWTZR]"
    and lg: "filesRead exampleState = []" "warnedOnce exampleState = []"
    by (simp_all add: exampleState_def)
  have sel: "selectReceivers exampleEnv [stationGRAZ, stationWTZR] = [True, True]"
    by (simp add: exampleEnv_def)
  have us: "useable stationGRAZ" "useable stationWTZR"
    by (simp_all add: useable_def stationGRAZ_def stationWTZR_def exampleStation_def)
  have nm: "name stationGRAZ = ''GRAZ''" "name stationWTZR = ''WTZR''"
    by (simp_all add: stationGRAZ_def stationWTZR_def exampleStation_def)
  have pt: "expand exampleEnv (fileNameInTransmitter exampleFiles) [(''station'', ''GRAZ'')] = ''biasT[station=GRAZ]''"
     "expand exampleEnv (fileNameInTransmitter exampleFiles) [(''station'', ''WTZR'')] = ''biasT[station=WTZR]''"
     "expand exampleEnv (fileNameInReceiver exampleFiles) [(''station'', ''GRAZ'')] = ''biasR[station=GRAZ]''"
    by (simp_all add: exampleEnv_def exampleExpand_def exampleFiles_def)
  have rd: "fst (readFileGnssSignalBias exampleEnv ''biasT[station=GRAZ]'' b) = Some ''cannot open''"
     "fst (readFileGnssSignalBias exampleEnv ''biasT[station=WTZR]'' b) = None" for b
    by (simp_all add: exampleEnv_def)
  show ?thesis
    using h1 h2 h3 receiver_bias_read_path [OF h1 h2 h3]
    by (simp add: Let_def rs lg sel us nm pt rd)
qed

subsection \<open>The files written\<close>

lemma nearestEven_close: "\<bar>q - of_int (nearestEven q)\<bar> \<le> 1 / 2"
proof -
  define f :: real where "f = of_int \<lfloor>q\<rfloor>"
  have lo: "f \<le> q" and hi: "q < f + 1"
    unfolding f_def by linarith+
  have "nearestEven q = \<lfloor>q\<rfloor> \<and> q - f \<le> 1 / 2 \<or> nearestEven q = \<lfloor>q\<rfloor> + 1 \<and> 1 / 2 \<le> q - f"
    unfolding nearestEven_def f_def by auto
  then show ?thesis
  proof
    assume "nearestEven q = \<lfloor>q\<rfloor> \<and> q - f \<le> 1 / 2"
    then have "q - of_int (nearestEven q) = q - f" and "q - f \<le> 1 / 2"
      by (simp_all add: f_def)
    with lo show ?thesis by linarith
  next
    assume "nearestEven q = \<lfloor>q\<rfloor> + 1 \<and> 1 / 2 \<le> q - f"
    then have "q - of_int (nearestEven q) = q - f - 1" and "1 / 2 \<le> q - f"
      by (simp_all add: f_def)
    with hi show ?thesis by linarith
  qed
qed

lemma remainder_bound:
  assumes "y \<noteq> 0"
  shows "\<bar>remainder x y\<bar> \<le> \<bar>y\<bar> / 2"
proof -
  have "remainder x y = (x / y - of_int (nearestEven (x / y))) * y"
    using assms by (simp add: remainder_def algebra_simps)
  then have "\<bar>remainder x y\<bar> = \<bar>x / y - of_int (nearestEven (x / y))\<bar> * \<bar>y\<bar>"
    by (simp add: abs_mult)
  also have "\<dots> \<le> (1 / 2) * \<bar>y\<bar>"
    by (rule mult_right_mono [OF nearestEven_close]) simp
  finally show ?thesis by simp
qed

lemma wrapPhaseBiases_result:
  assumes "wrapPhaseBiases c ids stored = Inr written" and "distinct ids"
  shows "types written = types stored \<and> length (biases written) = length (biases stored) \<and>
    (\<forall>i<length (biases stored). biases written ! i =
        (if i \<in> set ids \<and> kind (types stored ! i) = PHASE
         then remainder (biases stored ! i) (c / frequency (types stored ! i))
         else biases stored ! i))"
  using assms
proof (induction ids arbitrary: stored)
  case Nil
  then show ?case by simp
next
  case (Cons idType ids)
  show ?case
  proof (cases "kind (types stored ! idType) = PHASE")
    case False
    with Cons.prems have "wrapPhaseBiases c ids stored = Inr written" by simp
    from Cons.IH [OF this] Cons.prems(2) False show ?thesis by auto
  next
    case True
    show ?thesis
    proof (cases "idType < length (biases stored)")
      case False
      with True Cons.prems show ?thesis by (simp add: vectorAt_def)
    next
      case inRange: True
      define stored1 where "stored1 = stored\<lparr>biases := (biases stored)
          [idType := remainder (biases stored ! idType) (c / frequency (types stored ! idType))]\<rparr>"
      have run: "wrapPhaseBiases c ids stored1 = Inr written"
        using True inRange Cons.prems(1) by (simp add: vectorAt_def stored1_def)
      have d: "distinct ids" and notin: "idType \<notin> set ids" using Cons.prems(2) by simp_all
      from Cons.IH [OF run d]
      have ih: "types written = types stored1" "length (biases written) = length (biases stored1)"
        "\<forall>i<length (biases stored1). biases written ! i =
          (if i \<in> set ids \<and> kind (types stored1 ! i) = PHASE
           then remainder (biases stored1 ! i) (c / frequency (types stored1 ! i))
           else biases stored1 ! i)"
        by simp_all
      have t1: "types stored1 = types stored" and l1: "length (biases stored1) = length (biases stored)"
        by (simp_all add: stored1_def)
      have b1: "biases stored1 ! i = (if i = idType
           then remainder (biases stored ! idType) (c / frequency (types stored ! idType))
           else biases stored ! i)" if "i < length (biases stored)" for i
        using that by (simp add: stored1_def nth_list_update)
      show ?thesis
        using ih True notin by (auto simp: t1 l1 b1)
    qed
  qed
qed


lemma writeBias_result:
  assumes "writeBias env template var val sfx stored = Inr (path, written)"
  shows "path = appendBaseName env (expand env template [(var, val)]) sfx
       \<and> wrappedCopy (LIGHT_VELOCITY env) stored written"
proof -
  from assms obtain w where w: "wrapPhaseBiases (LIGHT_VELOCITY env) [0..<length (types stored)] stored = Inr w"
    and rest: "path = appendBaseName env (expand env template [(var, val)]) sfx" "written = w"
    by (auto simp: writeBias_def Let_def split: sum.splits option.splits)
  from wrapPhaseBiases_result [OF w] rest show ?thesis
    by (simp add: wrappedCopy_def)
qed

lemma writeTransmitters_result:
  "writeTransmitters env files sfx sel ts st = (x, st') \<Longrightarrow>
   transmitters st' = transmitters st \<and> gnssReceivers st' = gnssReceivers st \<and>
   (\<exists>new. filesWritten st' = filesWritten st @ new \<and>
      (\<forall>(path, written) \<in> set new. \<exists>t \<in> set ts. wrappedCopy (LIGHT_VELOCITY env) (signalBias t) written))"
proof (induction ts arbitrary: st)
  case Nil
  then show ?case by simp
next
  case (Cons t ts)
  consider (skip) "writeTransmitters env files sfx sel (t # ts) st = writeTransmitters env files sfx sel ts st"
    | (stop) "st' = st"
    | (emit) path written where "writeBias env (fileNameOutTransmitter files) ''prn'' (name t) sfx (signalBias t) = Inr (path, written)"
        "writeTransmitters env files sfx sel (t # ts) st =
         writeTransmitters env files sfx sel ts (st\<lparr>filesWritten := filesWritten st @ [(path, written)]\<rparr>)"
    using Cons.prems by (auto split: if_splits sum.splits)
  then show ?case
  proof cases
    case skip
    with Cons.prems have "writeTransmitters env files sfx sel ts st = (x, st')" by simp
    from Cons.IH [OF this] show ?thesis by auto
  next
    case stop
    then show ?thesis by simp
  next
    case emit
    with Cons.prems have "writeTransmitters env files sfx sel ts (st\<lparr>filesWritten := filesWritten st @ [(path, written)]\<rparr>) = (x, st')"
      by simp
    from Cons.IH [OF this] obtain new where
      fr: "transmitters st' = transmitters st" "gnssReceivers st' = gnssReceivers st"
      and new: "filesWritten st' = filesWritten st @ (path, written) # new"
        "\<forall>(path, written) \<in> set new. \<exists>t \<in> set ts. wrappedCopy (LIGHT_VELOCITY env) (signalBias t) written"
      by auto
    have "wrappedCopy (LIGHT_VELOCITY env) (signalBias t) written"
      using writeBias_result [OF emit(1)] by simp
    with new(2) have "\<forall>(path, written) \<in> set ((path, written) # new). \<exists>t' \<in> set (t # ts). wrappedCopy (LIGHT_VELOCITY env) (signalBias t') written"
      by auto
    with fr new(1) show ?thesis by blast
  qed
qed

lemma writeReceivers_result:
  "writeReceivers env files sfx sel est rs st = (x, st') \<Longrightarrow>
   transmitters st' = transmitters st \<and> gnssReceivers st' = gnssReceivers st \<and>
   (\<exists>new. filesWritten st' = filesWritten st @ new \<and>
      (\<forall>(path, written) \<in> set new. \<exists>r \<in> set rs. wrappedCopy (LIGHT_VELOCITY env) (signalBias r) written))"
proof (induction rs arbitrary: st)
  case Nil
  then show ?case by simp
next
  case (Cons r rs)
  consider (skip) "writeReceivers env files sfx sel est (r # rs) st = writeReceivers env files sfx sel est rs st"
    | (stop) "st' = st"
    | (emit) path written where "writeBias env (fileNameOutReceiver files) ''station'' (name r) sfx (signalBias r) = Inr (path, written)"
        "writeReceivers env files sfx sel est (r # rs) st =
         writeReceivers env files sfx sel est rs (st\<lparr>filesWritten := filesWritten st @ [(path, written)]\<rparr>)"
    using Cons.prems by (auto split: if_splits sum.splits bool.splits)
  then show ?case
  proof cases
    case skip
    with Cons.prems have "writeReceivers env files sfx sel est rs st = (x, st')" by simp
    from Cons.IH [OF this] show ?thesis by auto
  next
    case stop
    then show ?thesis by simp
  next
    case emit
    with Cons.prems have "writeReceivers env files sfx sel est rs (st\<lparr>filesWritten := filesWritten st @ [(path, written)]\<rparr>) = (x, st')"
      by simp
    from Cons.IH [OF this] obtain new where
      fr: "transmitters st' = transmitters st" "gnssReceivers st' = gnssReceivers st"
      and new: "filesWritten st' = filesWritten st @ (path, written) # new"
        "\<forall>(path, written) \<in> set new. \<exists>r \<in> set rs. wrappedCopy (LIGHT_VELOCITY env) (signalBias r) written"
      by auto
    have "wrappedCopy (LIGHT_VELOCITY env) (signalBias r) written"
      using writeBias_result [OF emit(1)] by simp
    with new(2) have "\<forall>(path, written) \<in> set ((path, written) # new). \<exists>r' \<in> set (r # rs). wrappedCopy (LIGHT_VELOCITY env) (signalBias r') written"
      by auto
    with fr new(1) show ?thesis by blast
  qed
qed


lemma writeResults_result:
  "writeResults env files nei sfx st = (x, st') \<Longrightarrow>
   transmitters st' = transmitters st \<and> gnssReceivers st' = gnssReceivers st \<and>
   (\<exists>new. filesWritten st' = filesWritten st @ new \<and>
      (\<forall>(path, written) \<in> set new.
         \<exists>stored \<in> signalBias ` set (transmitters st) \<union> signalBias ` set (gnssReceivers st).
           wrappedCopy (LIGHT_VELOCITY env) stored written))"
proof (cases "isEnabled nei")
  case False
  assume "writeResults env files nei sfx st = (x, st')"
  with False show ?thesis by (simp add: writeResults_def)
next
  case True
  assume run: "writeResults env files nei sfx st = (x, st')"
  define tpart where "tpart = (if fileNameOutTransmitter files \<noteq> []
                   \<and> \<not> isEachReceiverSeparately nei \<and> isMaster nei
                then writeTransmitters env files sfx (selectTransmitters env (transmitters st))
                       (transmitters st) st
                else (None, st))"
  obtain x1 st1 where t: "tpart = (x1, st1)" by (cases tpart)
  have t1: "transmitters st1 = transmitters st \<and> gnssReceivers st1 = gnssReceivers st \<and>
   (\<exists>new. filesWritten st1 = filesWritten st @ new \<and>
      (\<forall>(path, written) \<in> set new. \<exists>t \<in> set (transmitters st). wrappedCopy (LIGHT_VELOCITY env) (signalBias t) written))"
  proof (cases "fileNameOutTransmitter files \<noteq> [] \<and> \<not> isEachReceiverSeparately nei \<and> isMaster nei")
    case True
    with t have "writeTransmitters env files sfx (selectTransmitters env (transmitters st)) (transmitters st) st = (x1, st1)"
      by (simp add: tpart_def)
    from writeTransmitters_result [OF this] show ?thesis .
  next
    case False
    with t have "st1 = st" by (auto simp: tpart_def)
    then show ?thesis by simp
  qed
  then obtain new1 where n1: "filesWritten st1 = filesWritten st @ new1"
      "\<forall>(path, written) \<in> set new1. \<exists>t \<in> set (transmitters st). wrappedCopy (LIGHT_VELOCITY env) (signalBias t) written"
    by blast
  define rpart where "rpart = (if fileNameOutReceiver files \<noteq> []
               then writeReceivers env files sfx (selectReceivers env (gnssReceivers st1))
                      (estimateReceiver nei) (gnssReceivers st1) st1
               else (None, st1))"
  have r1: "transmitters st2 = transmitters st1 \<and> gnssReceivers st2 = gnssReceivers st1 \<and>
   (\<exists>new. filesWritten st2 = filesWritten st1 @ new \<and>
      (\<forall>(path, written) \<in> set new. \<exists>r \<in> set (gnssReceivers st1). wrappedCopy (LIGHT_VELOCITY env) (signalBias r) written))"
    if "rpart = (x2, st2)" for x2 st2
  proof (cases "fileNameOutReceiver files \<noteq> []")
    case True
    with that have "writeReceivers env files sfx (selectReceivers env (gnssReceivers st1))
                      (estimateReceiver nei) (gnssReceivers st1) st1 = (x2, st2)"
      by (simp add: rpart_def)
    from writeReceivers_result [OF this] show ?thesis .
  next
    case False
    with that have "st2 = st1" by (auto simp: rpart_def)
    then show ?thesis by simp
  qed
  have unfold: "writeResults env files nei sfx st = (case x1 of Some e \<Rightarrow> (Some e, st1) | None \<Rightarrow> rpart)"
    using True t by (simp add: writeResults_def tpart_def [symmetric] rpart_def split: option.splits)
  show ?thesis
  proof (cases x1)
    case (Some e)
    with unfold run have \<open>st' = st1\<close> by simp
    have a1: "\<exists>stored \<in> signalBias ` set (transmitters st) \<union> signalBias ` set (gnssReceivers st).
           wrappedCopy (LIGHT_VELOCITY env) stored written" if "(path, written) \<in> set new1" for path written
    proof -
      from n1(2) that obtain t where "t \<in> set (transmitters st)" "wrappedCopy (LIGHT_VELOCITY env) (signalBias t) written"
        by blast
      then have "signalBias t \<in> signalBias ` set (transmitters st) \<union> signalBias ` set (gnssReceivers st)"
        by simp
      with \<open>wrappedCopy (LIGHT_VELOCITY env) (signalBias t) written\<close> show ?thesis by (rule bexI)
    qed
    then have all: "\<forall>(path, written) \<in> set new1.
         \<exists>stored \<in> signalBias ` set (transmitters st) \<union> signalBias ` set (gnssReceivers st).
           wrappedCopy (LIGHT_VELOCITY env) stored written"
      by auto
    have f1: "transmitters st' = transmitters st" and f2: "gnssReceivers st' = gnssReceivers st"
      and fw: "filesWritten st' = filesWritten st @ new1"
      using t1 n1(1) \<open>st' = st1\<close> by simp_all
    show ?thesis
      apply (intro conjI)
        apply (rule f1)
       apply (rule f2)
      apply (rule exI [of _ new1])
      apply (intro conjI)
       apply (rule fw)
      apply (rule all)
      done
  next
    case None
    with unfold run have "rpart = (x, st')" by simp
    from r1 [OF this] obtain new2 where n2: "transmitters st' = transmitters st1" "gnssReceivers st' = gnssReceivers st1"
      "filesWritten st' = filesWritten st1 @ new2"
      "\<forall>(path, written) \<in> set new2. \<exists>r \<in> set (gnssReceivers st1). wrappedCopy (LIGHT_VELOCITY env) (signalBias r) written"
      by blast
    have fw: "filesWritten st' = filesWritten st @ (new1 @ new2)"
      using n1(1) n2(3) by simp
    have a1: "\<exists>stored \<in> signalBias ` set (transmitters st) \<union> signalBias ` set (gnssReceivers st).
           wrappedCopy (LIGHT_VELOCITY env) stored written" if "(path, written) \<in> set new1" for path written
    proof -
      from n1(2) that obtain t where "t \<in> set (transmitters st)" "wrappedCopy (LIGHT_VELOCITY env) (signalBias t) written"
        by blast
      then have "signalBias t \<in> signalBias ` set (transmitters st) \<union> signalBias ` set (gnssReceivers st)"
        by simp
      with \<open>wrappedCopy (LIGHT_VELOCITY env) (signalBias t) written\<close> show ?thesis by (rule bexI)
    qed
    have a2: "\<exists>stored \<in> signalBias ` set (transmitters st) \<union> signalBias ` set (gnssReceivers st).
           wrappedCopy (LIGHT_VELOCITY env) stored written" if "(path, written) \<in> set new2" for path written
    proof -
      from n2(4) that obtain r where "r \<in> set (gnssReceivers st1)" "wrappedCopy (LIGHT_VELOCITY env) (signalBias r) written"
        by blast
      moreover have "gnssReceivers st1 = gnssReceivers st" using t1 by simp
      ultimately have "signalBias r \<in> signalBias ` set (transmitters st) \<union> signalBias ` set (gnssReceivers st)"
        by simp
      with \<open>wrappedCopy (LIGHT_VELOCITY env) (signalBias r) written\<close> show ?thesis by (rule bexI)
    qed
    have all: "\<forall>(path, written) \<in> set (new1 @ new2).
         \<exists>stored \<in> signalBias ` set (transmitters st) \<union> signalBias ` set (gnssReceivers st).
           wrappedCopy (LIGHT_VELOCITY env) stored written"
      using a1 a2 by auto
    have f1: "transmitters st' = transmitters st" using t1 n2(1) by simp
    have f2: "gnssReceivers st' = gnssReceivers st" using t1 n2(2) by simp
    show ?thesis
      apply (intro conjI)
        apply (rule f1)
       apply (rule f2)
      apply (rule exI [of _ "new1 @ new2"])
      apply (intro conjI)
       apply (rule fw)
      apply (rule all)
      done
  qed
qed

lemma wrappedCopy_bound:
  assumes "wrappedCopy c stored written" and "i < length (biases stored)" and "i < length (types stored)"
    and "kind (types stored ! i) = PHASE" and "0 < c" and "0 < frequency (types stored ! i)"
  shows "\<bar>biases written ! i\<bar> \<le> c / frequency (types stored ! i) / 2"
proof -
  have "biases written ! i = remainder (biases stored ! i) (c / frequency (types stored ! i))"
    using assms by (simp add: wrappedCopy_def)
  moreover have "c / frequency (types stored ! i) \<noteq> 0" and "0 < c / frequency (types stored ! i)"
    using assms by simp_all
  ultimately show ?thesis
    using remainder_bound [of "c / frequency (types stored ! i)" "biases stored ! i"] by simp
qed

lemma writtenFor_writeBias:
  assumes "writeBias env template var val sfx stored = Inr wfile"
  shows "writtenFor env sfx (template, var, val, stored) wfile"
proof -
  obtain path written where f: "wfile = (path, written)" by (cases wfile)
  from writeBias_result [OF assms [unfolded f]] show ?thesis
    by (simp add: writtenFor_def f)
qed

lemma writeTransmitters_files:
  "writeTransmitters env files sfx sel ts st = (x, st') \<Longrightarrow>
   \<exists>new. filesWritten st' = filesWritten st @ new
     \<and> length new \<le> length (filter (\<lambda>t. useable t \<and> idTrans t < length sel \<and> sel ! idTrans t) ts)
     \<and> (x = None \<longrightarrow> length new = length (filter (\<lambda>t. useable t \<and> idTrans t < length sel \<and> sel ! idTrans t) ts))
     \<and> list_all2 (writtenFor env sfx)
          (take (length new) (map (\<lambda>t. (fileNameOutTransmitter files, ''prn'', name t, signalBias t))
             (filter (\<lambda>t. useable t \<and> idTrans t < length sel \<and> sel ! idTrans t) ts))) new"
proof (induction ts arbitrary: st)
  case Nil
  then show ?case by simp
next
  case (Cons t ts)
  let ?P = "\<lambda>t. useable t \<and> idTrans t < length sel \<and> sel ! idTrans t"
  consider (skip) "\<not> ?P t" "writeTransmitters env files sfx sel (t # ts) st = writeTransmitters env files sfx sel ts st"
    | (stop) "st' = st" "x \<noteq> None"
    | (emit) wfile where "?P t" "writeBias env (fileNameOutTransmitter files) ''prn'' (name t) sfx (signalBias t) = Inr wfile"
        "writeTransmitters env files sfx sel (t # ts) st =
         writeTransmitters env files sfx sel ts (st\<lparr>filesWritten := filesWritten st @ [wfile]\<rparr>)"
    using Cons.prems by (auto simp: vectorAt_def split: if_splits sum.splits)
  then show ?case
  proof cases
    case skip
    with Cons.prems have "writeTransmitters env files sfx sel ts st = (x, st')" by simp
    moreover have "filter ?P (t # ts) = filter ?P ts" using skip(1) by simp
    ultimately show ?thesis using Cons.IH [of st] by (simp only:)
  next
    case stop
    then show ?thesis by auto
  next
    case emit
    with Cons.prems have "writeTransmitters env files sfx sel ts (st\<lparr>filesWritten := filesWritten st @ [wfile]\<rparr>) = (x, st')"
      by simp
    from Cons.IH [OF this] obtain new where
      new: "filesWritten st' = filesWritten st @ wfile # new"
        "length new \<le> length (filter ?P ts)"
        "x = None \<longrightarrow> length new = length (filter ?P ts)"
        "list_all2 (writtenFor env sfx)
          (take (length new) (map (\<lambda>t. (fileNameOutTransmitter files, ''prn'', name t, signalBias t))
             (filter ?P ts))) new"
      by auto
    have w: "writtenFor env sfx (fileNameOutTransmitter files, ''prn'', name t, signalBias t) wfile"
      by (rule writtenFor_writeBias [OF emit(2)])
    have f: "filter ?P (X # ts) = X # filter ?P ts" if "?P X" for X ts using that by simp
    show ?thesis
      apply (rule exI [of _ "wfile # new"])
      using new w by (simp add: f [OF emit(1)] del: filter.simps)
  qed
qed

lemma writeReceivers_files:
  "writeReceivers env files sfx sel est rs st = (x, st') \<Longrightarrow>
   \<exists>new. filesWritten st' = filesWritten st @ new
     \<and> length new \<le> length (filter (\<lambda>r. isMyRank r \<and> idRecv r < length sel \<and> sel ! idRecv r
                                          \<and> idRecv r < length est \<and> est ! idRecv r) rs)
     \<and> (x = None \<longrightarrow> length new = length (filter (\<lambda>r. isMyRank r \<and> idRecv r < length sel \<and> sel ! idRecv r
                                          \<and> idRecv r < length est \<and> est ! idRecv r) rs))
     \<and> list_all2 (writtenFor env sfx)
          (take (length new) (map (\<lambda>r. (fileNameOutReceiver files, ''station'', name r, signalBias r))
             (filter (\<lambda>r. isMyRank r \<and> idRecv r < length sel \<and> sel ! idRecv r
                                          \<and> idRecv r < length est \<and> est ! idRecv r) rs))) new"
proof (induction rs arbitrary: st)
  case Nil
  then show ?case by simp
next
  case (Cons r rs)
  let ?P = "\<lambda>r. isMyRank r \<and> idRecv r < length sel \<and> sel ! idRecv r
                                          \<and> idRecv r < length est \<and> est ! idRecv r"
  consider (skip) "\<not> ?P r" "writeReceivers env files sfx sel est (r # rs) st = writeReceivers env files sfx sel est rs st"
    | (stop) "st' = st" "x \<noteq> None"
    | (emit) wfile where "?P r" "writeBias env (fileNameOutReceiver files) ''station'' (name r) sfx (signalBias r) = Inr wfile"
        "writeReceivers env files sfx sel est (r # rs) st =
         writeReceivers env files sfx sel est rs (st\<lparr>filesWritten := filesWritten st @ [wfile]\<rparr>)"
    using Cons.prems by (auto simp: receiverWritten_def vectorAt_def split: if_splits sum.splits bool.splits)
  then show ?case
  proof cases
    case skip
    with Cons.prems have "writeReceivers env files sfx sel est rs st = (x, st')" by simp
    moreover have "filter ?P (r # rs) = filter ?P rs" using skip(1) by simp
    ultimately show ?thesis using Cons.IH [of st] by (simp only:)
  next
    case stop
    then show ?thesis by auto
  next
    case emit
    with Cons.prems have "writeReceivers env files sfx sel est rs (st\<lparr>filesWritten := filesWritten st @ [wfile]\<rparr>) = (x, st')"
      by simp
    from Cons.IH [OF this] obtain new where
      new: "filesWritten st' = filesWritten st @ wfile # new"
        "length new \<le> length (filter ?P rs)"
        "x = None \<longrightarrow> length new = length (filter ?P rs)"
        "list_all2 (writtenFor env sfx)
          (take (length new) (map (\<lambda>r. (fileNameOutReceiver files, ''station'', name r, signalBias r))
             (filter ?P rs))) new"
      by auto
    have w: "writtenFor env sfx (fileNameOutReceiver files, ''station'', name r, signalBias r) wfile"
      by (rule writtenFor_writeBias [OF emit(2)])
    have f: "filter ?P (X # ts) = X # filter ?P ts" if "?P X" for X ts using that by simp
    show ?thesis
      apply (rule exI [of _ "wfile # new"])
      using new w by (simp add: f [OF emit(1)] del: filter.simps)
  qed
qed

lemma files_append:
  assumes "length new1 \<le> length S1" "list_all2 R (take (length new1) S1) new1"
    and "length new2 \<le> length S2" "list_all2 R (take (length new2) S2) new2"
    and "new2 \<noteq> [] \<longrightarrow> length new1 = length S1"
  shows "length (new1 @ new2) \<le> length (S1 @ S2)
       \<and> list_all2 R (take (length (new1 @ new2)) (S1 @ S2)) (new1 @ new2)"
proof (cases "length new1 = length S1")
  case True
  then have "take (length (new1 @ new2)) (S1 @ S2) = S1 @ take (length new2) S2"
    by simp
  moreover have "list_all2 R S1 new1" using assms(2) True by simp
  ultimately show ?thesis
    using assms(3,4) True by (simp add: list_all2_appendI)
next
  case False
  with assms(5) have e: "new2 = []" by blast
  have "take (length new1) (S1 @ S2) = take (length new1) S1"
    using assms(1) by simp
  with assms(1,2) e show ?thesis by simp
qed

lemma writeResults_files:
  assumes run: "writeResults env files nei sfx st = (x, st')"
  shows "\<exists>new. filesWritten st' = filesWritten st @ new
     \<and> length new \<le> length
          ((if isEnabled nei \<and> fileNameOutTransmitter files \<noteq> []
                \<and> \<not> isEachReceiverSeparately nei \<and> isMaster nei
            then map (\<lambda>t. (fileNameOutTransmitter files, ''prn'', name t, signalBias t))
                   (filter (\<lambda>t. useable t \<and> idTrans t < length (selectTransmitters env (transmitters st))
                               \<and> selectTransmitters env (transmitters st) ! idTrans t) (transmitters st))
            else [])
           @ (if isEnabled nei \<and> fileNameOutReceiver files \<noteq> []
              then map (\<lambda>r. (fileNameOutReceiver files, ''station'', name r, signalBias r))
                     (filter (\<lambda>r. isMyRank r \<and> idRecv r < length (selectReceivers env (gnssReceivers st))
                                 \<and> selectReceivers env (gnssReceivers st) ! idRecv r
                                 \<and> idRecv r < length (estimateReceiver nei) \<and> estimateReceiver nei ! idRecv r)
                        (gnssReceivers st))
              else []))
     \<and> (x = None \<longrightarrow> length new = length
          ((if isEnabled nei \<and> fileNameOutTransmitter files \<noteq> []
                \<and> \<not> isEachReceiverSeparately nei \<and> isMaster nei
            then map (\<lambda>t. (fileNameOutTransmitter files, ''prn'', name t, signalBias t))
                   (filter (\<lambda>t. useable t \<and> idTrans t < length (selectTransmitters env (transmitters st))
                               \<and> selectTransmitters env (transmitters st) ! idTrans t) (transmitters st))
            else [])
           @ (if isEnabled nei \<and> fileNameOutReceiver files \<noteq> []
              then map (\<lambda>r. (fileNameOutReceiver files, ''station'', name r, signalBias r))
                     (filter (\<lambda>r. isMyRank r \<and> idRecv r < length (selectReceivers env (gnssReceivers st))
                                 \<and> selectReceivers env (gnssReceivers st) ! idRecv r
                                 \<and> idRecv r < length (estimateReceiver nei) \<and> estimateReceiver nei ! idRecv r)
                        (gnssReceivers st))
              else [])))
     \<and> list_all2 (writtenFor env sfx)
         (take (length new)
          ((if isEnabled nei \<and> fileNameOutTransmitter files \<noteq> []
                \<and> \<not> isEachReceiverSeparately nei \<and> isMaster nei
            then map (\<lambda>t. (fileNameOutTransmitter files, ''prn'', name t, signalBias t))
                   (filter (\<lambda>t. useable t \<and> idTrans t < length (selectTransmitters env (transmitters st))
                               \<and> selectTransmitters env (transmitters st) ! idTrans t) (transmitters st))
            else [])
           @ (if isEnabled nei \<and> fileNameOutReceiver files \<noteq> []
              then map (\<lambda>r. (fileNameOutReceiver files, ''station'', name r, signalBias r))
                     (filter (\<lambda>r. isMyRank r \<and> idRecv r < length (selectReceivers env (gnssReceivers st))
                                 \<and> selectReceivers env (gnssReceivers st) ! idRecv r
                                 \<and> idRecv r < length (estimateReceiver nei) \<and> estimateReceiver nei ! idRecv r)
                        (gnssReceivers st))
              else []))) new"
  (is "\<exists>new. _ \<and> length new \<le> length (?S1 @ ?S2) \<and> (_ \<longrightarrow> length new = length (?S1 @ ?S2)) \<and> _")
proof (cases "isEnabled nei")
  case False
  with run have "st' = st" by (simp add: writeResults_def)
  with False show ?thesis by simp
next
  case True
  define condT where "condT = (fileNameOutTransmitter files \<noteq> []
                   \<and> \<not> isEachReceiverSeparately nei \<and> isMaster nei)"
  define tpart where "tpart = (if condT
                then writeTransmitters env files sfx (selectTransmitters env (transmitters st))
                       (transmitters st) st
                else (None, st))"
  obtain x1 st1 where t: "tpart = (x1, st1)" by (cases tpart)
  have fr1: "gnssReceivers st1 = gnssReceivers st"
  proof (cases condT)
    case True
    with t have "writeTransmitters env files sfx (selectTransmitters env (transmitters st)) (transmitters st) st = (x1, st1)"
      by (simp add: tpart_def)
    from writeTransmitters_result [OF this] show ?thesis by simp
  next
    case False
    with t show ?thesis by (auto simp: tpart_def)
  qed
  have "\<exists>new1. filesWritten st1 = filesWritten st @ new1 \<and> length new1 \<le> length ?S1
      \<and> (x1 = None \<longrightarrow> length new1 = length ?S1)
      \<and> list_all2 (writtenFor env sfx) (take (length new1) ?S1) new1"
  proof (cases condT)
    case c: True
    with t have "writeTransmitters env files sfx (selectTransmitters env (transmitters st)) (transmitters st) st = (x1, st1)"
      by (simp add: tpart_def)
    from writeTransmitters_files [OF this] c True show ?thesis
      by (simp add: condT_def)
  next
    case c: False
    with t have "st1 = st" "x1 = None" by (auto simp: tpart_def)
    moreover have "?S1 = []" using c by (auto simp: condT_def)
    ultimately show ?thesis by simp
  qed
  then obtain new1 where n1: "filesWritten st1 = filesWritten st @ new1" "length new1 \<le> length ?S1"
      "x1 = None \<longrightarrow> length new1 = length ?S1"
      "list_all2 (writtenFor env sfx) (take (length new1) ?S1) new1"
    by blast
  define rpart where "rpart = (if fileNameOutReceiver files \<noteq> []
               then writeReceivers env files sfx (selectReceivers env (gnssReceivers st1))
                      (estimateReceiver nei) (gnssReceivers st1) st1
               else (None, st1))"
  have unfold: "writeResults env files nei sfx st = (case x1 of Some e \<Rightarrow> (Some e, st1) | None \<Rightarrow> rpart)"
    using True t by (simp add: writeResults_def condT_def [symmetric] tpart_def [symmetric] rpart_def split: option.splits)
  have "\<exists>new2. filesWritten st' = filesWritten st1 @ new2 \<and> length new2 \<le> length ?S2
      \<and> (x = None \<longrightarrow> length new2 = length ?S2)
      \<and> list_all2 (writtenFor env sfx) (take (length new2) ?S2) new2
      \<and> (new2 \<noteq> [] \<longrightarrow> x1 = None) \<and> (x = None \<longrightarrow> x1 = None)"
  proof (cases x1)
    case (Some e)
    with unfold run have "st' = st1" "x = Some e" by simp_all
    with Some show ?thesis by simp
  next
    case None
    with unfold run have r: "rpart = (x, st')" by simp
    show ?thesis
    proof (cases "fileNameOutReceiver files \<noteq> []")
      case c: True
      with r have "writeReceivers env files sfx (selectReceivers env (gnssReceivers st))
                      (estimateReceiver nei) (gnssReceivers st) st1 = (x, st')"
        by (simp add: rpart_def fr1)
      from writeReceivers_files [OF this] c True None show ?thesis
        by simp
    next
      case c: False
      with r have "st' = st1" "x = None" by (auto simp: rpart_def)
      moreover have "?S2 = []" using c by simp
      ultimately show ?thesis using None by simp
    qed
  qed
  then obtain new2 where n2: "filesWritten st' = filesWritten st1 @ new2" "length new2 \<le> length ?S2"
      "x = None \<longrightarrow> length new2 = length ?S2"
      "list_all2 (writtenFor env sfx) (take (length new2) ?S2) new2"
      "new2 \<noteq> [] \<longrightarrow> x1 = None" "x = None \<longrightarrow> x1 = None"
    by blast
  have link: "new2 \<noteq> [] \<longrightarrow> length new1 = length ?S1" using n1(3) n2(5) by blast
  have fw: "filesWritten st' = filesWritten st @ (new1 @ new2)" using n1(1) n2(1) by simp
  have full: "x = None \<longrightarrow> length (new1 @ new2) = length (?S1 @ ?S2)"
    using n1(3) n2(3) n2(6) by (simp del: map_append)
  from files_append [OF n1(2) n1(4) n2(2) n2(4) link] fw full
  show ?thesis by blast
qed

text \<open>
  C10. \<^verbatim>\<open>writeResults\<close> leaves the transmitters and the receivers of the state as they
  are, and with them every stored bias; it only appends to the files written. The files
  it appends are, in this order, one for every transmitter that is usable and selected
  (when the output file of the transmitters is set, the receivers are not processed
  separately and the process is the master), then one for every receiver of this rank that
  is selected and whose estimation flag is set (when the output file of the receivers is
  set): all of them when \<^verbatim>\<open>writeResults\<close> returns, an initial part of them when it throws.
  The file of a transceiver has the path made of the template, the name of the
  transceiver and the suffix, and holds the wrapped copy of the stored bias of that
  transceiver: the same types, every bias of a phase type replaced by \<^verbatim>\<open>std::remainder\<close>
  of the stored bias and the wavelength \<open>LIGHT_VELOCITY / frequency\<close>, every other bias as
  stored. For a positive wavelength such a written phase bias is at most half a
  wavelength in absolute value.
\<close>

theorem writeResults_wraps_copy:
  "(let run = writeResults env files nei sfx st; result = snd run; c = LIGHT_VELOCITY env;
        selectedTransmitters = selectTransmitters env (transmitters st);
        selectedReceivers = selectReceivers env (gnssReceivers st);
        estimate = estimateReceiver nei;
        sources =
          (if isEnabled nei \<and> fileNameOutTransmitter files \<noteq> []
                \<and> \<not> isEachReceiverSeparately nei \<and> isMaster nei
           then map (\<lambda>t. (fileNameOutTransmitter files, ''prn'', name t, signalBias t))
                  (filter (\<lambda>t. useable t \<and> idTrans t < length selectedTransmitters
                              \<and> selectedTransmitters ! idTrans t) (transmitters st))
           else [])
          @ (if isEnabled nei \<and> fileNameOutReceiver files \<noteq> []
             then map (\<lambda>r. (fileNameOutReceiver files, ''station'', name r, signalBias r))
                    (filter (\<lambda>r. isMyRank r \<and> idRecv r < length selectedReceivers
                                \<and> selectedReceivers ! idRecv r
                                \<and> idRecv r < length estimate \<and> estimate ! idRecv r)
                       (gnssReceivers st))
             else []);
        new = drop (length (filesWritten st)) (filesWritten result)
    in transmitters result = transmitters st
     \<and> gnssReceivers result = gnssReceivers st
     \<and> take (length (filesWritten st)) (filesWritten result) = filesWritten st
     \<and> length new \<le> length sources
     \<and> (fst run = None \<longrightarrow> length new = length sources)
     \<and> list_all2
         (\<lambda>(template, variable, nm, stored) (path, written).
              path = appendBaseName env (expand env template [(variable, nm)]) sfx
            \<and> wrappedCopy c stored written
            \<and> (\<forall>i<length (biases stored).
                  i < length (types stored) \<and> kind (types stored ! i) = PHASE
                    \<and> 0 < c \<and> 0 < frequency (types stored ! i)
                  \<longrightarrow> \<bar>biases written ! i\<bar> \<le> c / frequency (types stored ! i) / 2))
         (take (length new) sources) new)"
proof -
  obtain x st' where run: "writeResults env files nei sfx st = (x, st')"
    by (cases "writeResults env files nei sfx st")
  from writeResults_result [OF run]
  have fr: "transmitters st' = transmitters st" "gnssReceivers st' = gnssReceivers st"
    by simp_all
  define sources where "sources =
          (if isEnabled nei \<and> fileNameOutTransmitter files \<noteq> []
                \<and> \<not> isEachReceiverSeparately nei \<and> isMaster nei
           then map (\<lambda>t. (fileNameOutTransmitter files, ''prn'', name t, signalBias t))
                  (filter (\<lambda>t. useable t \<and> idTrans t < length (selectTransmitters env (transmitters st))
                              \<and> selectTransmitters env (transmitters st) ! idTrans t) (transmitters st))
           else [])
          @ (if isEnabled nei \<and> fileNameOutReceiver files \<noteq> []
             then map (\<lambda>r. (fileNameOutReceiver files, ''station'', name r, signalBias r))
                    (filter (\<lambda>r. isMyRank r \<and> idRecv r < length (selectReceivers env (gnssReceivers st))
                                \<and> selectReceivers env (gnssReceivers st) ! idRecv r
                                \<and> idRecv r < length (estimateReceiver nei) \<and> estimateReceiver nei ! idRecv r)
                       (gnssReceivers st))
             else [])"
  from writeResults_files [OF run, folded sources_def] obtain new where
    fw: "filesWritten st' = filesWritten st @ new"
    and len: "length new \<le> length sources" "x = None \<longrightarrow> length new = length sources"
    and all: "list_all2 (writtenFor env sfx) (take (length new) sources) new"
    by blast
  have rel: "list_all2
         (\<lambda>(template, variable, nm, stored) (path, written).
              path = appendBaseName env (expand env template [(variable, nm)]) sfx
            \<and> wrappedCopy (LIGHT_VELOCITY env) stored written
            \<and> (\<forall>i<length (biases stored).
                  i < length (types stored) \<and> kind (types stored ! i) = PHASE
                    \<and> 0 < LIGHT_VELOCITY env \<and> 0 < frequency (types stored ! i)
                  \<longrightarrow> \<bar>biases written ! i\<bar> \<le> LIGHT_VELOCITY env / frequency (types stored ! i) / 2))
         (take (length new) sources) new"
    using all
  proof (rule list_all2_mono)
    fix source :: "string \<times> string \<times> string \<times> GnssSignalBias" and wfile :: "string \<times> GnssSignalBias"
    assume w: "writtenFor env sfx source wfile"
    obtain template variable nm stored where s: "source = (template, variable, nm, stored)"
      by (cases source)
    obtain path written where f: "wfile = (path, written)" by (cases wfile)
    from w have p: "path = appendBaseName env (expand env template [(variable, nm)]) sfx"
      and c: "wrappedCopy (LIGHT_VELOCITY env) stored written"
      by (simp_all add: writtenFor_def s f)
    have b: "\<forall>i<length (biases stored).
                  i < length (types stored) \<and> kind (types stored ! i) = PHASE
                    \<and> 0 < LIGHT_VELOCITY env \<and> 0 < frequency (types stored ! i)
                  \<longrightarrow> \<bar>biases written ! i\<bar> \<le> LIGHT_VELOCITY env / frequency (types stored ! i) / 2"
    proof (intro allI impI, elim conjE)
      fix i assume "i < length (biases stored)" "i < length (types stored)" "kind (types stored ! i) = PHASE"
        "0 < LIGHT_VELOCITY env" "0 < frequency (types stored ! i)"
      then show "\<bar>biases written ! i\<bar> \<le> LIGHT_VELOCITY env / frequency (types stored ! i) / 2"
        by (rule wrappedCopy_bound [OF c])
    qed
    from p c b show "(case source of (template, variable, nm, stored) \<Rightarrow> \<lambda>(path, written).
              path = appendBaseName env (expand env template [(variable, nm)]) sfx
            \<and> wrappedCopy (LIGHT_VELOCITY env) stored written
            \<and> (\<forall>i<length (biases stored).
                  i < length (types stored) \<and> kind (types stored ! i) = PHASE
                    \<and> 0 < LIGHT_VELOCITY env \<and> 0 < frequency (types stored ! i)
                  \<longrightarrow> \<bar>biases written ! i\<bar> \<le> LIGHT_VELOCITY env / frequency (types stored ! i) / 2)) wfile"
      unfolding s f prod.case by (intro conjI)
  qed
  have res: "snd (writeResults env files nei sfx st) = st'" "fst (writeResults env files nei sfx st) = x"
    by (simp_all add: run)
  have tk: "take (length (filesWritten st)) (filesWritten st') = filesWritten st"
    and dr: "drop (length (filesWritten st)) (filesWritten st') = new"
    by (simp_all add: fw)
  show ?thesis
    unfolding Let_def res tk dr sources_def [symmetric]
    by (intro conjI fr refl len rel)
qed

theorem writeResults_wraps_copy_witness:
  "fst (writeResults exampleEnv exampleFiles exampleInfo ''_a'' exampleWriteState) = None
   \<and> filesWritten (snd (writeResults exampleEnv exampleFiles exampleInfo ''_a'' exampleWriteState))
     = [(''outT[prn=G01]_a'', \<lparr> types = [phaseL1, rangeC1], biases = [- 1, 5] \<rparr>),
        (''outT[prn=G02]_a'', \<lparr> types = [phaseL1, rangeC1], biases = [1 / 2, 9] \<rparr>),
        (''outR[station=GRAZ]_a'', emptyBias)]
   \<and> transmitters (snd (writeResults exampleEnv exampleFiles exampleInfo ''_a'' exampleWriteState))
     = [satelliteG01, satelliteG02]
   \<and> gnssReceivers (snd (writeResults exampleEnv exampleFiles exampleInfo ''_a'' exampleWriteState))
     = [stationGRAZ]
   \<and> signalBias satelliteG01 = \<lparr> types = [phaseL1, rangeC1], biases = [7, 5] \<rparr>
   \<and> signalBias satelliteG02 = \<lparr> types = [phaseL1, rangeC1], biases = [5 / 2, 9] \<rparr>
   \<and> signalBias stationGRAZ = emptyBias
   \<and> kind phaseL1 = PHASE \<and> 0 < LIGHT_VELOCITY exampleEnv \<and> 0 < frequency phaseL1
   \<and> LIGHT_VELOCITY exampleEnv / frequency phaseL1 / 2 = 1"
proof -
  have wl: "LIGHT_VELOCITY exampleEnv / frequency phaseL1 = 2"
    by (simp add: exampleEnv_def phaseL1_def)
  have ne: "nearestEven (7 / 2) = 4" "nearestEven (5 / 4) = 1"
    by (simp_all add: nearestEven_def)
  have rem: "remainder 7 2 = - 1" "remainder (5 / 2) 2 = 1 / 2"
    by (simp_all add: remainder_def ne)
  have k: "kind phaseL1 = PHASE" "kind rangeC1 = RANGE"
    by (simp_all add: phaseL1_def rangeC1_def)
  have ex: "appendBaseName exampleEnv (expand exampleEnv ''outT'' [(''prn'', ''G01'')]) ''_a'' = ''outT[prn=G01]_a''"
      "appendBaseName exampleEnv (expand exampleEnv ''outT'' [(''prn'', ''G02'')]) ''_a'' = ''outT[prn=G02]_a''"
      "appendBaseName exampleEnv (expand exampleEnv ''outR'' [(''station'', ''GRAZ'')]) ''_a'' = ''outR[station=GRAZ]_a''"
      "writeFileGnssSignalBias exampleEnv p b = None" for p b
    by (simp_all add: exampleEnv_def exampleExpand_def)
  have wb: "writeBias exampleEnv ''outT'' ''prn'' ''G01'' ''_a'' \<lparr> types = [phaseL1, rangeC1], biases = [7, 5] \<rparr>
      = Inr (''outT[prn=G01]_a'', \<lparr> types = [phaseL1, rangeC1], biases = [- 1, 5] \<rparr>)"
     "writeBias exampleEnv ''outT'' ''prn'' ''G02'' ''_a'' \<lparr> types = [phaseL1, rangeC1], biases = [5 / 2, 9] \<rparr>
      = Inr (''outT[prn=G02]_a'', \<lparr> types = [phaseL1, rangeC1], biases = [1 / 2, 9] \<rparr>)"
     "writeBias exampleEnv ''outR'' ''station'' ''GRAZ'' ''_a'' emptyBias
      = Inr (''outR[station=GRAZ]_a'', emptyBias)"
    by (simp_all add: writeBias_def numeral_2_eq_2 k vectorAt_def wl rem ex emptyBias_def)
  have us: "useable satelliteG01" "useable satelliteG02"
    by (simp_all add: useable_def satelliteG01_def satelliteG02_def)
  have fields: "name satelliteG01 = ''G01''" "idTrans satelliteG01 = 0"
      "signalBias satelliteG01 = \<lparr> types = [phaseL1, rangeC1], biases = [7, 5] \<rparr>"
      "name satelliteG02 = ''G02''" "idTrans satelliteG02 = Suc 0"
      "signalBias satelliteG02 = \<lparr> types = [phaseL1, rangeC1], biases = [5 / 2, 9] \<rparr>"
      "name stationGRAZ = ''GRAZ''" "idRecv stationGRAZ = 0" "isMyRank stationGRAZ"
      "signalBias stationGRAZ = emptyBias"
    by (simp_all add: satelliteG01_def satelliteG02_def stationGRAZ_def exampleStation_def)
  have sel: "selectTransmitters exampleEnv [satelliteG01, satelliteG02] = [True, True]"
      "selectReceivers exampleEnv [stationGRAZ] = [True]"
    by (simp_all add: exampleEnv_def)
  have rw: "receiverWritten [True] [True] stationGRAZ = Inr True"
    by (simp add: receiverWritten_def fields vectorAt_def)
  have run: "writeResults exampleEnv exampleFiles exampleInfo ''_a'' exampleWriteState
      = (None, exampleWriteState\<lparr>filesWritten :=
           [(''outT[prn=G01]_a'', \<lparr> types = [phaseL1, rangeC1], biases = [- 1, 5] \<rparr>),
            (''outT[prn=G02]_a'', \<lparr> types = [phaseL1, rangeC1], biases = [1 / 2, 9] \<rparr>),
            (''outR[station=GRAZ]_a'', emptyBias)]\<rparr>)"
    by (simp add: writeResults_def exampleInfo_def exampleFiles_def exampleWriteState_def sel us fields
          vectorAt_def wb rw)
  have pos: "0 < LIGHT_VELOCITY exampleEnv" "0 < frequency phaseL1"
    by (simp_all add: exampleEnv_def phaseL1_def)
  have st: "transmitters exampleWriteState = [satelliteG01, satelliteG02]"
      "gnssReceivers exampleWriteState = [stationGRAZ]" "filesWritten exampleWriteState = []"
    by (simp_all add: exampleWriteState_def)
  show ?thesis
    using writeResults_wraps_copy [of exampleEnv exampleFiles exampleInfo "''_a''" exampleWriteState]
    by (simp add: run fields k pos wl st)
qed

section \<open>Properties that span both files\<close>

subsection \<open>The usability test of a station\<close>








section \<open>Properties of the set-up of the network\<close>

subsection \<open>Epochs without a complete antenna\<close>

lemma useableEpoch_disableEpoch:
  "useableEpoch (disableEpoch j r) i = (useableEpoch r i \<and> i \<noteq> j)"
  by (cases "i = j") (auto simp: useableEpoch_def disableEpoch_def)

lemma useableEpoch_update_series:
  "useableEpoch (r\<lparr>offset := x, local2antenna := y\<rparr>) i = useableEpoch r i"
  by (simp add: useableEpoch_def)

lemma setupEpochs_result:
  assumes "\<forall>i\<in>set ids. \<forall>idAnt. findAntenna env (info recv) (tms ! i) = Some idAnt
             \<longrightarrow> idAnt < length (antenna (info recv))"
  shows "\<exists>recv'. setupEpochs env tms ids recv = Inr recv' \<and> info recv' = info recv
           \<and> name recv' = name recv \<and> isMyRank recv' = isMyRank recv
           \<and> (\<forall>i. useableEpoch recv' i
                 = (useableEpoch recv i \<and> (i \<in> set ids \<longrightarrow> antennaComplete env (info recv) (tms ! i))))"
  using assms
proof (induction ids arbitrary: recv)
  case Nil
  then show ?case by simp
next
  case (Cons idEpoch ids)
  define ok where "ok = antennaComplete env (info recv) (tms ! idEpoch)"
  define recv1 where "recv1 = (if ok
      then (case findAntenna env (info recv) (tms ! idEpoch) of
              Some idAnt \<Rightarrow> recv\<lparr> offset := (offset recv)
                  [idEpoch := minus3d (position (antenna (info recv) ! idAnt)) (referencePoint env (info recv) (tms ! idEpoch))],
                  local2antenna := (local2antenna recv)[idEpoch := local2antennaFrame (antenna (info recv) ! idAnt)] \<rparr>
            | None \<Rightarrow> recv)
      else disableEpoch idEpoch recv)"
  have range: "\<forall>idAnt. findAntenna env (info recv) (tms ! idEpoch) = Some idAnt
             \<longrightarrow> idAnt < length (antenna (info recv))"
    using Cons.prems by simp
  have step: "setupEpochs env tms (idEpoch # ids) recv = setupEpochs env tms ids recv1"
    using range by (auto simp: recv1_def ok_def antennaComplete_def vectorAt_def split: option.splits)
  have inf: "info recv1 = info recv" and nm: "name recv1 = name recv" and mr: "isMyRank recv1 = isMyRank recv"
    by (auto simp: recv1_def disableEpoch_def split: option.splits)
  have use: "useableEpoch recv1 i = (useableEpoch recv i \<and> (i = idEpoch \<longrightarrow> ok))" for i
    by (auto simp: recv1_def useableEpoch_disableEpoch useableEpoch_update_series ok_def antennaComplete_def
          split: option.splits)
  have "\<forall>i\<in>set ids. \<forall>idAnt. findAntenna env (info recv1) (tms ! i) = Some idAnt
             \<longrightarrow> idAnt < length (antenna (info recv1))"
    using Cons.prems by (simp add: inf)
  from Cons.IH [OF this] obtain recv' where r: "setupEpochs env tms ids recv1 = Inr recv'"
      "info recv' = info recv1" "name recv' = name recv1" "isMyRank recv' = isMyRank recv1"
      "\<forall>i. useableEpoch recv' i
                 = (useableEpoch recv1 i \<and> (i \<in> set ids \<longrightarrow> antennaComplete env (info recv1) (tms ! i)))"
    by blast
  have "\<forall>i. useableEpoch recv' i
                 = (useableEpoch recv i \<and> (i \<in> set (idEpoch # ids) \<longrightarrow> antennaComplete env (info recv) (tms ! i)))"
    using r(5) by (auto simp: use inf ok_def)
  with r(1-4) step inf nm mr show ?case by simp
qed


lemma sizedReceiver_fields:
  "info (sizedReceiver tms recv) = info recv" "name (sizedReceiver tms recv) = name recv"
  "useableEpochs (sizedReceiver tms recv) = useableEpochs recv" "isMyRank (sizedReceiver tms recv)"
  by (simp_all add: sizedReceiver_def)

lemma useableEpoch_sizedReceiver: "useableEpoch (sizedReceiver tms recv) i = useableEpoch recv i"
  by (simp add: useableEpoch_def sizedReceiver_fields)

text \<open>
  C8. When \<^verbatim>\<open>findAntenna\<close> only gives indices of antennas of the station, the loop over the
  epochs in \<^verbatim>\<open>init\<close> returns, and in the receiver it returns an epoch of the time axis is
  usable exactly when it was usable before and the station has, at the time of the epoch,
  an antenna with an antenna definition and an accuracy definition; epochs beyond the time
  axis are as before. The body of the loop over the alternatives then goes on with this
  receiver: in the simulation case the alternative is taken, otherwise its observations
  are read.
\<close>

theorem epoch_defect_disables_epoch:
  assumes "\<forall>i<length tms. \<forall>idAnt. findAntenna env (info recv) (tms ! i) = Some idAnt
             \<longrightarrow> idAnt < length (antenna (info recv))"
  shows "\<exists>recv'. setupEpochs env tms [0..<length tms] (sizedReceiver tms recv) = Inr recv'
     \<and> (\<forall>i<length tms. useableEpoch recv' i
            = (useableEpoch recv i \<and> antennaComplete env (info recv) (tms ! i)))
     \<and> (\<forall>i. length tms \<le> i \<longrightarrow> useableEpoch recv' i = useableEpoch recv i)
     \<and> testAlternative env cfg tms k recv =
         (if fileNameObs cfg = [] then (Some 1, recv', [])
          else case readObservations env (expandName env (fileNameObs cfg) [(''station'', name recv)]) recv' of
                 (Some e, recv3) \<Rightarrow> (None, recv3, [name recv3 @ '' disabled: '' @ e])
               | (None, recv3) \<Rightarrow>
                   (if belowEstimableRatio (countEpochs recv3 (length tms)) (observationSampling recv3)
                         (minEstimableEpochsRatio cfg) (length tms) (medianSampling env tms)
                    then (None, recv3, [])
                    else (Some (k + 1), recv3, [])))"
proof -
  have "\<forall>i\<in>set [0..<length tms]. \<forall>idAnt.
          findAntenna env (info (sizedReceiver tms recv)) (tms ! i) = Some idAnt
             \<longrightarrow> idAnt < length (antenna (info (sizedReceiver tms recv)))"
    using assms by (simp add: sizedReceiver_fields)
  from setupEpochs_result [OF this] obtain recv' where
    run: "setupEpochs env tms [0..<length tms] (sizedReceiver tms recv) = Inr recv'"
    and use: "\<forall>i. useableEpoch recv' i
                 = (useableEpoch (sizedReceiver tms recv) i
                     \<and> (i \<in> set [0..<length tms]
                          \<longrightarrow> antennaComplete env (info (sizedReceiver tms recv)) (tms ! i)))"
    by blast
  have a: "\<forall>i<length tms. useableEpoch recv' i
            = (useableEpoch recv i \<and> antennaComplete env (info recv) (tms ! i))"
    using use by (simp add: useableEpoch_sizedReceiver sizedReceiver_fields)
  have b: "\<forall>i. length tms \<le> i \<longrightarrow> useableEpoch recv' i = useableEpoch recv i"
    using use by (simp add: useableEpoch_sizedReceiver)
  have c: "testAlternative env cfg tms k recv =
         (if fileNameObs cfg = [] then (Some 1, recv', [])
          else case readObservations env (expandName env (fileNameObs cfg) [(''station'', name recv)]) recv' of
                 (Some e, recv3) \<Rightarrow> (None, recv3, [name recv3 @ '' disabled: '' @ e])
               | (None, recv3) \<Rightarrow>
                   (if belowEstimableRatio (countEpochs recv3 (length tms)) (observationSampling recv3)
                         (minEstimableEpochsRatio cfg) (length tms) (medianSampling env tms)
                    then (None, recv3, [])
                    else (Some (k + 1), recv3, [])))"
    by (simp add: testAlternative_def run)
  from run a b c show ?thesis by blast
qed


theorem epoch_defect_disables_epoch_witness:
  "(\<exists>recv'. setupEpochs exampleNetworkEnv [0, 1, 2, 3] [0..<length [0, 1, 2, 3 :: real]]
              (sizedReceiver [0, 1, 2, 3] (newReceiver exampleNetworkEnv 4 ''GRAZ'' exampleStationInfo)) = Inr recv'
      \<and> useableEpochs recv' = [True, True, False, False]
      \<and> offset recv' = [(1, 2, 3), (1, 2, 3), (0, 0, 0), (0, 0, 0)]
      \<and> useable recv'
      \<and> testAlternative exampleNetworkEnv simulationConfig [0, 1, 2, 3] 0
           (newReceiver exampleNetworkEnv 4 ''GRAZ'' exampleStationInfo) = (Some 1, recv', []))
   \<and> antennaComplete exampleNetworkEnv exampleStationInfo 1
   \<and> \<not> antennaComplete exampleNetworkEnv exampleStationInfo 2
   \<and> \<not> antennaComplete exampleNetworkEnv exampleStationInfo 3"
proof -
  define recv where "recv = newReceiver exampleNetworkEnv 4 ''GRAZ'' exampleStationInfo"
  define tms :: "Time list" where "tms = [0, 1, 2, 3]"
  define result :: "unit GnssReceiver" where "result =
      \<lparr> name = ''GRAZ'', useableEpochs = [True, True, False, False], signalBias = emptyBias, idRecv = 0,
        isMyRank = True, observationSampling = 30, info = exampleStationInfo,
        offset = [(1, 2, 3), (1, 2, 3), (0, 0, 0), (0, 0, 0)],
        local2antenna = [[1, 0, 0, 0, 1, 0, 0, 0, 1], [1, 0, 0, 0, 1, 0, 0, 0, 1],
                         [1, 0, 0, 0, 1, 0, 0, 0, 1], [1, 0, 0, 0, 1, 0, 0, 0, 1]], obs = () \<rparr>"
  have inf: "info recv = exampleStationInfo"
    by (simp add: recv_def newReceiver_def)
  have fa: "findAntenna exampleNetworkEnv = (\<lambda>stationInfo t. if t < 2 then Some 0 else if t < 3 then Some 1 else None)"
    and rp: "referencePoint exampleNetworkEnv = (\<lambda>stationInfo t. (0, 0, 0))"
    by (simp_all add: exampleNetworkEnv_def)
  have ants: "antenna exampleStationInfo = [antennaFull, antennaNoAccuracy]"
    by (simp add: exampleStationInfo_def)
  have hyp: "\<forall>i<length tms. \<forall>idAnt. findAntenna exampleNetworkEnv (info recv) (tms ! i) = Some idAnt
             \<longrightarrow> idAnt < length (antenna (info recv))"
    by (auto simp: inf fa ants split: if_splits)
  have run: "setupEpochs exampleNetworkEnv tms [0..<length tms] (sizedReceiver tms recv) = Inr result"
    by (simp add: tms_def result_def sizedReceiver_def recv_def newReceiver_def exampleStation_def
          resize_def fa rp ants vectorAt_def antennaFull_def antennaNoAccuracy_def
          disableEpoch_def minus3d_def exampleStationInfo_def)
      (simp add: exampleNetworkEnv_def exampleStation_def numeral_eq_Suc)
  have sim: "fileNameObs simulationConfig = []"
    by (simp add: simulationConfig_def)
  from epoch_defect_disables_epoch [OF hyp, of simulationConfig 0] obtain recv' where
    r: "setupEpochs exampleNetworkEnv tms [0..<length tms] (sizedReceiver tms recv) = Inr recv'"
    and t: "testAlternative exampleNetworkEnv simulationConfig tms 0 recv = (Some 1, recv', [])"
    by (auto simp: sim)
  from r run have eq: "recv' = result" by simp
  have ac: "antennaComplete exampleNetworkEnv exampleStationInfo 1"
      "\<not> antennaComplete exampleNetworkEnv exampleStationInfo 2"
      "\<not> antennaComplete exampleNetworkEnv exampleStationInfo 3"
    by (simp_all add: antennaComplete_def fa ants antennaFull_def antennaNoAccuracy_def)
  have fields: "useableEpochs result = [True, True, False, False]"
      "offset result = [(1, 2, 3), (1, 2, 3), (0, 0, 0), (0, 0, 0)]" "useable result"
    by (simp_all add: result_def useable_def)
  have "setupEpochs exampleNetworkEnv tms [0..<length tms] (sizedReceiver tms recv) = Inr result
      \<and> useableEpochs result = [True, True, False, False]
      \<and> offset result = [(1, 2, 3), (1, 2, 3), (0, 0, 0), (0, 0, 0)]
      \<and> useable result
      \<and> testAlternative exampleNetworkEnv simulationConfig tms 0 recv = (Some 1, result, [])"
    using run fields t eq by simp
  then have "\<exists>recv'. setupEpochs exampleNetworkEnv tms [0..<length tms] (sizedReceiver tms recv) = Inr recv'
      \<and> useableEpochs recv' = [True, True, False, False]
      \<and> offset recv' = [(1, 2, 3), (1, 2, 3), (0, 0, 0), (0, 0, 0)]
      \<and> useable recv'
      \<and> testAlternative exampleNetworkEnv simulationConfig tms 0 recv = (Some 1, recv', [])"
    by (rule exI)
  with ac show ?thesis
    unfolding recv_def tms_def by (intro conjI)
qed

subsection \<open>The alternative selected for a station\<close>

lemma testAlternative_observations:
  assumes "fileNameObs cfg \<noteq> []"
  shows "fst (testAlternative env cfg tms k recv) = (if readsAndPasses env cfg tms recv then Some (k + 1) else None)"
  using assms
  by (auto simp: testAlternative_def readsAndPasses_def Let_def split: sum.splits prod.splits option.splits)

lemma testAlternatives_first:
  assumes obs: "fileNameObs cfg \<noteq> []"
  shows "testAlternatives env cfg tms k alts = (a, alts', w) \<Longrightarrow>
    length alts' = length alts \<and>
    a = (if length (takeWhile (\<lambda>recv. \<not> readsAndPasses env cfg tms recv) alts) < length alts
         then k + length (takeWhile (\<lambda>recv. \<not> readsAndPasses env cfg tms recv) alts) + 1 else 0) \<and>
    drop (length (takeWhile (\<lambda>recv. \<not> readsAndPasses env cfg tms recv) alts) + 1) alts'
      = drop (length (takeWhile (\<lambda>recv. \<not> readsAndPasses env cfg tms recv) alts) + 1) alts"
proof (induction alts arbitrary: k a alts' w)
  case Nil
  then show ?case by simp
next
  case (Cons recv rest)
  obtain x recv' warned where t: "testAlternative env cfg tms k recv = (x, recv', warned)"
    by (cases "testAlternative env cfg tms k recv")
  have x: "x = (if readsAndPasses env cfg tms recv then Some (k + 1) else None)"
    using testAlternative_observations [OF obs, of env tms k recv] t by simp
  show ?case
  proof (cases "readsAndPasses env cfg tms recv")
    case True
    with x t Cons.prems show ?thesis by auto
  next
    case False
    obtain a2 rest' w2 where r: "testAlternatives env cfg tms (k + 1) rest = (a2, rest', w2)"
      by (cases "testAlternatives env cfg tms (k + 1) rest")
    from False x t r Cons.prems have res: "a = a2" "alts' = recv' # rest'" by auto
    from Cons.IH [OF r] False res show ?thesis by auto
  qed
qed

lemma setupAlternative_exists:
  assumes "fileNameObs cfg \<noteq> []" and "fst (setupAlternative env cfg tms nm) = Some recv"
  shows "fileExists env (expandName env (fileNameObs cfg) [(''station'', name recv)])"
  using assms
  by (auto simp: setupAlternative_def newReceiver_def Let_def split: if_splits sum.splits option.splits)

lemma alternativesOf_exist:
  assumes "fileNameObs cfg \<noteq> []" and "recv \<in> set (alternativesOf env cfg tms names)"
  shows "fileExists env (expandName env (fileNameObs cfg) [(''station'', name recv)])"
proof -
  from assms(2) obtain nm where "fst (setupAlternative env cfg tms nm) = Some recv"
    by (auto simp: alternativesOf_def List.map_filter_def)
  with assms(1) show ?thesis by (rule setupAlternative_exists)
qed

lemma storeReceivers_from:
  "storeReceivers maxCount alt rwa ids acc = Inr rs \<Longrightarrow>
   \<exists>rest. rs = acc @ rest \<and> prefix rest (map (\<lambda>j. rwa ! j ! (alt ! j - 1)) (filter (\<lambda>j. 0 < alt ! j) ids))"
proof (induction ids arbitrary: acc)
  case Nil
  then show ?case by simp
next
  case (Cons i ids)
  show ?case
  proof (cases "0 < alt ! i")
    case False
    with Cons.prems have "storeReceivers maxCount alt rwa ids acc = Inr rs" by simp
    from Cons.IH [OF this] False show ?thesis by simp
  next
    case True
    show ?thesis
    proof (cases "alt ! i - 1 < length (rwa ! i)")
      case False
      with True Cons.prems show ?thesis by (simp add: vectorAt_def)
    next
      case inRange: True
      define recv where "recv = rwa ! i ! (alt ! i - 1)"
      show ?thesis
      proof (cases "maxCount \<le> length (acc @ [recv])")
        case True
        with \<open>0 < alt ! i\<close> inRange Cons.prems have "rs = acc @ [recv]"
          by (simp add: vectorAt_def recv_def)
        with \<open>0 < alt ! i\<close> show ?thesis by (simp add: recv_def)
      next
        case False
        with \<open>0 < alt ! i\<close> inRange Cons.prems
        have "storeReceivers maxCount alt rwa ids (acc @ [recv]) = Inr rs"
          by (simp add: vectorAt_def recv_def)
        from Cons.IH [OF this] obtain rest where "rs = (acc @ [recv]) @ rest"
            "prefix rest (map (\<lambda>j. rwa ! j ! (alt ! j - 1)) (filter (\<lambda>j. 0 < alt ! j) ids))"
          by blast
        with \<open>0 < alt ! i\<close> show ?thesis by (simp add: recv_def)
      qed
    qed
  qed
qed


text \<open>The loop over the stations in one process after \<open>k\<close> passes.\<close>

lemma readStations_prefix:
  "k \<le> length rwa \<Longrightarrow>
   foldl (readStationStep env cfg tms nProc myRank)
     \<lparr> alternatives = rwa, receiverAlternative = replicate (length rwa) 0, readWarnings = [] \<rparr> [0..<k] =
   \<lparr> alternatives = map (\<lambda>i. if i mod nProc = myRank
                               then fst (snd (testAlternatives env cfg tms 0 (rwa ! i))) else rwa ! i) [0..<k]
                     @ drop k rwa,
     receiverAlternative = map (\<lambda>i. if i mod nProc = myRank
                               then fst (testAlternatives env cfg tms 0 (rwa ! i)) else 0) [0..<k]
                     @ replicate (length rwa - k) 0,
     readWarnings = concat (map (\<lambda>i. if i mod nProc = myRank
                               then snd (snd (testAlternatives env cfg tms 0 (rwa ! i))) else []) [0..<k]) \<rparr>"
proof (induction k)
  case 0
  then show ?case by simp
next
  case (Suc k)
  then have k: "k < length rwa" by simp
  have nth: "\<And>f. (map f [0..<k] @ drop k rwa) ! k = rwa ! k"
    using k by (simp add: nth_append)
  have upd: "\<And>f x. (map f [0..<k] @ drop k rwa)[k := x] = map f [0..<k] @ x # drop (Suc k) rwa"
    using k by (simp add: list_update_append Cons_nth_drop_Suc [symmetric])
  have rep: "replicate (length rwa - k) (0::nat) = 0 # replicate (length rwa - Suc k) 0"
    using k by (simp add: Suc_diff_Suc replicate_Suc [symmetric] del: replicate_Suc)
  have upd2: "\<And>f x. (map f [0..<k] @ replicate (length rwa - k) (0::nat))[k := x]
      = map f [0..<k] @ x # replicate (length rwa - Suc k) 0"
    by (simp add: rep list_update_append)
  show ?case
  proof (cases "k mod nProc = myRank")
    case True
    with Suc.IH k show ?thesis
      by (simp add: readStationStep_def nth upd upd2 split: prod.splits)
  next
    case False
    with Suc.IH k show ?thesis
      by (simp add: readStationStep_def Cons_nth_drop_Suc rep)
  qed
qed

lemma readStations_eq:
  "readStations env cfg tms nProc myRank rwa =
   \<lparr> alternatives = map (\<lambda>i. if i mod nProc = myRank
                               then fst (snd (testAlternatives env cfg tms 0 (rwa ! i))) else rwa ! i)
                        [0..<length rwa],
     receiverAlternative = map (\<lambda>i. if i mod nProc = myRank
                               then fst (testAlternatives env cfg tms 0 (rwa ! i)) else 0) [0..<length rwa],
     readWarnings = concat (map (\<lambda>i. if i mod nProc = myRank
                               then snd (snd (testAlternatives env cfg tms 0 (rwa ! i))) else [])
                        [0..<length rwa]) \<rparr>"
  using readStations_prefix [of "length rwa" rwa env cfg tms nProc myRank]
  by (simp add: readStations_def)

lemma sum_list_single:
  "sum_list (map (\<lambda>r. if c = r then x else (0::nat)) [0..<m]) = (if c < m then x else 0)"
  by (induction m) auto

lemma sumVectors_readStations:
  assumes "0 < nProc"
  shows "sumVectors (length rwa)
           (map (\<lambda>myRank. receiverAlternative (readStations env cfg tms nProc myRank rwa)) [0..<nProc])
         = map (\<lambda>alts. fst (testAlternatives env cfg tms 0 alts)) rwa"
proof (rule nth_equalityI)
  show "length (sumVectors (length rwa)
           (map (\<lambda>myRank. receiverAlternative (readStations env cfg tms nProc myRank rwa)) [0..<nProc]))
      = length (map (\<lambda>alts. fst (testAlternatives env cfg tms 0 alts)) rwa)"
    by (simp add: sumVectors_def)
next
  fix i assume "i < length (sumVectors (length rwa)
           (map (\<lambda>myRank. receiverAlternative (readStations env cfg tms nProc myRank rwa)) [0..<nProc]))"
  then have i: "i < length rwa" by (simp add: sumVectors_def)
  have "sumVectors (length rwa)
           (map (\<lambda>myRank. receiverAlternative (readStations env cfg tms nProc myRank rwa)) [0..<nProc]) ! i
      = sum_list (map (\<lambda>r. if i mod nProc = r then fst (testAlternatives env cfg tms 0 (rwa ! i)) else 0) [0..<nProc])"
    using i by (simp add: sumVectors_def readStations_eq comp_def cong: if_cong)
  also have "\<dots> = fst (testAlternatives env cfg tms 0 (rwa ! i))"
    using assms by (simp add: sum_list_single)
  finally show "sumVectors (length rwa)
           (map (\<lambda>myRank. receiverAlternative (readStations env cfg tms nProc myRank rwa)) [0..<nProc]) ! i
      = map (\<lambda>alts. fst (testAlternatives env cfg tms 0 alts)) rwa ! i"
    using i by simp
qed

lemma receiverAlternative_global:
  assumes "0 < nProc" and "myRank < nProc"
  shows "receiverAlternativeAfterBroadCast env cfg tms nProc rwa ! myRank
         = map (\<lambda>alts. fst (testAlternatives env cfg tms 0 alts)) rwa"
  using assms
  by (simp add: receiverAlternativeAfterBroadCast_def broadCast_def reduceSumVector_def
        sumVectors_readStations)


lemma claimedAlternative_alternativesOf:
  assumes obs: "fileNameObs cfg \<noteq> []"
  shows "fst (testAlternatives env cfg tms 0 (alternativesOf env cfg tms names))
         = claimedAlternative env cfg tms (alternativesOf env cfg tms names)"
proof -
  define alts where "alts = alternativesOf env cfg tms names"
  have same: "takeWhile (\<lambda>recv. \<not> qualifies env cfg tms recv) alts
      = takeWhile (\<lambda>recv. \<not> readsAndPasses env cfg tms recv) alts"
    by (rule takeWhile_cong) (auto simp: qualifies_def alts_def alternativesOf_exist [OF obs])
  obtain a alts' w where t: "testAlternatives env cfg tms 0 alts = (a, alts', w)"
    by (cases "testAlternatives env cfg tms 0 alts")
  from testAlternatives_first [OF obs t] show ?thesis
    unfolding alts_def [symmetric] by (simp add: t claimedAlternative_def same)
qed

lemma receiversWithAlternatives_member:
  assumes "alts \<in> set (receiversWithAlternatives env cfg tms stationName)"
  shows "\<exists>names. alts = alternativesOf env cfg tms names"
  using assms by (auto simp: receiversWithAlternatives_def)

text \<open>
  C9 (amended). When an observation file name is configured, every process holds after
  the broadcast, for every station, one more than the index of the first alternative in
  list order whose observation file exists, whose set-up and reading return without an
  exception and whose count of usable epochs times the sampling is not below the bound,
  and zero when there is none. In the process that works on the station the alternatives
  after the selected one are as they were. The receivers stored are taken in order from
  the stations with a positive value, so a station with the value zero is not stored.
\<close>

theorem first_qualifying_alternative:
  assumes obs: "fileNameObs cfg \<noteq> []" and procs: "0 < nProc" "myRank < nProc"
  shows
   "(let rwa = receiversWithAlternatives env cfg tms stationName;
         selected = receiverAlternativeAfterBroadCast env cfg tms nProc rwa ! myRank;
         held = alternatives (readStations env cfg tms nProc myRank rwa)
     in selected = map (claimedAlternative env cfg tms) rwa
      \<and> (\<forall>i<length rwa. i mod nProc = myRank \<longrightarrow>
            length (held ! i) = length (rwa ! i)
            \<and> (0 < selected ! i \<longrightarrow> drop (selected ! i) (held ! i) = drop (selected ! i) (rwa ! i)))
      \<and> (\<forall>rs. storedReceivers env cfg tms stationName nProc myRank = Inr rs \<longrightarrow>
            prefix rs (map (\<lambda>i. held ! i ! (selected ! i - 1))
                         (filter (\<lambda>i. 0 < selected ! i) [0..<length rwa]))))"
proof -
  define rwa where "rwa = receiversWithAlternatives env cfg tms stationName"
  define selected where "selected = receiverAlternativeAfterBroadCast env cfg tms nProc rwa ! myRank"
  define held where "held = alternatives (readStations env cfg tms nProc myRank rwa)"
  have sel: "selected = map (\<lambda>alts. fst (testAlternatives env cfg tms 0 alts)) rwa"
    unfolding selected_def by (rule receiverAlternative_global [OF procs])
  have each: "fst (testAlternatives env cfg tms 0 alts) = claimedAlternative env cfg tms alts"
    if "alts \<in> set rwa" for alts
  proof -
    from that obtain names where "alts = alternativesOf env cfg tms names"
      unfolding rwa_def by (auto dest: receiversWithAlternatives_member)
    then show ?thesis by (simp add: claimedAlternative_alternativesOf [OF obs])
  qed
  have a: "selected = map (claimedAlternative env cfg tms) rwa"
    unfolding sel by (rule map_cong) (simp_all add: each)
  have b: "\<forall>i<length rwa. i mod nProc = myRank \<longrightarrow>
            length (held ! i) = length (rwa ! i)
            \<and> (0 < selected ! i \<longrightarrow> drop (selected ! i) (held ! i) = drop (selected ! i) (rwa ! i))"
  proof (intro allI impI)
    fix i assume i: "i < length rwa" and mine: "i mod nProc = myRank"
    obtain a alts' w where t: "testAlternatives env cfg tms 0 (rwa ! i) = (a, alts', w)"
      by (cases "testAlternatives env cfg tms 0 (rwa ! i)")
    have h: "held ! i = alts'" and s: "selected ! i = a"
      using i mine t by (simp_all add: held_def readStations_eq sel)
    from testAlternatives_first [OF obs t]
    show "length (held ! i) = length (rwa ! i)
            \<and> (0 < selected ! i \<longrightarrow> drop (selected ! i) (held ! i) = drop (selected ! i) (rwa ! i))"
      unfolding h s by (auto split: if_splits)
  qed
  have c: "\<forall>rs. storedReceivers env cfg tms stationName nProc myRank = Inr rs \<longrightarrow>
            prefix rs (map (\<lambda>i. held ! i ! (selected ! i - 1))
                         (filter (\<lambda>i. 0 < selected ! i) [0..<length rwa]))"
  proof (intro allI impI)
    fix rs assume "storedReceivers env cfg tms stationName nProc myRank = Inr rs"
    then have "storeReceivers (maxStationCount cfg) selected held [0..<length rwa] [] = Inr rs"
      by (simp add: storedReceivers_def Let_def rwa_def selected_def held_def)
    from storeReceivers_from [OF this]
    show "prefix rs (map (\<lambda>i. held ! i ! (selected ! i - 1))
                         (filter (\<lambda>i. 0 < selected ! i) [0..<length rwa]))"
      by simp
  qed
  show ?thesis
    unfolding Let_def rwa_def [symmetric] selected_def [symmetric] held_def [symmetric]
    by (intro conjI a b c)
qed


text \<open>The example network, evaluated.\<close>

lemma example_setupEpochs:
  "setupEpochs exampleNetworkEnv exampleTimes [0..<length exampleTimes]
     (sizedReceiver exampleTimes (newReceiver exampleNetworkEnv 4 nm exampleStationInfo))
   = Inr (exampleSetUp nm)"
proof -
  have fa: "findAntenna exampleNetworkEnv = (\<lambda>stationInfo t. if t < 2 then Some 0 else if t < 3 then Some 1 else None)"
    and rp: "referencePoint exampleNetworkEnv = (\<lambda>stationInfo t. (0, 0, 0))"
    by (simp_all add: exampleNetworkEnv_def)
  show ?thesis
    by (simp add: exampleTimes_def exampleSetUp_def sizedReceiver_def newReceiver_def exampleStation_def
          resize_def fa rp vectorAt_def antennaFull_def antennaNoAccuracy_def
          disableEpoch_def minus3d_def exampleStationInfo_def)
       (simp add: exampleNetworkEnv_def exampleStation_def numeral_eq_Suc)
qed

lemma example_name: "name (newReceiver exampleNetworkEnv 4 nm exampleStationInfo) = nm"
  by (simp add: newReceiver_def)

lemma example_alternative:
  "setupAlternative exampleNetworkEnv observationConfig exampleTimes ''NONE'' = (None, [])"
  "fst (setupAlternative exampleNetworkEnv observationConfig exampleTimes ''FEW'')
     = Some (newReceiver exampleNetworkEnv 4 ''FEW'' exampleStationInfo)"
  "fst (setupAlternative exampleNetworkEnv observationConfig exampleTimes ''WTZR'')
     = Some (newReceiver exampleNetworkEnv 4 ''WTZR'' exampleStationInfo)"
  "fst (setupAlternative exampleNetworkEnv observationConfig exampleTimes ''ZIMM'')
     = Some (newReceiver exampleNetworkEnv 4 ''ZIMM'' exampleStationInfo)"
  "fst (setupAlternative exampleNetworkEnv simulationConfig exampleTimes ''GRAZ'')
     = Some (newReceiver exampleNetworkEnv 4 ''GRAZ'' exampleStationInfo)"
proof -
  have env: "expandName exampleNetworkEnv = exampleExpand"
      "fileExists exampleNetworkEnv = (\<lambda>path. take 3 path = ''obs'' \<and> path \<noteq> ''obs[station=NONE]'')"
      "readStationInfo exampleNetworkEnv = (\<lambda>path. if path = ''info[station=BAD]'' then Inl ''no station info''
                                else Inr exampleStationInfo)"
    by (simp_all add: exampleNetworkEnv_def)
  have cfg: "fileNameObs observationConfig = ''obs''" "fileNameStationInfo observationConfig = ''info''"
      "fileNameStationPosition observationConfig = []"
      "fileNameObs simulationConfig = []" "fileNameStationInfo simulationConfig = ''info''"
      "fileNameStationPosition simulationConfig = []"
    by (simp_all add: observationConfig_def simulationConfig_def defaultConfig_def)
  have len: "length exampleTimes = 4" by (simp add: exampleTimes_def)
  show "setupAlternative exampleNetworkEnv observationConfig exampleTimes ''NONE'' = (None, [])"
    "fst (setupAlternative exampleNetworkEnv observationConfig exampleTimes ''FEW'')
     = Some (newReceiver exampleNetworkEnv 4 ''FEW'' exampleStationInfo)"
    "fst (setupAlternative exampleNetworkEnv observationConfig exampleTimes ''WTZR'')
     = Some (newReceiver exampleNetworkEnv 4 ''WTZR'' exampleStationInfo)"
    "fst (setupAlternative exampleNetworkEnv observationConfig exampleTimes ''ZIMM'')
     = Some (newReceiver exampleNetworkEnv 4 ''ZIMM'' exampleStationInfo)"
    "fst (setupAlternative exampleNetworkEnv simulationConfig exampleTimes ''GRAZ'')
     = Some (newReceiver exampleNetworkEnv 4 ''GRAZ'' exampleStationInfo)"
    by (simp_all add: setupAlternative_def env cfg len exampleExpand_def)
qed

lemma example_readsAndPasses:
  "\<not> readsAndPasses exampleNetworkEnv observationConfig exampleTimes
       (newReceiver exampleNetworkEnv 4 ''FEW'' exampleStationInfo)"
  "readsAndPasses exampleNetworkEnv observationConfig exampleTimes
       (newReceiver exampleNetworkEnv 4 ''WTZR'' exampleStationInfo)"
  "readsAndPasses exampleNetworkEnv observationConfig exampleTimes
       (newReceiver exampleNetworkEnv 4 ''ZIMM'' exampleStationInfo)"
proof -
  have rd: "readObservations exampleNetworkEnv ''obs[station=FEW]'' r
              = (None, r\<lparr>useableEpochs := [True, False, False, False]\<rparr>)"
     "readObservations exampleNetworkEnv ''obs[station=WTZR]'' r
              = (None, r\<lparr>useableEpochs := [True, True, True, True]\<rparr>)"
     "readObservations exampleNetworkEnv ''obs[station=ZIMM]'' r
              = (None, r\<lparr>useableEpochs := [True, True, True, True]\<rparr>)" for r
    by (simp_all add: exampleNetworkEnv_def)
  have ex: "expandName exampleNetworkEnv (fileNameObs observationConfig) [(''station'', nm)]
              = ''obs[station='' @ nm @ '']''" for nm
    by (simp add: exampleNetworkEnv_def observationConfig_def exampleExpand_def)
  have ms: "medianSampling exampleNetworkEnv exampleTimes = 30" "length exampleTimes = 4"
      "minEstimableEpochsRatio observationConfig = 3 / 4"
    by (simp_all add: exampleNetworkEnv_def exampleTimes_def observationConfig_def defaultConfig_def)
  show "\<not> readsAndPasses exampleNetworkEnv observationConfig exampleTimes
       (newReceiver exampleNetworkEnv 4 ''FEW'' exampleStationInfo)"
    by (simp add: readsAndPasses_def example_setupEpochs example_name ex rd)
       (simp add: ms belowEstimableRatio_def countEpochs_take exampleSetUp_def)
  show "readsAndPasses exampleNetworkEnv observationConfig exampleTimes
       (newReceiver exampleNetworkEnv 4 ''WTZR'' exampleStationInfo)"
    by (simp add: readsAndPasses_def example_setupEpochs example_name ex rd)
       (simp add: ms belowEstimableRatio_def countEpochs_take exampleSetUp_def)
  show "readsAndPasses exampleNetworkEnv observationConfig exampleTimes
       (newReceiver exampleNetworkEnv 4 ''ZIMM'' exampleStationInfo)"
    by (simp add: readsAndPasses_def example_setupEpochs example_name ex rd)
       (simp add: ms belowEstimableRatio_def countEpochs_take exampleSetUp_def)
qed

lemma example_fileExists:
  "fileExists exampleNetworkEnv (expandName exampleNetworkEnv (fileNameObs observationConfig) [(''station'', ''FEW'')])"
  "fileExists exampleNetworkEnv (expandName exampleNetworkEnv (fileNameObs observationConfig) [(''station'', ''WTZR'')])"
  "fileExists exampleNetworkEnv (expandName exampleNetworkEnv (fileNameObs observationConfig) [(''station'', ''ZIMM'')])"
  "\<not> fileExists exampleNetworkEnv (expandName exampleNetworkEnv (fileNameObs simulationConfig) [(''station'', ''GRAZ'')])"
  by (simp_all add: exampleNetworkEnv_def observationConfig_def simulationConfig_def exampleExpand_def)

theorem first_qualifying_alternative_witness:
  "fileNameObs observationConfig \<noteq> []
   \<and> receiversWithAlternatives exampleNetworkEnv observationConfig exampleTimes
        [[''NONE'', ''FEW'', ''WTZR'', ''ZIMM'']]
      = [[newReceiver exampleNetworkEnv 4 ''FEW'' exampleStationInfo,
          newReceiver exampleNetworkEnv 4 ''WTZR'' exampleStationInfo,
          newReceiver exampleNetworkEnv 4 ''ZIMM'' exampleStationInfo]]
   \<and> receiverAlternativeAfterBroadCast exampleNetworkEnv observationConfig exampleTimes 1
        (receiversWithAlternatives exampleNetworkEnv observationConfig exampleTimes
           [[''NONE'', ''FEW'', ''WTZR'', ''ZIMM'']]) ! 0
      = [2]"
proof -
  have obs: "fileNameObs observationConfig \<noteq> []"
    by (simp add: observationConfig_def)
  have rwa: "receiversWithAlternatives exampleNetworkEnv observationConfig exampleTimes
        [[''NONE'', ''FEW'', ''WTZR'', ''ZIMM'']]
      = [[newReceiver exampleNetworkEnv 4 ''FEW'' exampleStationInfo,
          newReceiver exampleNetworkEnv 4 ''WTZR'' exampleStationInfo,
          newReceiver exampleNetworkEnv 4 ''ZIMM'' exampleStationInfo]]"
    by (simp add: receiversWithAlternatives_def alternativesOf_def List.map_filter_def example_alternative)
  have claimed: "claimedAlternative exampleNetworkEnv observationConfig exampleTimes
         [newReceiver exampleNetworkEnv 4 ''FEW'' exampleStationInfo,
          newReceiver exampleNetworkEnv 4 ''WTZR'' exampleStationInfo,
          newReceiver exampleNetworkEnv 4 ''ZIMM'' exampleStationInfo] = 2"
    by (simp add: claimedAlternative_def qualifies_def example_name example_fileExists example_readsAndPasses)
  have one: "(0::nat) < 1" by simp
  show ?thesis
    using first_qualifying_alternative [OF obs one one, of exampleNetworkEnv exampleTimes
        "[[''NONE'', ''FEW'', ''WTZR'', ''ZIMM'']]"]
    by (simp add: Let_def rwa claimed obs)
qed

text \<open>
  C9 as stated fails in the simulation case, where no observation file name is
  configured: the first alternative is taken although it has no observation file and
  only half of its epochs are usable.
\<close>

theorem simulation_selection_counterexample:
  "receiverAlternativeAfterBroadCast exampleNetworkEnv simulationConfig exampleTimes 1
        (receiversWithAlternatives exampleNetworkEnv simulationConfig exampleTimes [[''GRAZ'']]) ! 0
     = [1]
   \<and> map (claimedAlternative exampleNetworkEnv simulationConfig exampleTimes)
        (receiversWithAlternatives exampleNetworkEnv simulationConfig exampleTimes [[''GRAZ'']])
     = [0]
   \<and> receiverAlternativeAfterBroadCast exampleNetworkEnv simulationConfig exampleTimes 1
        (receiversWithAlternatives exampleNetworkEnv simulationConfig exampleTimes [[''GRAZ'']]) ! 0
     \<noteq> map (claimedAlternative exampleNetworkEnv simulationConfig exampleTimes)
        (receiversWithAlternatives exampleNetworkEnv simulationConfig exampleTimes [[''GRAZ'']])"
proof -
  have rwa: "receiversWithAlternatives exampleNetworkEnv simulationConfig exampleTimes [[''GRAZ'']]
      = [[newReceiver exampleNetworkEnv 4 ''GRAZ'' exampleStationInfo]]"
    by (simp add: receiversWithAlternatives_def alternativesOf_def List.map_filter_def example_alternative)
  have sim: "fileNameObs simulationConfig = []"
    by (simp add: simulationConfig_def)
  have t: "testAlternative exampleNetworkEnv simulationConfig exampleTimes 0
             (newReceiver exampleNetworkEnv 4 ''GRAZ'' exampleStationInfo)
           = (Some 1, exampleSetUp ''GRAZ'', [])"
    by (simp add: testAlternative_def example_setupEpochs sim)
  have code: "receiverAlternativeAfterBroadCast exampleNetworkEnv simulationConfig exampleTimes 1
        [[newReceiver exampleNetworkEnv 4 ''GRAZ'' exampleStationInfo]] ! 0 = [1]"
    using receiverAlternative_global [of 1 0 exampleNetworkEnv simulationConfig exampleTimes
        "[[newReceiver exampleNetworkEnv 4 ''GRAZ'' exampleStationInfo]]"]
    by (simp add: t)
  have claimed: "claimedAlternative exampleNetworkEnv simulationConfig exampleTimes
         [newReceiver exampleNetworkEnv 4 ''GRAZ'' exampleStationInfo] = 0"
    by (simp add: claimedAlternative_def qualifies_def example_name example_fileExists)
  show ?thesis
    using code claimed by (simp add: rwa)
qed

subsection \<open>The stations of a process\<close>

lemma setupEpochs_isMyRank:
  "(setupEpochs env tms ids recv = Inr r' \<longrightarrow> isMyRank r' = isMyRank recv)
   \<and> (setupEpochs env tms ids recv = Inl (e, r') \<longrightarrow> isMyRank r' = isMyRank recv)"
proof (induction ids arbitrary: recv)
  case Nil
  then show ?case by simp
next
  case (Cons idEpoch ids)
  have d: "isMyRank (disableEpoch idEpoch recv) = isMyRank recv"
    by (simp add: disableEpoch_def)
  show ?case
  proof (cases "findAntenna env (info recv) (tms ! idEpoch)")
    case None
    with Cons.IH [of "disableEpoch idEpoch recv"] d show ?thesis by simp
  next
    case (Some idAnt)
    show ?thesis
    proof (cases "vectorAt (antenna (info recv)) idAnt")
      case (Inl x)
      with Some show ?thesis by simp
    next
      case (Inr a)
      show ?thesis
      proof (cases "antennaDef a \<and> accuracyDef a")
        case True
        define recv1 where "recv1 = recv\<lparr> offset := (offset recv)
             [idEpoch := minus3d (position a) (referencePoint env (info recv) (tms ! idEpoch))],
             local2antenna := (local2antenna recv)[idEpoch := local2antennaFrame a] \<rparr>"
        have "setupEpochs env tms (idEpoch # ids) recv = setupEpochs env tms ids recv1"
          using Some Inr True by (simp add: recv1_def)
        moreover have "isMyRank recv1 = isMyRank recv" by (simp add: recv1_def)
        ultimately show ?thesis using Cons.IH [of recv1] by simp
      next
        case False
        then have "setupEpochs env tms (idEpoch # ids) recv = setupEpochs env tms ids (disableEpoch idEpoch recv)"
          using Some Inr by auto
        with Cons.IH [of "disableEpoch idEpoch recv"] d show ?thesis by simp
      qed
    qed
  qed
qed

lemma testAlternative_isMyRank:
  assumes "\<forall>path recv. isMyRank (snd (readObservations env path recv)) = isMyRank recv"
  shows "isMyRank (fst (snd (testAlternative env cfg tms k recv)))"
proof -
  have s: "isMyRank (sizedReceiver tms recv)" by (simp add: sizedReceiver_def)
  show ?thesis
  proof (cases "setupEpochs env tms [0..<length tms] (sizedReceiver tms recv)")
    case (Inl x)
    obtain e r' where x: "x = (e, r')" by (cases x)
    with Inl setupEpochs_isMyRank [of env tms "[0..<length tms]" "sizedReceiver tms recv" r' e] s
    show ?thesis by (simp add: testAlternative_def)
  next
    case (Inr recv2)
    with setupEpochs_isMyRank [of env tms "[0..<length tms]" "sizedReceiver tms recv" recv2] s
    have r2: "isMyRank recv2" by simp
    show ?thesis
    proof (cases "fileNameObs cfg = []")
      case True
      with Inr r2 show ?thesis by (simp add: testAlternative_def)
    next
      case False
      obtain x recv3 where rd: "readObservations env (expandName env (fileNameObs cfg) [(''station'', name recv)]) recv2 = (x, recv3)"
        by (cases "readObservations env (expandName env (fileNameObs cfg) [(''station'', name recv)]) recv2")
      with assms r2 have "isMyRank recv3"
        by (metis snd_conv)
      with Inr False rd show ?thesis
        by (simp add: testAlternative_def split: option.splits)
    qed
  qed
qed

lemma testAlternatives_marks:
  assumes flags: "\<forall>path recv. isMyRank (snd (readObservations env path recv)) = isMyRank recv"
  shows "testAlternatives env cfg tms k alts = (a, alts', w) \<Longrightarrow>
    length alts' = length alts \<and>
    (\<exists>m\<le>length alts. (\<forall>j<m. isMyRank (alts' ! j)) \<and> (a = 0 \<or> 0 < m \<and> (a = 1 \<or> a = k + m)))"
proof (induction alts arbitrary: k a alts' w)
  case Nil
  then show ?case by simp
next
  case (Cons recv rest)
  obtain x recv' warned where t: "testAlternative env cfg tms k recv = (x, recv', warned)"
    by (cases "testAlternative env cfg tms k recv")
  have m: "isMyRank recv'"
    using testAlternative_isMyRank [OF flags, of cfg tms k recv] t by simp
  have val: "x = None \<or> x = Some 1 \<or> x = Some (k + 1)"
    using t by (auto simp: testAlternative_def Let_def split: sum.splits prod.splits option.splits if_splits)
  show ?case
  proof (cases x)
    case (Some v)
    with t Cons.prems have res: "a = v" "alts' = recv' # rest" by auto
    from val Some have "v = 1 \<or> v = k + 1" by auto
    with res m show ?thesis
      by (intro conjI exI [of _ 1]) auto
  next
    case None
    obtain a2 rest' w2 where r: "testAlternatives env cfg tms (k + 1) rest = (a2, rest', w2)"
      by (cases "testAlternatives env cfg tms (k + 1) rest")
    from None t r Cons.prems have res: "a = a2" "alts' = recv' # rest'" by auto
    from Cons.IH [OF r] obtain m2 where ih: "length rest' = length rest" "m2 \<le> length rest"
        "\<forall>j<m2. isMyRank (rest' ! j)" "a2 = 0 \<or> 0 < m2 \<and> (a2 = 1 \<or> a2 = k + 1 + m2)"
      by blast
    have "\<forall>j<Suc m2. isMyRank ((recv' # rest') ! j)"
      using m ih(3) by (auto simp: nth_Cons')
    with ih res show ?thesis
      by (intro conjI exI [of _ "Suc m2"]) auto
  qed
qed

lemma testAlternatives_selected_marked:
  assumes flags: "\<forall>path recv. isMyRank (snd (readObservations env path recv)) = isMyRank recv"
    and run: "testAlternatives env cfg tms 0 alts = (a, alts', w)" and pos: "0 < a"
  shows "a - 1 < length alts \<and> length alts' = length alts \<and> isMyRank (alts' ! (a - 1))"
proof -
  from testAlternatives_marks [OF flags run] obtain m where
    m: "length alts' = length alts" "m \<le> length alts" "\<forall>j<m. isMyRank (alts' ! j)"
       "a = 0 \<or> 0 < m \<and> (a = 1 \<or> a = 0 + m)"
    by blast
  with pos have "a - 1 < m" by auto
  with m show ?thesis by auto
qed

lemma setupAlternative_fresh:
  assumes "fst (setupAlternative env cfg tms nm) = Some recv"
  shows "\<not> isMyRank recv"
  using assms
  by (auto simp: setupAlternative_def newReceiver_def Let_def split: if_splits sum.splits option.splits)

lemma alternativesOf_fresh:
  assumes "recv \<in> set (alternativesOf env cfg tms names)"
  shows "\<not> isMyRank recv"
proof -
  from assms obtain nm where "fst (setupAlternative env cfg tms nm) = Some recv"
    by (auto simp: alternativesOf_def List.map_filter_def)
  then show ?thesis by (rule setupAlternative_fresh)
qed

text \<open>
  C7. Let \<open>i\<close> be the index of a station in the table that \<^verbatim>\<open>init\<close> works through, and let
  \<^verbatim>\<open>readObservations\<close> leave the rank flag of a receiver as it is. A process of rank
  \<open>myRank\<close> among \<open>nProc\<close> processes leaves the alternatives of station \<open>i\<close> as they
  were unless \<open>i mod nProc = myRank\<close>, and tests them when it is. The alternative selected
  for the station carries the rank flag in this process exactly when
  \<open>i mod nProc = myRank\<close>; the loop of \<^verbatim>\<open>preprocessing\<close> runs the pipeline on the receivers
  that carry the flag and leaves every other receiver as it is.
\<close>

theorem round_robin_assignment:
  assumes procs: "0 < nProc" "myRank < nProc"
    and flags: "\<forall>path recv. isMyRank (snd (readObservations env path recv)) = isMyRank recv"
  shows
   "(let rwa = receiversWithAlternatives env cfg tms stationName;
         st = readStations env cfg tms nProc myRank rwa;
         selected = receiverAlternativeAfterBroadCast env cfg tms nProc rwa ! myRank
     in length (alternatives st) = length rwa
      \<and> (\<forall>i<length rwa.
            (i mod nProc \<noteq> myRank \<longrightarrow> alternatives st ! i = rwa ! i)
          \<and> (i mod nProc = myRank \<longrightarrow>
                alternatives st ! i = fst (snd (testAlternatives env cfg tms 0 (rwa ! i))))
          \<and> (0 < selected ! i \<longrightarrow>
                selected ! i - 1 < length (alternatives st ! i)
                \<and> isMyRank (alternatives st ! i ! (selected ! i - 1)) = (i mod nProc = myRank)))
      \<and> (\<forall>rs. receivers (preprocessingLoop exec cfg n ms rs)
                 = map (\<lambda>r. if isMyRank r then recvOut (preprocessStation exec cfg n ms r) else r) rs))"
proof -
  define rwa where "rwa = receiversWithAlternatives env cfg tms stationName"
  define st where "st = readStations env cfg tms nProc myRank rwa"
  define selected where "selected = receiverAlternativeAfterBroadCast env cfg tms nProc rwa ! myRank"
  have sel: "selected = map (\<lambda>alts. fst (testAlternatives env cfg tms 0 alts)) rwa"
    unfolding selected_def by (rule receiverAlternative_global [OF procs])
  have alt: "alternatives st = map (\<lambda>i. if i mod nProc = myRank
                               then fst (snd (testAlternatives env cfg tms 0 (rwa ! i))) else rwa ! i)
                        [0..<length rwa]"
    by (simp add: st_def readStations_eq)
  have a: "length (alternatives st) = length rwa"
    by (simp add: alt)
  have fresh: "\<not> isMyRank recv" if "i < length rwa" "recv \<in> set (rwa ! i)" for i recv
  proof -
    from that(1) have "rwa ! i \<in> set rwa" by simp
    then obtain names where "rwa ! i = alternativesOf env cfg tms names"
      unfolding rwa_def by (auto dest: receiversWithAlternatives_member)
    with that(2) show ?thesis by (auto dest: alternativesOf_fresh)
  qed
  have b: "\<forall>i<length rwa.
            (i mod nProc \<noteq> myRank \<longrightarrow> alternatives st ! i = rwa ! i)
          \<and> (i mod nProc = myRank \<longrightarrow>
                alternatives st ! i = fst (snd (testAlternatives env cfg tms 0 (rwa ! i))))
          \<and> (0 < selected ! i \<longrightarrow>
                selected ! i - 1 < length (alternatives st ! i)
                \<and> isMyRank (alternatives st ! i ! (selected ! i - 1)) = (i mod nProc = myRank))"
  proof (intro allI impI)
    fix i assume i: "i < length rwa"
    obtain v alts' w where t: "testAlternatives env cfg tms 0 (rwa ! i) = (v, alts', w)"
      by (cases "testAlternatives env cfg tms 0 (rwa ! i)")
    have s: "selected ! i = v" using i t by (simp add: sel)
    have other: "alternatives st ! i = rwa ! i" if "i mod nProc \<noteq> myRank"
      using i that by (simp add: alt)
    have mine: "alternatives st ! i = alts'" if "i mod nProc = myRank"
      using i that t by (simp add: alt)
    have marked: "selected ! i - 1 < length (alternatives st ! i)
                \<and> isMyRank (alternatives st ! i ! (selected ! i - 1)) = (i mod nProc = myRank)"
      if pos: "0 < selected ! i"
    proof -
      from pos s have "0 < v" by simp
      from testAlternatives_selected_marked [OF flags t this]
      have m: "v - 1 < length (rwa ! i)" "length alts' = length (rwa ! i)" "isMyRank (alts' ! (v - 1))"
        by simp_all
      show ?thesis
      proof (cases "i mod nProc = myRank")
        case True
        with m mine s show ?thesis by simp
      next
        case False
        from m(1) have "rwa ! i ! (v - 1) \<in> set (rwa ! i)" by simp
        with fresh [OF i] have "\<not> isMyRank (rwa ! i ! (v - 1))" by blast
        with False other m(1) s show ?thesis by simp
      qed
    qed
    from other mine marked t
    show "(i mod nProc \<noteq> myRank \<longrightarrow> alternatives st ! i = rwa ! i)
          \<and> (i mod nProc = myRank \<longrightarrow>
                alternatives st ! i = fst (snd (testAlternatives env cfg tms 0 (rwa ! i))))
          \<and> (0 < selected ! i \<longrightarrow>
                selected ! i - 1 < length (alternatives st ! i)
                \<and> isMyRank (alternatives st ! i ! (selected ! i - 1)) = (i mod nProc = myRank))"
      by simp
  qed
  have c: "\<forall>rs. receivers (preprocessingLoop exec cfg n ms rs)
                 = map (\<lambda>r. if isMyRank r then recvOut (preprocessStation exec cfg n ms r) else r) rs"
    by (simp add: preprocessingLoop_eq)
  show ?thesis
    unfolding Let_def rwa_def [symmetric] st_def [symmetric] selected_def [symmetric]
    by (intro conjI a b c)
qed


theorem round_robin_assignment_witness:
  "(\<forall>path recv. isMyRank (snd (readObservations exampleNetworkEnv path recv)) = isMyRank recv)
   \<and> receiversWithAlternatives exampleNetworkEnv observationConfig exampleTimes
        [[''FEW'', ''WTZR''], [''ZIMM'']]
      = [[newReceiver exampleNetworkEnv 4 ''FEW'' exampleStationInfo,
          newReceiver exampleNetworkEnv 4 ''WTZR'' exampleStationInfo],
         [newReceiver exampleNetworkEnv 4 ''ZIMM'' exampleStationInfo]]
   \<and> receiverAlternativeAfterBroadCast exampleNetworkEnv observationConfig exampleTimes 2
        (receiversWithAlternatives exampleNetworkEnv observationConfig exampleTimes
           [[''FEW'', ''WTZR''], [''ZIMM'']]) ! 1
      = [2, 1]
   \<and> alternatives (readStations exampleNetworkEnv observationConfig exampleTimes 2 1
        (receiversWithAlternatives exampleNetworkEnv observationConfig exampleTimes
           [[''FEW'', ''WTZR''], [''ZIMM'']])) ! 0
      = [newReceiver exampleNetworkEnv 4 ''FEW'' exampleStationInfo,
         newReceiver exampleNetworkEnv 4 ''WTZR'' exampleStationInfo]
   \<and> \<not> isMyRank (alternatives (readStations exampleNetworkEnv observationConfig exampleTimes 2 1
        (receiversWithAlternatives exampleNetworkEnv observationConfig exampleTimes
           [[''FEW'', ''WTZR''], [''ZIMM'']])) ! 0 ! 1)
   \<and> isMyRank (alternatives (readStations exampleNetworkEnv observationConfig exampleTimes 2 1
        (receiversWithAlternatives exampleNetworkEnv observationConfig exampleTimes
           [[''FEW'', ''WTZR''], [''ZIMM'']])) ! 1 ! 0)"
proof -
  have flags: "\<forall>path recv. isMyRank (snd (readObservations exampleNetworkEnv path recv)) = isMyRank recv"
    by (simp add: exampleNetworkEnv_def)
  have obs: "fileNameObs observationConfig \<noteq> []"
    by (simp add: observationConfig_def)
  have rwa: "receiversWithAlternatives exampleNetworkEnv observationConfig exampleTimes
        [[''FEW'', ''WTZR''], [''ZIMM'']]
      = [[newReceiver exampleNetworkEnv 4 ''FEW'' exampleStationInfo,
          newReceiver exampleNetworkEnv 4 ''WTZR'' exampleStationInfo],
         [newReceiver exampleNetworkEnv 4 ''ZIMM'' exampleStationInfo]]"
    by (simp add: receiversWithAlternatives_def alternativesOf_def List.map_filter_def example_alternative)
  have alts: "alternativesOf exampleNetworkEnv observationConfig exampleTimes [''FEW'', ''WTZR'']
      = [newReceiver exampleNetworkEnv 4 ''FEW'' exampleStationInfo,
          newReceiver exampleNetworkEnv 4 ''WTZR'' exampleStationInfo]"
     "alternativesOf exampleNetworkEnv observationConfig exampleTimes [''ZIMM'']
      = [newReceiver exampleNetworkEnv 4 ''ZIMM'' exampleStationInfo]"
    by (simp_all add: alternativesOf_def List.map_filter_def example_alternative)
  have v0: "fst (testAlternatives exampleNetworkEnv observationConfig exampleTimes 0
         [newReceiver exampleNetworkEnv 4 ''FEW'' exampleStationInfo,
          newReceiver exampleNetworkEnv 4 ''WTZR'' exampleStationInfo]) = 2"
    using claimedAlternative_alternativesOf [OF obs, of exampleNetworkEnv exampleTimes "[''FEW'', ''WTZR'']"]
    by (simp add: alts claimedAlternative_def qualifies_def example_name example_fileExists example_readsAndPasses)
  have v1: "fst (testAlternatives exampleNetworkEnv observationConfig exampleTimes 0
         [newReceiver exampleNetworkEnv 4 ''ZIMM'' exampleStationInfo]) = 1"
    using claimedAlternative_alternativesOf [OF obs, of exampleNetworkEnv exampleTimes "[''ZIMM'']"]
    by (simp add: alts claimedAlternative_def qualifies_def example_name example_fileExists example_readsAndPasses)
  have two: "(0::nat) < 2" "(1::nat) < 2" by simp_all
  have sel: "receiverAlternativeAfterBroadCast exampleNetworkEnv observationConfig exampleTimes 2
        [[newReceiver exampleNetworkEnv 4 ''FEW'' exampleStationInfo,
          newReceiver exampleNetworkEnv 4 ''WTZR'' exampleStationInfo],
         [newReceiver exampleNetworkEnv 4 ''ZIMM'' exampleStationInfo]] ! 1 = [2, 1]"
    using receiverAlternative_global [OF two, of exampleNetworkEnv observationConfig exampleTimes
        "[[newReceiver exampleNetworkEnv 4 ''FEW'' exampleStationInfo,
          newReceiver exampleNetworkEnv 4 ''WTZR'' exampleStationInfo],
         [newReceiver exampleNetworkEnv 4 ''ZIMM'' exampleStationInfo]]"] v0 v1
    by simp
  have fresh: "\<not> isMyRank (newReceiver exampleNetworkEnv 4 ''WTZR'' exampleStationInfo)"
    by (simp add: newReceiver_def)
  define rwa where "rwa = receiversWithAlternatives exampleNetworkEnv observationConfig exampleTimes
        [[''FEW'', ''WTZR''], [''ZIMM'']]"
  define st where "st = readStations exampleNetworkEnv observationConfig exampleTimes 2 1 rwa"
  define selected where "selected
      = receiverAlternativeAfterBroadCast exampleNetworkEnv observationConfig exampleTimes 2 rwa ! 1"
  from round_robin_assignment [OF two flags, of observationConfig exampleTimes "[[''FEW'', ''WTZR''], [''ZIMM'']]"]
  have inst: "\<forall>i<length rwa.
            (i mod 2 \<noteq> 1 \<longrightarrow> alternatives st ! i = rwa ! i)
          \<and> (i mod 2 = 1 \<longrightarrow>
                alternatives st ! i = fst (snd (testAlternatives exampleNetworkEnv observationConfig exampleTimes 0 (rwa ! i))))
          \<and> (0 < selected ! i \<longrightarrow>
                selected ! i - 1 < length (alternatives st ! i)
                \<and> isMyRank (alternatives st ! i ! (selected ! i - 1)) = (i mod 2 = 1))"
    unfolding Let_def rwa_def [symmetric] st_def [symmetric] selected_def [symmetric]
    by (rule conjunct1 [OF conjunct2])
  have rwa_val: "rwa = [[newReceiver exampleNetworkEnv 4 ''FEW'' exampleStationInfo,
          newReceiver exampleNetworkEnv 4 ''WTZR'' exampleStationInfo],
         [newReceiver exampleNetworkEnv 4 ''ZIMM'' exampleStationInfo]]"
    by (simp add: rwa_def rwa)
  have sel_val: "selected = [2, 1]"
    unfolding selected_def rwa_val by (rule sel)
  have len: "length rwa = 2" by (simp add: rwa_val)
  have p0: "alternatives st ! 0 = rwa ! 0"
    using inst [rule_format, of 0] by (simp add: len)
  have "(1::nat) < length rwa" by (simp add: len)
  from inst [rule_format, OF this]
  have "0 < selected ! 1 \<longrightarrow>
                selected ! 1 - 1 < length (alternatives st ! 1)
                \<and> isMyRank (alternatives st ! 1 ! (selected ! 1 - 1)) = (1 mod 2 = (1::nat))"
    by (elim conjE)
  moreover have "0 < selected ! 1" by (simp add: sel_val)
  ultimately have p1: "isMyRank (alternatives st ! 1 ! (selected ! 1 - 1)) = (1 mod 2 = (1::nat))"
    by blast
  have q0: "alternatives st ! 0 = [newReceiver exampleNetworkEnv 4 ''FEW'' exampleStationInfo,
         newReceiver exampleNetworkEnv 4 ''WTZR'' exampleStationInfo]"
    using p0 by (simp add: rwa_val)
  have q1: "isMyRank (alternatives st ! 1 ! 0)"
    using p1 by (simp add: sel_val)
  have q2: "\<not> isMyRank (alternatives st ! 0 ! 1)"
    using fresh by (simp add: q0)
  have goal: "(\<forall>path recv. isMyRank (snd (readObservations exampleNetworkEnv path recv)) = isMyRank recv)
   \<and> rwa = [[newReceiver exampleNetworkEnv 4 ''FEW'' exampleStationInfo,
          newReceiver exampleNetworkEnv 4 ''WTZR'' exampleStationInfo],
         [newReceiver exampleNetworkEnv 4 ''ZIMM'' exampleStationInfo]]
   \<and> selected = [2, 1]
   \<and> alternatives st ! 0 = [newReceiver exampleNetworkEnv 4 ''FEW'' exampleStationInfo,
         newReceiver exampleNetworkEnv 4 ''WTZR'' exampleStationInfo]
   \<and> \<not> isMyRank (alternatives st ! 0 ! 1)
   \<and> isMyRank (alternatives st ! 1 ! 0)"
    by (intro conjI flags rwa_val sel_val q0 q2 q1)
  then show ?thesis
    unfolding st_def selected_def rwa_def .
qed



subsection \<open>Values after the reduce and the broadcast\<close>

text \<open>
  C6 (amended). After the loop over the stations, the barrier, the reduce and the
  broadcast of \<^verbatim>\<open>init\<close>, every process holds the same vector \<^verbatim>\<open>receiverAlternative\<close>: for
  every station the value that the loop over its alternatives gives, whatever the number
  of processes. After the loop of \<^verbatim>\<open>preprocessing\<close> and its reduce, which no broadcast
  follows, process 0 holds the sum of the counts of disabled stations of all processes,
  and every other process holds its own count.
\<close>

theorem aggregates_after_collectives:
  assumes "0 < nProc"
  shows
   "length (receiverAlternativeAfterBroadCast env cfg tms nProc rwa) = nProc
    \<and> (\<forall>myRank<nProc. receiverAlternativeAfterBroadCast env cfg tms nProc rwa ! myRank
           = map (\<lambda>alts. fst (testAlternatives env cfg tms 0 alts)) rwa)
    \<and> length (disabledStationsAfterReduce exec cfg n ms rss) = length rss
    \<and> (rss \<noteq> [] \<longrightarrow> disabledStationsAfterReduce exec cfg n ms rss ! 0
           = sum_list (map (\<lambda>rs. disabledStations (preprocessingLoop exec cfg n ms rs)) rss))
    \<and> (\<forall>p<length rss. 0 < p \<longrightarrow> disabledStationsAfterReduce exec cfg n ms rss ! p
           = disabledStations (preprocessingLoop exec cfg n ms (rss ! p)))"
proof -
  have a: "length (receiverAlternativeAfterBroadCast env cfg tms nProc rwa) = nProc"
    by (simp add: receiverAlternativeAfterBroadCast_def broadCast_def reduceSumVector_def)
  have b: "\<forall>myRank<nProc. receiverAlternativeAfterBroadCast env cfg tms nProc rwa ! myRank
           = map (\<lambda>alts. fst (testAlternatives env cfg tms 0 alts)) rwa"
    using assms by (simp add: receiverAlternative_global)
  have c: "length (disabledStationsAfterReduce exec cfg n ms rss) = length rss"
    by (simp add: disabledStationsAfterReduce_def reduceSum_def)
  have d: "rss \<noteq> [] \<longrightarrow> disabledStationsAfterReduce exec cfg n ms rss ! 0
           = sum_list (map (\<lambda>rs. disabledStations (preprocessingLoop exec cfg n ms rs)) rss)"
    by (simp add: disabledStationsAfterReduce_def reduceSum_def)
  have e: "\<forall>p<length rss. 0 < p \<longrightarrow> disabledStationsAfterReduce exec cfg n ms rss ! p
           = disabledStations (preprocessingLoop exec cfg n ms (rss ! p))"
    by (simp add: disabledStationsAfterReduce_def reduceSum_def)
  from a b c d e show ?thesis by (intro conjI)
qed

lemma example_disabled:
  "disabledStations (preprocessingLoop execOk simulationConfig 4 30 (processReceivers ! 0)) = 1"
  "disabledStations (preprocessingLoop execOk simulationConfig 4 30 (processReceivers ! 1)) = 1"
proof -
  have half: "disabledInc (preprocessStation execOk simulationConfig 4 30
        (exampleStation ''HALF'' 0 True [True, False, True, False])) = 1"
    by (simp add: preprocessStation_def stationCalls_def execOk_def exampleStation_def
          belowEstimableRatio_def countEpochs_take simulationConfig_def defaultConfig_def)
  have dark: "disabledInc (preprocessStation execOk simulationConfig 4 30
        (exampleStation ''DARK'' 1 True [False, False, False, False])) = 1"
    by (simp add: preprocessStation_def stationCalls_def execOk_def exampleStation_def
          belowEstimableRatio_def countEpochs_take simulationConfig_def defaultConfig_def)
  have flags: "isMyRank (exampleStation nm i b fl) = b" for nm i b fl
    by (simp add: exampleStation_def)
  show "disabledStations (preprocessingLoop execOk simulationConfig 4 30 (processReceivers ! 0)) = 1"
    using half by (simp add: processReceivers_def preprocessingLoop_eq flags)
  show "disabledStations (preprocessingLoop execOk simulationConfig 4 30 (processReceivers ! 1)) = 1"
    using dark by (simp add: processReceivers_def preprocessingLoop_eq flags)
qed

theorem aggregates_after_collectives_witness:
  "processReceivers \<noteq> []
   \<and> disabledStationsAfterReduce execOk simulationConfig 4 30 processReceivers ! 0 = 2
   \<and> disabledStationsAfterReduce execOk simulationConfig 4 30 processReceivers ! 1 = 1
   \<and> receiverAlternativeAfterBroadCast exampleNetworkEnv simulationConfig exampleTimes 2
        [[newReceiver exampleNetworkEnv 4 ''GRAZ'' exampleStationInfo]] ! 0 = [1]
   \<and> receiverAlternativeAfterBroadCast exampleNetworkEnv simulationConfig exampleTimes 2
        [[newReceiver exampleNetworkEnv 4 ''GRAZ'' exampleStationInfo]] ! 1 = [1]"
proof -
  have ne: "processReceivers \<noteq> []" and len: "length processReceivers = 2"
    and two: "processReceivers = [processReceivers ! 0, processReceivers ! 1]"
    by (simp_all add: processReceivers_def)
  have sim: "fileNameObs simulationConfig = []"
    by (simp add: simulationConfig_def)
  have t: "testAlternative exampleNetworkEnv simulationConfig exampleTimes 0
             (newReceiver exampleNetworkEnv 4 ''GRAZ'' exampleStationInfo)
           = (Some 1, exampleSetUp ''GRAZ'', [])"
    by (simp add: testAlternative_def example_setupEpochs sim)
  have pos: "(0::nat) < 2" by simp
  note inst = aggregates_after_collectives [OF pos, where env = exampleNetworkEnv and cfg = simulationConfig
      and tms = exampleTimes and rwa = "[[newReceiver exampleNetworkEnv 4 ''GRAZ'' exampleStationInfo]]"
      and exec = execOk and n = 4 and ms = 30 and rss = processReceivers]
  have sum: "sum_list (map (\<lambda>rs. disabledStations (preprocessingLoop execOk simulationConfig 4 30 rs)) processReceivers) = 2"
    using example_disabled by (subst two) simp
  have r0: "disabledStationsAfterReduce execOk simulationConfig 4 30 processReceivers ! 0 = 2"
    using inst ne sum by simp
  have "(1::nat) < length processReceivers" by (simp add: len)
  with inst have "disabledStationsAfterReduce execOk simulationConfig 4 30 processReceivers ! 1
      = disabledStations (preprocessingLoop execOk simulationConfig 4 30 (processReceivers ! 1))"
    by simp
  then have r1: "disabledStationsAfterReduce execOk simulationConfig 4 30 processReceivers ! 1 = 1"
    using example_disabled by simp
  from inst have all: "\<forall>myRank<2. receiverAlternativeAfterBroadCast exampleNetworkEnv simulationConfig exampleTimes 2
        [[newReceiver exampleNetworkEnv 4 ''GRAZ'' exampleStationInfo]] ! myRank = [1]"
    by (simp add: t)
  have a0: "receiverAlternativeAfterBroadCast exampleNetworkEnv simulationConfig exampleTimes 2
        [[newReceiver exampleNetworkEnv 4 ''GRAZ'' exampleStationInfo]] ! 0 = [1]"
    using all by simp
  have a1: "receiverAlternativeAfterBroadCast exampleNetworkEnv simulationConfig exampleTimes 2
        [[newReceiver exampleNetworkEnv 4 ''GRAZ'' exampleStationInfo]] ! 1 = [1]"
    using all by simp
  show ?thesis
    by (intro conjI ne r0 r1 a0 a1)
qed

text \<open>
  C6 as stated fails: with two processes that each disable one station, process 1 ends
  with the count 1 and process 0 with the global count 2.
\<close>

theorem disabled_count_counterexample:
  "disabledStationsAfterReduce execOk simulationConfig 4 30 processReceivers = [2, 1]
   \<and> disabledStationsAfterReduce execOk simulationConfig 4 30 processReceivers ! 1
       \<noteq> sum_list (map (\<lambda>rs. disabledStations (preprocessingLoop execOk simulationConfig 4 30 rs)) processReceivers)"
proof -
  have two: "processReceivers = [processReceivers ! 0, processReceivers ! 1]"
    by (simp add: processReceivers_def)
  have sum: "sum_list (map (\<lambda>rs. disabledStations (preprocessingLoop execOk simulationConfig 4 30 rs)) processReceivers) = 2"
    using example_disabled by (subst two) simp
  have red: "disabledStationsAfterReduce execOk simulationConfig 4 30 processReceivers = [2, 1]"
    unfolding disabledStationsAfterReduce_def reduceSum_def sum
    using example_disabled by (subst two) simp
  show ?thesis
    by (simp add: red sum)
qed

end
